(* ===== verification/Prelude.thy ===== *)
theory Prelude
  imports Main "HOL-Library.Multiset" "HOL-Library.Product_Lexorder" "HOL-Library.Sublist"
begin

section \<open>Shared vocabulary: SQL row operators, machine integers, Go strings\<close>

text \<open>
  Generic operators and lemmas the components share. The SQL statements of
  internal/mastermind/store are written with three operators over a table, which is a list
  of rows in scan order (nothing below depends on that order beyond ties that SQL leaves
  open): \<open>sql_update\<close> (UPDATE .. SET .. WHERE), \<open>sql_returning\<close> (the rows of RETURNING)
  and \<open>rows_affected\<close> (the command tag's row count). \<open>int4\<close> is the range of a Postgres
  INTEGER column, \<open>to_int32\<close> Go's conversion \<open>int32(x)\<close>.
\<close>

named_theorems sql_simps \<open>rewrite rules for the SQL row operators\<close>
named_theorems row_defs \<open>definitions of the SET lists of the store's statements\<close>
named_theorems store_defs \<open>definitions of the store's methods\<close>
named_theorems inv_defs \<open>definitions of the well-formedness predicates\<close>

subsection \<open>Rows\<close>

definition sql_update :: "('r \<Rightarrow> bool) \<Rightarrow> ('r \<Rightarrow> 'r) \<Rightarrow> 'r list \<Rightarrow> 'r list" where
  "sql_update p f rows = map (\<lambda>r. if p r then f r else r) rows"

definition sql_returning :: "('r \<Rightarrow> bool) \<Rightarrow> ('r \<Rightarrow> 'r) \<Rightarrow> 'r list \<Rightarrow> 'r list" where
  "sql_returning p f rows = map f (filter p rows)"

definition rows_affected :: "('r \<Rightarrow> bool) \<Rightarrow> 'r list \<Rightarrow> nat" where
  "rows_affected p rows = length (filter p rows)"

lemma sql_update_Nil [simp, sql_simps]: "sql_update p f [] = []"
  by (simp add: sql_update_def)

lemma sql_update_Cons [sql_simps]:
  "sql_update p f (r # rows) = (if p r then f r else r) # sql_update p f rows"
  by (simp add: sql_update_def)

lemma set_sql_update:
  "set (sql_update p f rows) = (\<lambda>r. if p r then f r else r) ` set rows"
  by (simp add: sql_update_def)

lemma in_sql_updateE:
  assumes "r' \<in> set (sql_update p f rows)"
  obtains r where "r \<in> set rows" and "r' = (if p r then f r else r)"
  using assms by (auto simp: set_sql_update)

lemma length_sql_update [simp]: "length (sql_update p f rows) = length rows"
  by (simp add: sql_update_def)

lemma map_sql_update [sql_simps]:
  "(\<And>r. p r \<Longrightarrow> g (f r) = g r) \<Longrightarrow> map g (sql_update p f rows) = map g rows"
  by (simp add: sql_update_def)

lemma sql_update_none: "(\<And>r. r \<in> set rows \<Longrightarrow> \<not> p r) \<Longrightarrow> sql_update p f rows = rows"
  unfolding sql_update_def by (rule map_idI) auto

lemma sql_returning_empty_iff [sql_simps]:
  "sql_returning p f rows = [] \<longleftrightarrow> (\<forall>r \<in> set rows. \<not> p r)"
  by (simp add: sql_returning_def filter_empty_conv)

lemma rows_affected_zero_iff [sql_simps]:
  "rows_affected p rows = 0 \<longleftrightarrow> (\<forall>r \<in> set rows. \<not> p r)"
  by (simp add: rows_affected_def filter_empty_conv)

text \<open>A primary key: at most one row has a given key.\<close>

lemma filter_key:
  assumes "distinct (map key rows)" and "r \<in> set rows" and "key r = k"
  shows "filter (\<lambda>r. key r = k \<and> p r) rows = (if p r then [r] else [])"
  using assms
proof (induction rows)
  case Nil
  then show ?case by simp
next
  case (Cons a rows)
  show ?case
  proof (cases "a = r")
    case True
    with Cons.prems have "\<forall>x \<in> set rows. key x \<noteq> k" by (auto simp: image_iff)
    then have "filter (\<lambda>r. key r = k \<and> p r) rows = []" by (auto simp: filter_empty_conv)
    with True Cons.prems show ?thesis by simp
  next
    case False
    with Cons.prems have "r \<in> set rows" by simp
    moreover from this Cons.prems have "key a \<noteq> k" by (auto simp: image_iff)
    ultimately show ?thesis using Cons by simp
  qed
qed

definition find_key :: "('r \<Rightarrow> 'k) \<Rightarrow> 'k \<Rightarrow> 'r list \<Rightarrow> 'r option" where
  "find_key key k rows = find (\<lambda>r. key r = k) rows"

lemma find_key_Nil [simp]: "find_key key k [] = None"
  by (simp add: find_key_def)

lemma find_key_Cons [simp]:
  "find_key key k (r # rows) = (if key r = k then Some r else find_key key k rows)"
  by (simp add: find_key_def)

lemma find_key_None_iff: "find_key key k rows = None \<longleftrightarrow> k \<notin> key ` set rows"
  by (induction rows) auto

lemma find_key_SomeD: "find_key key k rows = Some r \<Longrightarrow> r \<in> set rows \<and> key r = k"
  by (induction rows) (auto split: if_splits)

lemma find_key_Some_image: "find_key key k rows = Some r \<Longrightarrow> k \<in> key ` set rows"
  by (induction rows) (auto split: if_splits)

lemma find_key_distinct:
  "distinct (map key rows) \<Longrightarrow> r \<in> set rows \<Longrightarrow> find_key key (key r) rows = Some r"
  by (induction rows) (auto simp: image_iff)

lemma find_key_sql_update:
  assumes "\<And>r. p r \<Longrightarrow> key (f r) = key r"
  shows "find_key key k (sql_update p f rows) =
    map_option (\<lambda>r. if p r then f r else r) (find_key key k rows)"
  using assms by (induction rows) (auto simp: sql_update_Cons)

lemma find_key_sql_update_one:
  assumes "find_key key k rows = Some r" and "\<And>r. key (f r) = key r"
  shows "find_key key j (sql_update (\<lambda>r. key r = k) f rows) =
    (if j = k then Some (f r) else find_key key j rows)"
proof (cases "find_key key j rows")
  case None
  with assms(1) have "j \<noteq> k" by auto
  with None assms(2) show ?thesis by (simp add: find_key_sql_update)
next
  case (Some x)
  then have "key x = j" by (rule find_key_SomeD [THEN conjunct2])
  with Some assms show ?thesis by (auto simp: find_key_sql_update)
qed

lemma ball_sql_update_key:
  assumes "distinct (map key rows)" and "find_key key k rows = Some r"
    and "P (f r)" and "\<forall>x \<in> set rows. P x"
  shows "\<forall>x \<in> set (sql_update (\<lambda>r. key r = k) f rows). P x"
proof -
  have "x = r" if "x \<in> set rows" "key x = k" for x
    using find_key_distinct [OF assms(1) that(1)] that(2) assms(2) by simp
  with assms(3,4) show ?thesis by (auto simp: set_sql_update)
qed

lemma find_key_ball:
  assumes "distinct (map key rows)"
  shows "(\<forall>x \<in> set rows. P x) \<longleftrightarrow> (\<forall>k x. find_key key k rows = Some x \<longrightarrow> P x)"
  using assms find_key_distinct [of key rows] by (auto dest: find_key_SomeD)

lemma find_key_filter:
  assumes "distinct (map key rows)"
  shows "find_key key k (filter p rows) =
    (case find_key key k rows of None \<Rightarrow> None | Some r \<Rightarrow> if p r then Some r else None)"
  using assms
  by (induction rows)
    (auto split: option.splits if_splits simp: find_key_None_iff dest: find_key_Some_image)

lemma find_key_append:
  "find_key key k (xs @ ys) =
    (case find_key key k xs of Some r \<Rightarrow> Some r | None \<Rightarrow> find_key key k ys)"
  by (induction xs) auto

text \<open>GROUP BY: the groups of a key partition the rows.\<close>

lemma length_group_sum:
  assumes "finite A" and "\<And>x. x \<in> set xs \<Longrightarrow> f x \<in> A"
  shows "(\<Sum>k \<in> A. length (filter (\<lambda>x. f x = k) xs)) = length xs"
  using assms(2)
proof (induction xs)
  case Nil
  then show ?case by simp
next
  case (Cons x xs)
  have "(\<Sum>k \<in> A. length (filter (\<lambda>y. f y = k) (x # xs))) =
      (\<Sum>k \<in> A. length (filter (\<lambda>y. f y = k) xs)) + (\<Sum>k \<in> A. if f x = k then 1 else 0)"
    unfolding sum.distrib [symmetric] by (rule sum.cong) auto
  with Cons assms(1) show ?case by (simp add: sum.delta)
qed

lemma length_group_sum_list:
  "(\<Sum>k \<leftarrow> remdups (map f xs). length (filter (\<lambda>x. f x = k) xs)) = length xs"
  using length_group_sum [of "f ` set xs" xs f]
  by (simp add: sum_list_distinct_conv_sum_set)

subsection \<open>Machine integers\<close>

definition int4 :: "int \<Rightarrow> bool" where
  "int4 i \<longleftrightarrow> - (2 ^ 31) \<le> i \<and> i < 2 ^ 31"

definition to_int32 :: "int \<Rightarrow> int" where
  "to_int32 i = (i + 2 ^ 31) mod 2 ^ 32 - 2 ^ 31"

lemma to_int32_int4: "int4 (to_int32 i)"
proof -
  have "0 \<le> (i + 2 ^ 31) mod (2 ^ 32 :: int)" and "(i + 2 ^ 31) mod (2 ^ 32 :: int) < 2 ^ 32"
    by simp_all
  then show ?thesis by (simp add: to_int32_def int4_def)
qed

lemma to_int32_id: "int4 i \<Longrightarrow> to_int32 i = i"
  by (simp add: to_int32_def int4_def)

text \<open>Go's integer division truncates towards zero.\<close>

definition quot :: "int \<Rightarrow> int \<Rightarrow> int" where
  "quot a b = sgn a * sgn b * (\<bar>a\<bar> div \<bar>b\<bar>)"

lemma quot_nonneg: "0 \<le> a \<Longrightarrow> 0 < b \<Longrightarrow> quot a b = a div b"
  by (cases "a = 0") (simp_all add: quot_def)

subsection \<open>Go strings\<close>

text \<open>A Go string is its bytes. An empty string is a NULL for the nullable columns.\<close>

definition non_empty :: "string \<Rightarrow> string option" where
  "non_empty s = (if s = [] then None else Some s)"

fun has_prefix :: "string \<Rightarrow> string \<Rightarrow> bool" where
  "has_prefix s [] = True"
| "has_prefix [] (p # ps) = False"
| "has_prefix (c # cs) (p # ps) = (c = p \<and> has_prefix cs ps)"

definition trim_prefix :: "string \<Rightarrow> string \<Rightarrow> string" where
  "trim_prefix s p = (if has_prefix s p then drop (length p) s else s)"

lemma has_prefix_append [simp]: "has_prefix (p @ s) p"
  by (induction p) auto

lemma has_prefix_iff: "has_prefix s p \<longleftrightarrow> take (length p) s = p"
  by (induction s p rule: has_prefix.induct) auto

lemma trim_prefix_append [simp]: "trim_prefix (p @ s) p = s"
  by (simp add: trim_prefix_def)

text \<open>
  \<open>strings.TrimSpace\<close> on bytes: \<open>space_seqs\<close> are the UTF-8 encodings of the code points
  with Unicode's White_Space property; UTF-8 is self-synchronising, so a suffix that is one
  of these encodings is the last rune of the string.
\<close>

definition space_seqs :: "string list" where
  "space_seqs =
     [[CHR 0x20], [CHR 0x09], [CHR 0x0A], [CHR 0x0B], [CHR 0x0C], [CHR 0x0D],
      [CHR 0xC2, CHR 0x85], [CHR 0xC2, CHR 0xA0], [CHR 0xE1, CHR 0x9A, CHR 0x80],
      [CHR 0xE2, CHR 0x80, CHR 0x80], [CHR 0xE2, CHR 0x80, CHR 0x81],
      [CHR 0xE2, CHR 0x80, CHR 0x82], [CHR 0xE2, CHR 0x80, CHR 0x83],
      [CHR 0xE2, CHR 0x80, CHR 0x84], [CHR 0xE2, CHR 0x80, CHR 0x85],
      [CHR 0xE2, CHR 0x80, CHR 0x86], [CHR 0xE2, CHR 0x80, CHR 0x87],
      [CHR 0xE2, CHR 0x80, CHR 0x88], [CHR 0xE2, CHR 0x80, CHR 0x89],
      [CHR 0xE2, CHR 0x80, CHR 0x8A], [CHR 0xE2, CHR 0x80, CHR 0xA8],
      [CHR 0xE2, CHR 0x80, CHR 0xA9], [CHR 0xE2, CHR 0x80, CHR 0xAF],
      [CHR 0xE2, CHR 0x81, CHR 0x9F], [CHR 0xE3, CHR 0x80, CHR 0x80]]"

function trim_seqs :: "string list \<Rightarrow> string \<Rightarrow> string" where
  "trim_seqs ws s =
     (case find (\<lambda>w. w \<noteq> [] \<and> has_prefix s w) ws of
        None \<Rightarrow> s
      | Some w \<Rightarrow> trim_seqs ws (drop (length w) s))"
  by pat_completeness auto
termination
proof (relation "measure (\<lambda>(ws, s). length s)", goal_cases)
  case 1
  show ?case by simp
next
  case (2 ws s w)
  then have "w \<noteq> []" and "has_prefix s w" by (auto simp: find_Some_iff)
  then have "s \<noteq> []" by (cases s; cases w) auto
  with \<open>w \<noteq> []\<close> show ?case by simp
qed

declare trim_seqs.simps [simp del]

definition trim_space :: "string \<Rightarrow> string" where
  "trim_space s = rev (trim_seqs (map rev space_seqs) (rev (trim_seqs space_seqs s)))"

lemma trim_space_examples:
  "trim_space '' a b '' = ''a b''" "trim_space ''   '' = []"
  "trim_space [CHR 0xC2, CHR 0xA0, CHR ''x''] = ''x''"
  by (simp_all add: trim_space_def space_seqs_def trim_seqs.simps)

lemma non_empty_simps [simp]: "non_empty [] = None" "non_empty (c # cs) = Some (c # cs)"
  by (simp_all add: non_empty_def)

end
