(* ===== verification/Json.thy ===== *)
theory Json
  imports Prelude "HOL-Library.List_Lexorder" "HOL-Library.Char_ord"
begin

section \<open>JSON payloads\<close>

text \<open>
  Task payloads are JSON texts (\<open>json.RawMessage\<close>). The sources only hand them to
  encoding/json and to a Postgres JSONB column, so a payload is its syntax tree:
  \<open>RawEmpty\<close> is the empty or nil slice, \<open>RawBad\<close> a text the decoder rejects, \<open>RawDoc\<close> a
  valid document (object members in textual order, duplicates kept; a number is its literal).
  \<open>fold_key\<close> is the case folding of encoding/json when it looks for the struct field tagged
  \<open>instructions\<close>; \<open>jsonb\<close> is what a JSONB column keeps of a document: per object the last
  member of each key, ordered by key length, then by the key's bytes. JSONB's rewriting of
  number literals and its rejection of NUL characters are not modelled.
\<close>

datatype json =
    JNull
  | JBool bool
  | JNum string
  | JStr string
  | JArr "json list"
  | JObj "(string \<times> json) list"

datatype raw_json = RawEmpty | RawBad string | RawDoc json

subsection \<open>Decoding the instructions field\<close>

definition upper_char :: "char \<Rightarrow> char" where
  "upper_char c =
     (let n = (of_char c :: nat) in if 97 \<le> n \<and> n \<le> 122 then char_of (n - 32) else c)"

text \<open>The long s (U+017F, bytes C5 BF) is the one non-ASCII rune that folds to a letter of
  the field's name.\<close>

fun fold_key :: "string \<Rightarrow> string" where
  "fold_key [] = []"
| "fold_key [c] = [upper_char c]"
| "fold_key (c # d # r) =
     (if c = CHR 0xC5 \<and> d = CHR 0xBF then CHR ''S'' # fold_key r
      else upper_char c # fold_key (d # r))"

definition instructions_key :: "string \<Rightarrow> bool" where
  "instructions_key k \<longleftrightarrow> fold_key k = ''INSTRUCTIONS''"

text \<open>
  Decoding into \<open>struct { Instructions *string }\<close>: every member whose key matches is decoded in
  turn, so the last one wins; a null clears the pointer; any other type is remembered as an
  \<open>UnmarshalTypeError\<close> (the first flag of the state). \<open>None\<close> stands for the error.
\<close>

fun decode_ptr_members :: "(string \<times> json) list \<Rightarrow> string option \<Rightarrow> string option option" where
  "decode_ptr_members [] cur = Some cur"
| "decode_ptr_members ((k, v) # r) cur =
     (if instructions_key k then
        (case v of
           JStr s \<Rightarrow> decode_ptr_members r (Some s)
         | JNull \<Rightarrow> decode_ptr_members r None
         | _ \<Rightarrow> None)
      else decode_ptr_members r cur)"

definition decode_instructions_ptr :: "json \<Rightarrow> string option option" where
  "decode_instructions_ptr j =
     (case j of JObj ms \<Rightarrow> decode_ptr_members ms None | JNull \<Rightarrow> Some None | _ \<Rightarrow> None)"

text \<open>Decoding into \<open>struct { Instructions string }\<close>: a null leaves the value as it is.\<close>

fun decode_str_members :: "(string \<times> json) list \<Rightarrow> string \<Rightarrow> string option" where
  "decode_str_members [] cur = Some cur"
| "decode_str_members ((k, v) # r) cur =
     (if instructions_key k then
        (case v of
           JStr s \<Rightarrow> decode_str_members r s
         | JNull \<Rightarrow> decode_str_members r cur
         | _ \<Rightarrow> None)
      else decode_str_members r cur)"

definition decode_instructions_str :: "json \<Rightarrow> string option" where
  "decode_instructions_str j =
     (case j of JObj ms \<Rightarrow> decode_str_members ms [] | JNull \<Rightarrow> Some [] | _ \<Rightarrow> None)"

text \<open>Decoding into \<open>map[string]any\<close>: exact keys, the last duplicate wins.\<close>

fun member_last :: "string \<Rightarrow> (string \<times> json) list \<Rightarrow> json option" where
  "member_last k [] = None"
| "member_last k ((k', v) # r) =
     (case member_last k r of Some x \<Rightarrow> Some x | None \<Rightarrow> if k' = k then Some v else None)"

subsection \<open>What a JSONB column keeps\<close>

fun keep_last :: "(string \<times> json) list \<Rightarrow> (string \<times> json) list" where
  "keep_last [] = []"
| "keep_last ((k, v) # r) =
     (if k \<in> fst ` set r then keep_last r else (k, v) # keep_last r)"

definition key_rank :: "string \<times> json \<Rightarrow> nat \<times> string" where
  "key_rank m = (length (fst m), fst m)"

fun jsonb :: "json \<Rightarrow> json" where
  "jsonb (JArr vs) = JArr (map jsonb vs)"
| "jsonb (JObj ms) = JObj (sort_key key_rank (keep_last (map (\<lambda>(k, v). (k, jsonb v)) ms)))"
| "jsonb j = j"

lemma set_keep_last: "set (keep_last ms) \<subseteq> set ms"
  by (induction ms rule: keep_last.induct) auto

lemma keys_keep_last: "fst ` set (keep_last ms) = fst ` set ms"
  by (induction ms rule: keep_last.induct) (auto simp: image_iff)

lemma distinct_keep_last: "distinct (map fst (keep_last ms))"
proof (induction ms rule: keep_last.induct)
  case 1
  then show ?case by simp
next
  case (2 k v r)
  then show ?case using keys_keep_last [of r] by (auto simp: image_iff)
qed

lemma member_last_map:
  "member_last k (map (\<lambda>(k, v). (k, f v)) ms) = map_option f (member_last k ms)"
  by (induction ms) (auto split: option.splits)

lemma member_last_None_iff: "member_last k ms = None \<longleftrightarrow> k \<notin> fst ` set ms"
  by (induction ms) (auto split: option.splits)

lemma member_last_keep_last: "member_last k (keep_last ms) = member_last k ms"
proof (induction ms rule: keep_last.induct)
  case 1
  then show ?case by simp
next
  case (2 k' v r)
  show ?case
  proof (cases "k' \<in> fst ` set r")
    case True
    then have "member_last k' r \<noteq> None" by (simp add: member_last_None_iff)
    with True 2 show ?thesis by (auto split: option.splits)
  next
    case False
    with 2 show ?thesis by (simp split: option.splits)
  qed
qed

lemma member_last_distinct:
  assumes "distinct (map fst ms)"
  shows "member_last k ms = Some v \<longleftrightarrow> (k, v) \<in> set ms"
  using assms
proof (induction ms arbitrary: v)
  case Nil
  then show ?case by simp
next
  case (Cons m ms)
  obtain k' v' where m: "m = (k', v')" by force
  show ?case
  proof (cases "member_last k ms")
    case None
    then have "k \<notin> fst ` set ms" by (simp add: member_last_None_iff)
    with None m Cons show ?thesis by (auto simp: image_iff)
  next
    case (Some w)
    have d: "distinct (map fst ms)" and k': "k' \<notin> fst ` set ms" using Cons.prems m by simp_all
    have "(k, w) \<in> set ms" using Cons.IH [OF d, of w] Some by simp
    then have "k' \<noteq> k" using k' by force
    moreover have "(w = v) = ((k, v) \<in> set ms)" using Cons.IH [OF d, of v] Some by simp
    ultimately show ?thesis using Some m by auto
  qed
qed

lemma member_last_sort:
  assumes "distinct (map fst ms)"
  shows "member_last k (sort_key f ms) = member_last k ms"
proof -
  have "mset (map fst (sort_key f ms)) = mset (map fst ms)" by simp
  with assms have "distinct (map fst (sort_key f ms))"
    by (metis mset_eq_imp_distinct_iff)
  then have "member_last k (sort_key f ms) = Some v \<longleftrightarrow> member_last k ms = Some v" for v
    using assms by (simp add: member_last_distinct)
  then show ?thesis by (metis not_None_eq)
qed

text \<open>A JSONB column keeps what \<open>map[string]any\<close> reads of an object.\<close>

lemma member_last_jsonb:
  assumes "jsonb (JObj ms) = JObj ms'"
  shows "member_last k ms' = map_option jsonb (member_last k ms)"
  using assms
  by (auto simp: member_last_sort distinct_keep_last member_last_keep_last member_last_map)

subsection \<open>Decoding into any\<close>

text \<open>\<open>json.Unmarshal\<close> into \<open>any\<close> followed by marshalling: per object the last member of each key,
  in the order of the keys' bytes. The rounding of number literals to float64, and the rejection
  of those that overflow it, are not modelled.\<close>

fun go_any :: "json \<Rightarrow> json" where
  "go_any (JArr vs) = JArr (map go_any vs)"
| "go_any (JObj ms) = JObj (sort_key fst (keep_last (map (\<lambda>(k, v). (k, go_any v)) ms)))"
| "go_any j = j"

definition string_member :: "string \<Rightarrow> json \<Rightarrow> string option" where
  "string_member k j =
     (case j of
        JObj ms \<Rightarrow> (case member_last k ms of Some (JStr s) \<Rightarrow> Some s | _ \<Rightarrow> None)
      | _ \<Rightarrow> None)"

lemma norm_JStr_iff [simp]:
  "go_any j = JStr s \<longleftrightarrow> j = JStr s" "jsonb j = JStr s \<longleftrightarrow> j = JStr s"
  by (cases j; simp)+

lemma member_last_go_any:
  "member_last k (sort_key fst (keep_last (map (\<lambda>(k, v). (k, go_any v)) ms))) =
     map_option go_any (member_last k ms)"
  by (simp add: member_last_sort distinct_keep_last member_last_keep_last member_last_map)

lemma string_member_iff: "string_member k (JObj ms) = Some s \<longleftrightarrow> member_last k ms = Some (JStr s)"
  by (auto simp: string_member_def split: option.splits json.splits)

lemma string_member_norm:
  "string_member k (go_any (JObj ms)) = Some s \<longleftrightarrow> string_member k (JObj ms) = Some s"
  "string_member k (jsonb (JObj ms)) = Some s \<longleftrightarrow> string_member k (JObj ms) = Some s"
  by (auto simp: string_member_iff member_last_go_any member_last_sort distinct_keep_last
      member_last_keep_last member_last_map)

definition exact_key :: "(string \<times> json) list \<Rightarrow> bool" where
  "exact_key ms \<longleftrightarrow> list_all (\<lambda>(k, v). instructions_key k \<longrightarrow> k = ''instructions'') ms"

lemma instructions_key_exact [simp]: "instructions_key ''instructions''"
  by code_simp

lemma decode_exact:
  assumes "exact_key ms" and "decode_ptr_members ms cur = Some (Some s)"
  shows "member_last ''instructions'' ms = Some (JStr s) \<or>
    member_last ''instructions'' ms = None \<and> cur = Some s"
  using assms
proof (induction ms arbitrary: cur)
  case Nil
  then show ?case by simp
next
  case (Cons m ms)
  obtain k v where m: "m = (k, v)" by force
  show ?case
  proof (cases "k = ''instructions''")
    case True
    with Cons.prems m obtain cur' where cur': "decode_ptr_members ms cur' = Some (Some s)"
      "v = JNull \<and> cur' = None \<or> (\<exists>x. v = JStr x \<and> cur' = Some x)"
      by (auto split: json.splits)
    moreover have "exact_key ms" using Cons.prems(1) by (simp add: exact_key_def)
    ultimately have "member_last ''instructions'' ms = Some (JStr s) \<or>
        member_last ''instructions'' ms = None \<and> cur' = Some s"
      using Cons.IH by blast
    with cur'(2) True m show ?thesis by auto
  next
    case False
    with Cons.prems m have "\<not> instructions_key k" by (auto simp: exact_key_def)
    with Cons m False show ?thesis by (auto simp: exact_key_def split: option.splits)
  qed
qed

subsection \<open>Normal forms of JSON objects\<close>

lemma keep_last_map: "keep_last (map (\<lambda>(k, v). (k, f v)) ms) = map (\<lambda>(k, v). (k, f v)) (keep_last ms)"
  by (induction ms rule: keep_last.induct) (auto simp: image_iff split_beta)

lemma keep_last_distinct: "distinct (map fst ms) \<Longrightarrow> keep_last ms = ms"
  by (induction ms rule: keep_last.induct) auto

lemma sort_key_perm:
  assumes "mset xs = mset ys" and "inj_on f (set xs)"
  shows "sort_key f xs = sort_key f ys"
  by (rule sort_key_inj_key_eq [OF _ assms(2)]) (simp_all add: assms(1))

lemma inj_on_keys:
  assumes "distinct (map fst (ms :: (string \<times> json) list))"
  shows "inj_on fst (set ms)" "inj_on key_rank (set ms)"
  using assms by (auto simp: distinct_map inj_on_def key_rank_def)

lemma jsonb_obj: "jsonb (JObj ms) = JObj (sort_key key_rank (map (\<lambda>(k, v). (k, jsonb v)) (keep_last ms)))"
  by (simp add: keep_last_map)

lemma map_values_fst: "map fst (map (\<lambda>(k, v). (k, f v)) ms) = map fst ms"
  by (simp add: case_prod_beta)

text \<open>JSONB normalisation forgets an earlier normalisation, by Go or by JSONB itself.\<close>

lemma jsonb_after:
  assumes "mset A = mset (map (\<lambda>(k, v). (k, g v)) (keep_last ms))"
    and "\<And>k v. (k, v) \<in> set ms \<Longrightarrow> jsonb (g v) = jsonb v"
  shows "jsonb (JObj A) = jsonb (JObj ms)"
proof -
  have same: "mset (map (\<lambda>(k, v). (k, jsonb v)) A) = mset (map (\<lambda>(k, v). (k, jsonb v)) (keep_last ms))"
  proof -
    have "image_mset (\<lambda>(k, v). (k, jsonb v)) (mset A) =
        mset (map (\<lambda>(k, v). (k, jsonb v)) (map (\<lambda>(k, v). (k, g v)) (keep_last ms)))"
      by (simp only: assms(1) mset_map)
    also have "map (\<lambda>(k, v). (k, jsonb v)) (map (\<lambda>(k, v). (k, g v)) (keep_last ms)) =
        map (\<lambda>(k, v). (k, jsonb v)) (keep_last ms)"
      using assms(2) set_keep_last [of ms] by auto
    finally show ?thesis by simp
  qed
  have "distinct (map fst (map (\<lambda>(k, v). (k, g v)) (keep_last ms)))"
    unfolding map_values_fst by (rule distinct_keep_last)
  then have "distinct (map fst A)"
    using assms(1) by (metis mset_eq_imp_distinct_iff mset_map)
  then have A: "keep_last A = A" "inj_on key_rank (set (map (\<lambda>(k, v). (k, jsonb v)) A))"
    by (simp add: keep_last_distinct, intro inj_on_keys(2)) (simp only: map_values_fst)
  show ?thesis
    unfolding jsonb_obj A(1) using sort_key_perm [OF same A(2)] by simp
qed

lemma jsonb_go_any: "jsonb (go_any j) = jsonb j"
proof (induction j rule: go_any.induct)
  case (2 ms)
  then have "\<And>k v. (k, v) \<in> set ms \<Longrightarrow> jsonb (go_any v) = jsonb v" by blast
  then show ?case
    unfolding go_any.simps keep_last_map by (intro jsonb_after) simp
qed simp_all

lemma jsonb_jsonb: "jsonb (jsonb j) = jsonb j"
proof (induction j rule: jsonb.induct)
  case (2 ms)
  then have "\<And>k v. (k, v) \<in> set ms \<Longrightarrow> jsonb (jsonb v) = jsonb v" by blast
  then have "jsonb (JObj (sort_key key_rank (map (\<lambda>(k, v). (k, jsonb v)) (keep_last ms)))) = jsonb (JObj ms)"
    by (intro jsonb_after) simp
  then show ?case unfolding jsonb_obj [of ms] .
qed simp_all

lemma go_any_obj:
  obtains ms' where "go_any (JObj ms) = JObj ms'" and "distinct (map fst ms')" and "sorted (map fst ms')"
proof
  show "go_any (JObj ms) = JObj (sort_key fst (keep_last (map (\<lambda>(k, v). (k, go_any v)) ms)))" by simp
  have "mset (map fst (sort_key fst (keep_last (map (\<lambda>(k, v). (k, go_any v)) ms)))) =
      mset (map fst (keep_last (map (\<lambda>(k, v). (k, go_any v)) ms)))" by simp
  then show "distinct (map fst (sort_key fst (keep_last (map (\<lambda>(k, v). (k, go_any v)) ms))))"
    by (metis distinct_keep_last mset_eq_imp_distinct_iff)
qed (rule sorted_sort_key)

lemma decode_str_distinct:
  assumes "distinct (map fst ms)" and "exact_key ms"
  shows "decode_str_members ms cur =
    (case member_last ''instructions'' ms of
       None \<Rightarrow> Some cur | Some (JStr s) \<Rightarrow> Some s | Some JNull \<Rightarrow> Some cur | _ \<Rightarrow> None)"
  using assms
proof (induction ms arbitrary: cur)
  case (Cons m ms)
  obtain k v where m: "m = (k, v)" by force
  have rest: "distinct (map fst ms)" "exact_key ms" using Cons.prems by (simp_all add: exact_key_def)
  show ?case
  proof (cases "k = ''instructions''")
    case True
    with Cons.prems(1) m have "member_last ''instructions'' ms = None"
      by (simp add: member_last_None_iff)
    with Cons.IH [OF rest] True m show ?thesis by (auto split: json.split)
  next
    case False
    with Cons.prems(2) m have "\<not> instructions_key k" by (auto simp: exact_key_def)
    with Cons.IH [OF rest] False m show ?thesis by (auto split: option.split)
  qed
qed simp

subsection \<open>Setting a member\<close>

text \<open>\<open>obj["instructions"] = s\<close> on the decoded map, and its marshalling.\<close>

definition set_member :: "string \<Rightarrow> json \<Rightarrow> (string \<times> json) list \<Rightarrow> (string \<times> json) list" where
  "set_member k v ms = sort_key fst ((k, v) # filter (\<lambda>(k', _). k' \<noteq> k) ms)"

end
