(* ===== verification/Tasks.thy ===== *)
theory Tasks
  imports Prelude Json "HOL-Library.Word"
begin

section \<open>The store's data model\<close>

text \<open>
  The tables of internal/mastermind/store (migrations/*.up.sql) as records: \<open>task\<close> is a row of
  \<open>tasks\<close> (the Go struct Task), \<open>task_log\<close> a row of \<open>task_logs\<close>, \<open>db\<close> the two tables and the
  BIGSERIAL sequence. Times are microseconds, the precision of TIMESTAMPTZ.

  \<open>env\<close> is what a store method gets from outside the repository: the transaction's \<open>now()\<close>, the
  value of \<open>gen_random_uuid()\<close>, for the k-th statement of the method the connection error it
  ends with (\<open>fault\<close>) or the error that cuts its row stream after n rows (\<open>row_fault\<close>), and the
  rows other open transactions have locked (\<open>locked_rows\<close>, for FOR UPDATE SKIP LOCKED).
  A store method is a function of the environment, its arguments and the database; it returns
  a store error or its value, and the new database.

  \<open>row_op\<close> is the contract all the single-row UPDATE methods share: one guarded statement on
  the row with the given id. The component theories interpret it on the store's methods.
\<close>

subsection \<open>Status\<close>

datatype task_status =
  Pending | Claimed | InProgress | PROpened | ReviewRequested | Completed | Failed

fun status_string :: "task_status \<Rightarrow> string" where
  "status_string Pending = ''pending''"
| "status_string Claimed = ''claimed''"
| "status_string InProgress = ''in_progress''"
| "status_string PROpened = ''pr_opened''"
| "status_string ReviewRequested = ''review_requested''"
| "status_string Completed = ''completed''"
| "status_string Failed = ''failed''"

text \<open>The order of the labels of the enum type \<open>task_status\<close> (migrations 1 and 5).\<close>

fun status_index :: "task_status \<Rightarrow> nat" where
  "status_index Pending = 0"
| "status_index Claimed = 1"
| "status_index InProgress = 2"
| "status_index PROpened = 3"
| "status_index ReviewRequested = 4"
| "status_index Completed = 5"
| "status_index Failed = 6"

lemma status_index_inject [simp]: "status_index a = status_index b \<longleftrightarrow> a = b"
  by (cases a; cases b) simp_all

instantiation task_status :: linorder
begin

definition less_eq_task_status :: "task_status \<Rightarrow> task_status \<Rightarrow> bool" where
  "a \<le> b \<longleftrightarrow> status_index a \<le> status_index b"

definition less_task_status :: "task_status \<Rightarrow> task_status \<Rightarrow> bool" where
  "a < b \<longleftrightarrow> status_index a < status_index b"

instance
  by standard (auto simp: less_eq_task_status_def less_task_status_def)

end

definition all_statuses :: "task_status list" where
  "all_statuses =
     [Pending, Claimed, InProgress, PROpened, ReviewRequested, Completed, Failed]"

lemma set_all_statuses [simp]: "s \<in> set all_statuses"
  by (cases s) (simp_all add: all_statuses_def)

lemma sorted_all_statuses: "sorted all_statuses"
  by (simp add: all_statuses_def less_eq_task_status_def)

text \<open>The cast of a text to \<open>task_status\<close>; an unknown label is an error.\<close>

definition parse_status :: "string \<Rightarrow> task_status option" where
  "parse_status s = find (\<lambda>st. status_string st = s) all_statuses"

lemma status_string_inject [simp]: "status_string a = status_string b \<longleftrightarrow> a = b"
  by (cases a; cases b) simp_all

lemma parse_status_string [simp]: "parse_status (status_string st) = Some st"
  by (cases st) (simp_all add: parse_status_def all_statuses_def)

lemma parse_status_SomeD: "parse_status s = Some st \<Longrightarrow> s = status_string st"
  by (auto simp: parse_status_def find_Some_iff)

subsection \<open>Rows and database\<close>

type_synonym uuid = "128 word"
type_synonym time = int

record task =
  t_id :: uuid
  t_name :: string
  t_payload :: json
  t_priority :: int
  t_status :: task_status
  t_scheduled_for :: "time option"
  t_attempt_count :: int
  t_max_attempts :: int
  t_claimed_by :: "string option"
  t_claimed_at :: "time option"
  t_last_heartbeat_at :: "time option"
  t_completed_at :: "time option"
  t_last_error :: "string option"
  t_progress_note :: "string option"
  t_jira_url :: "string option"
  t_github_pr_url :: "string option"
  t_created_at :: time
  t_updated_at :: time

record task_log =
  l_id :: int
  l_task_id :: uuid
  l_message :: string
  l_created_at :: time

record db =
  tasks :: "task list"
  task_logs :: "task_log list"
  log_seq :: int

record env =
  now_at :: time
  fresh_id :: uuid
  fault :: "nat \<Rightarrow> string option"
  row_fault :: "nat \<Rightarrow> (nat \<times> string) option"
  locked_rows :: "uuid list"

definition empty_db :: db where
  "empty_db = \<lparr>tasks = [], task_logs = [], log_seq = 1\<rparr>"

text \<open>An environment without connection errors and without concurrent transactions.\<close>

definition calm :: "time \<Rightarrow> uuid \<Rightarrow> env" where
  "calm now i = \<lparr>now_at = now, fresh_id = i, fault = (\<lambda>_. None), row_fault = (\<lambda>_. None),
     locked_rows = []\<rparr>"

lemma calm_simps [simp]:
  "now_at (calm now i) = now" "fresh_id (calm now i) = i" "fault (calm now i) k = None"
  "row_fault (calm now i) k = None" "locked_rows (calm now i) = []"
  by (simp_all add: calm_def)

datatype invalid_input = NoInstructions | PayloadNotJson

datatype store_error =
    ErrNotFound
  | ErrInvalidInput invalid_input
  | ErrNotEditable
  | ErrNotDeletable
  | ErrNotRequeueable
  | ErrNotOwner
  | ErrInvalidTransition
  | ErrEmptyPRURL
  | ErrAgentNotFound
  | DbError string

abbreviation find_task :: "uuid \<Rightarrow> db \<Rightarrow> task option" where
  "find_task i d \<equiv> find_key t_id i (tasks d)"

abbreviation ids :: "db \<Rightarrow> uuid list" where
  "ids d \<equiv> map t_id (tasks d)"

subsection \<open>Statements\<close>

definition int4_out_of_range :: string where
  "int4_out_of_range = ''integer out of range''"

text \<open>
  UPDATE tasks SET f WHERE p RETURNING ..: fails as a whole with a connection error or when an
  INTEGER expression of a matching row overflows (\<open>in_range\<close>), else returns the changed rows.
\<close>

definition exec_update ::
  "env \<Rightarrow> nat \<Rightarrow> (task \<Rightarrow> bool) \<Rightarrow> (task \<Rightarrow> bool) \<Rightarrow> (task \<Rightarrow> task) \<Rightarrow> db
     \<Rightarrow> (store_error + task list) \<times> db" where
  "exec_update en k in_range p f d =
     (case fault en k of
        Some e \<Rightarrow> (Inl (DbError e), d)
      | None \<Rightarrow>
          if list_all in_range (filter p (tasks d))
          then (Inr (sql_returning p f (tasks d)), d\<lparr>tasks := sql_update p f (tasks d)\<rparr>)
          else (Inl (DbError int4_out_of_range), d))"

text \<open>Reading the rows of a SELECT: the rows read and the error that ended the stream early.\<close>

definition fetch :: "env \<Rightarrow> nat \<Rightarrow> 'r list \<Rightarrow> 'r list \<times> string option" where
  "fetch en k rows =
     (case row_fault en k of None \<Rightarrow> (rows, None) | Some (n, e) \<Rightarrow> (take n rows, Some e))"

lemma fetch_calm [simp]: "row_fault en k = None \<Longrightarrow> fetch en k rows = (rows, None)"
  by (simp add: fetch_def)

text \<open>\<open>GetTask\<close>: the statement is the k-th of the calling method.\<close>

definition get_task :: "env \<Rightarrow> nat \<Rightarrow> uuid \<Rightarrow> db \<Rightarrow> store_error + task" where
  "get_task en k i d =
     (case fault en k of
        Some e \<Rightarrow> Inl (DbError e)
      | None \<Rightarrow> (case find_task i d of None \<Rightarrow> Inl ErrNotFound | Some t \<Rightarrow> Inr t))"

lemma get_task_simps [simp]:
  "fault en k = None \<Longrightarrow>
     get_task en k i d = (case find_task i d of None \<Rightarrow> Inl ErrNotFound | Some t \<Rightarrow> Inr t)"
  by (simp add: get_task_def)

lemma get_task_InrD: "get_task en k i d = Inr t \<Longrightarrow> find_task i d = Some t"
  by (simp add: get_task_def split: option.splits)

subsection \<open>Well-formed rows and databases\<close>

definition active_status :: "task_status \<Rightarrow> bool" where
  "active_status s \<longleftrightarrow> s \<in> {Claimed, InProgress}"

definition parked_status :: "task_status \<Rightarrow> bool" where
  "parked_status s \<longleftrightarrow> s \<in> {PROpened, ReviewRequested}"

text \<open>\<open>status IN ('pending','completed','failed')\<close>\<close>

definition idle_status :: "task_status \<Rightarrow> bool" where
  "idle_status s \<longleftrightarrow> s \<in> {Pending, Completed, Failed}"

definition terminal_status :: "task_status \<Rightarrow> bool" where
  "terminal_status s \<longleftrightarrow> s \<in> {Completed, Failed}"

lemmas status_class_defs =
  active_status_def parked_status_def terminal_status_def idle_status_def

text \<open>
  What a row's columns say together: an active row carries a complete lease, a pending or
  parked row none, exactly the completed rows have a completion time, and a row that left
  \<open>pending\<close> was claimed at least once.
\<close>

definition leased :: "task \<Rightarrow> bool" where
  "leased t \<longleftrightarrow> t_claimed_by t \<noteq> None \<and> t_claimed_at t \<noteq> None \<and> t_last_heartbeat_at t \<noteq> None"

definition unleased :: "task \<Rightarrow> bool" where
  "unleased t \<longleftrightarrow> t_claimed_by t = None \<and> t_claimed_at t = None \<and> t_last_heartbeat_at t = None"

definition task_wf :: "task \<Rightarrow> bool" where
  "task_wf t \<longleftrightarrow>
     (active_status (t_status t) \<longrightarrow> leased t) \<and>
     (t_status t = Pending \<or> parked_status (t_status t) \<longrightarrow> unleased t) \<and>
     (t_completed_at t \<noteq> None \<longleftrightarrow> t_status t = Completed) \<and>
     0 \<le> t_attempt_count t \<and>
     (t_status t \<noteq> Pending \<longrightarrow> 1 \<le> t_attempt_count t) \<and>
     int4 (t_attempt_count t) \<and> int4 (t_max_attempts t) \<and> int4 (t_priority t)"

lemmas task_wf_defs = task_wf_def leased_def unleased_def status_class_defs

text \<open>The log refers to existing tasks and its ids grow, below the sequence's next value.\<close>

definition logs_wf :: "db \<Rightarrow> bool" where
  "logs_wf d \<longleftrightarrow>
     (\<forall>l \<in> set (task_logs d). l_task_id l \<in> set (ids d) \<and> l_id l < log_seq d) \<and>
     sorted_wrt (<) (map l_id (task_logs d))"

definition db_wf :: "db \<Rightarrow> bool" where
  "db_wf d \<longleftrightarrow> distinct (ids d) \<and> (\<forall>t \<in> set (tasks d). task_wf t) \<and> logs_wf d"

lemma db_wf_empty: "db_wf empty_db"
  by (simp add: db_wf_def logs_wf_def empty_db_def)

lemma db_wf_distinct: "db_wf d \<Longrightarrow> distinct (ids d)"
  by (simp add: db_wf_def)

lemma db_wf_task: "db_wf d \<Longrightarrow> find_task i d = Some t \<Longrightarrow> task_wf t"
  by (auto simp: db_wf_def dest: find_key_SomeD)

text \<open>An UPDATE that keeps ids and row well-formedness keeps the database well-formed.\<close>

lemma db_wf_update:
  assumes "db_wf d"
    and "\<And>t. p t \<Longrightarrow> t_id (f t) = t_id t"
    and "\<And>t. t \<in> set (tasks d) \<Longrightarrow> p t \<Longrightarrow> task_wf t \<Longrightarrow> task_wf (f t)"
  shows "db_wf (d\<lparr>tasks := sql_update p f (tasks d)\<rparr>)"
proof -
  have ids: "map t_id (sql_update p f (tasks d)) = ids d"
    using assms(2) by (rule map_sql_update)
  have "\<forall>t \<in> set (sql_update p f (tasks d)). task_wf t"
    using assms(1,3) by (auto simp: set_sql_update db_wf_def)
  with assms(1) ids show ?thesis by (simp add: db_wf_def logs_wf_def del: set_map)
qed

text \<open>A small well-formed database, with one task in every status, on which the properties'
  hypotheses are shown to hold.\<close>

definition sample_task :: "uuid \<Rightarrow> task_status \<Rightarrow> task" where
  "sample_task i s =
     \<lparr>t_id = i, t_name = ''task'', t_payload = JObj [(''instructions'', JStr ''do it'')],
      t_priority = 0, t_status = s, t_scheduled_for = None,
      t_attempt_count = (if s = Pending then 0 else 1), t_max_attempts = 3,
      t_claimed_by = (if active_status s then Some ''w'' else None),
      t_claimed_at = (if active_status s then Some 0 else None),
      t_last_heartbeat_at = (if active_status s then Some 0 else None),
      t_completed_at = (if s = Completed then Some 0 else None),
      t_last_error = None, t_progress_note = None, t_jira_url = None, t_github_pr_url = None,
      t_created_at = 0, t_updated_at = 0\<rparr>"

definition sample_db :: db where
  "sample_db = \<lparr>tasks =
     [sample_task 1 Pending, sample_task 2 Claimed, sample_task 3 InProgress,
      sample_task 4 PROpened, sample_task 5 ReviewRequested, sample_task 6 Completed,
      sample_task 7 Failed], task_logs = [], log_seq = 1\<rparr>"

lemmas sample_defs = sample_db_def sample_task_def

lemma sample_db_wf: "db_wf sample_db"
  by (simp add: sample_defs db_wf_def logs_wf_def task_wf_defs int4_def)

lemma sample_attempts: "\<forall>t \<in> set (tasks sample_db). t_attempt_count t \<le> 1"
  by (simp add: sample_defs)

lemma sample_attempts_bounds:
  "\<forall>t \<in> set (tasks sample_db). t_attempt_count t < 2 ^ 31 - 1"
  "\<forall>t \<in> set (tasks sample_db). t_attempt_count t * 30 < 2 ^ 31"
  using sample_attempts by force+

lemma sample_find:
  "find_task 1 sample_db = Some (sample_task 1 Pending)"
  "find_task 2 sample_db = Some (sample_task 2 Claimed)"
  "find_task 3 sample_db = Some (sample_task 3 InProgress)"
  "find_task 4 sample_db = Some (sample_task 4 PROpened)"
  "find_task 5 sample_db = Some (sample_task 5 ReviewRequested)"
  "find_task 6 sample_db = Some (sample_task 6 Completed)"
  "find_task 7 sample_db = Some (sample_task 7 Failed)"
  "find_task 9 sample_db = None"
  by (simp_all add: sample_db_def) (simp_all add: sample_task_def)

subsection \<open>The life cycle of a task\<close>

text \<open>
  The abstract state machine of docs/superpowers/specs/2026-04-27-worker-real-tasks-design.md
  as the code implements it: the status changes one store call may make to an existing row.
\<close>

inductive lifecycle :: "task_status \<Rightarrow> task_status \<Rightarrow> bool" where
  claim: "lifecycle Pending Claimed"
| start: "lifecycle Claimed InProgress"
| succeed: "active_status s \<Longrightarrow> lifecycle s Completed"
| exhaust: "active_status s \<Longrightarrow> lifecycle s Failed"
| retry: "active_status s \<Longrightarrow> lifecycle s Pending"
| park: "lifecycle InProgress PROpened"
| review: "lifecycle PROpened ReviewRequested"
| finalize: "parked_status s \<Longrightarrow> terminal_status s' \<Longrightarrow> lifecycle s s'"
| requeue: "terminal_status s \<Longrightarrow> lifecycle s Pending"

inductive_cases lifecycle_from_PendingE: "lifecycle Pending s"
inductive_cases lifecycle_from_PROpenedE: "lifecycle PROpened s"
inductive_cases lifecycle_to_ClaimedE: "lifecycle s Claimed"
inductive_cases lifecycle_to_InProgressE: "lifecycle s InProgress"

code_pred (modes: i \<Rightarrow> i \<Rightarrow> bool) lifecycle .

definition lifecycle_eq :: "task_status \<Rightarrow> task_status \<Rightarrow> bool" where
  "lifecycle_eq s s' \<longleftrightarrow> s = s' \<or> lifecycle s s'"

lemma lifecycle_eq_refl [simp]: "lifecycle_eq s s"
  by (simp add: lifecycle_eq_def)

lemma lifecycle_table:
  "lifecycle Pending s \<longleftrightarrow> s = Claimed"
  "lifecycle Claimed s \<longleftrightarrow> s \<in> {InProgress, Completed, Failed, Pending}"
  "lifecycle InProgress s \<longleftrightarrow> s \<in> {PROpened, Completed, Failed, Pending}"
  "lifecycle PROpened s \<longleftrightarrow> s \<in> {ReviewRequested, Completed, Failed}"
  "lifecycle ReviewRequested s \<longleftrightarrow> s \<in> {Completed, Failed}"
  "lifecycle Completed s \<longleftrightarrow> s = Pending"
  "lifecycle Failed s \<longleftrightarrow> s = Pending"
  by (auto simp: lifecycle.simps status_class_defs)

text \<open>
  What a store call may do to one existing row: its identity and creation time stay, its
  status moves along the life cycle, and its attempt count changes only by a claim (one more)
  or by a requeue (back to zero).
\<close>

definition row_step :: "task \<Rightarrow> task \<Rightarrow> bool" where
  "row_step t t' \<longleftrightarrow>
     t_id t' = t_id t \<and> t_created_at t' = t_created_at t \<and>
     lifecycle_eq (t_status t) (t_status t') \<and>
     (t_attempt_count t' = t_attempt_count t \<and> \<not> (t_status t = Pending \<and> t_status t' = Claimed) \<or>
      t_status t = Pending \<and> t_status t' = Claimed \<and> t_attempt_count t' = t_attempt_count t + 1 \<or>
      idle_status (t_status t) \<and> t_status t' = Pending \<and> t_attempt_count t' = 0)"

lemma row_step_refl [simp]: "row_step t t"
  by (simp add: row_step_def)

lemma row_step_id: "row_step t t' \<Longrightarrow> t_id t' = t_id t"
  by (simp add: row_step_def)

lemma row_step_edge: "row_step t t' \<Longrightarrow> lifecycle_eq (t_status t) (t_status t')"
  by (simp add: row_step_def)

subsection \<open>The contract of a guarded single-row UPDATE\<close>

text \<open>
  \<open>op a i\<close> is a store method with arguments \<open>a\<close> on the task \<open>i\<close>. \<open>runs\<close> says that its
  statement is executed without an error of the database; then the rows with id \<open>i\<close> that pass
  \<open>guard\<close> are replaced by \<open>eff\<close>, and the method succeeds exactly when there is such a row.
\<close>

locale row_op =
  fixes op :: "'a \<Rightarrow> env \<Rightarrow> uuid \<Rightarrow> db \<Rightarrow> (store_error + 'r) \<times> db"
    and guard :: "'a \<Rightarrow> task \<Rightarrow> bool"
    and eff :: "'a \<Rightarrow> time \<Rightarrow> task \<Rightarrow> task"
    and runs :: "'a \<Rightarrow> env \<Rightarrow> uuid \<Rightarrow> db \<Rightarrow> bool"
  assumes op_state: "snd (op a en i d) =
      (if runs a en i d
       then d\<lparr>tasks := sql_update (\<lambda>t. t_id t = i \<and> guard a t) (eff a (now_at en)) (tasks d)\<rparr>
       else d)"
    and op_ok: "(\<exists>r. fst (op a en i d) = Inr r) \<longleftrightarrow>
      runs a en i d \<and> (\<exists>t \<in> set (tasks d). t_id t = i \<and> guard a t)"
    and eff_wf: "runs a en i d \<Longrightarrow> t \<in> set (tasks d) \<Longrightarrow> t_id t = i \<Longrightarrow> guard a t
      \<Longrightarrow> task_wf t \<Longrightarrow> task_wf (eff a (now_at en) t)"
    and eff_step: "guard a t \<Longrightarrow> row_step t (eff a n t)"
begin

lemma eff_id: "guard a t \<Longrightarrow> t_id (eff a n t) = t_id t"
  by (rule row_step_id) (rule eff_step)

lemma keeps_ids: "ids (snd (op a en i d)) = ids d"
  by (auto simp: op_state intro!: map_sql_update eff_id)

lemma keeps_logs: "task_logs (snd (op a en i d)) = task_logs d"
  by (simp add: op_state)

lemma keeps_db_wf: "db_wf d \<Longrightarrow> db_wf (snd (op a en i d))"
  by (auto simp: op_state eff_id intro!: db_wf_update dest: eff_wf)

lemma failed_unchanged:
  assumes "fst (op a en i d) = Inl e"
  shows "snd (op a en i d) = d"
proof (cases "runs a en i d")
  case True
  with assms op_ok [of a en i d] have "\<forall>t \<in> set (tasks d). \<not> (t_id t = i \<and> guard a t)" by auto
  then have "sql_update (\<lambda>t. t_id t = i \<and> guard a t) (eff a (now_at en)) (tasks d) = tasks d"
    by (intro sql_update_none) auto
  with True show ?thesis by (simp add: op_state)
next
  case False
  then show ?thesis by (simp add: op_state)
qed

lemma find_updated:
  "find_key t_id j (sql_update (\<lambda>t. t_id t = i \<and> guard a t) (eff a n) rows) =
     map_option (\<lambda>t. if t_id t = i \<and> guard a t then eff a n t else t) (find_key t_id j rows)"
  by (rule find_key_sql_update) (simp add: eff_id)

lemma find_after:
  "find_task j (snd (op a en i d)) =
     map_option (\<lambda>t. if runs a en i d \<and> j = i \<and> guard a t then eff a (now_at en) t else t)
       (find_task j d)"
  by (auto simp: op_state find_updated option.map_ident
      intro!: option.map_cong dest: find_key_SomeD)

lemma other_rows_kept: "j \<noteq> i \<Longrightarrow> find_task j (snd (op a en i d)) = find_task j d"
  by (simp add: find_after option.map_ident)

lemma succeeds_iff:
  assumes "distinct (ids d)" and "runs a en i d"
  shows "(\<exists>r. fst (op a en i d) = Inr r) \<longleftrightarrow> (\<exists>t. find_task i d = Some t \<and> guard a t)"
  using assms find_key_distinct [of t_id "tasks d"]
  by (auto simp: op_ok dest: find_key_SomeD)

lemma success_find:
  assumes "distinct (ids d)" and "fst (op a en i d) = Inr r"
  shows "\<exists>t. find_task i d = Some t \<and> guard a t \<and>
    find_task i (snd (op a en i d)) = Some (eff a (now_at en) t)"
proof -
  from assms(2) have r: "runs a en i d" using op_ok [of a en i d] by auto
  with assms succeeds_iff obtain t where "find_task i d = Some t" "guard a t" by blast
  with r show ?thesis by (simp add: find_after)
qed

lemma rows_rel:
  assumes "\<And>t. guard a t \<Longrightarrow> Q t (eff a (now_at en) t)" and "\<And>t. Q t t"
  shows "rel_option Q (find_task j d) (find_task j (snd (op a en i d)))"
  using assms by (cases "find_task j d") (simp_all add: find_after)

lemma row_steps:
  "rel_option row_step (find_task j d) (find_task j (snd (op a en i d)))"
  by (rule rows_rel) (simp_all add: eff_step)

lemma rows_all:
  assumes "\<And>t. t \<in> set (tasks d) \<Longrightarrow> t_id t = i \<Longrightarrow> guard a t \<Longrightarrow> P t \<Longrightarrow> P (eff a (now_at en) t)"
    and "\<forall>t \<in> set (tasks d). P t"
  shows "\<forall>t \<in> set (tasks (snd (op a en i d))). P t"
  using assms by (auto simp: op_state set_sql_update)

end

end
