(* ===== verification/Leases.thy ===== *)
theory Leases
  imports Tasks
begin

section \<open>Worker-facing store methods\<close>

text \<open>
  transitions.go, lifecycle.go (Heartbeat, UpdateProgress, ReportResult), jira.go, open_pr.go
  and AppendTaskLog of logs.go. Each \<open>*_row\<close> function is one SET list, each method one
  definition. \<open>lease_op\<close> is the contract of the methods a claim holder calls; it is
  interpreted on Heartbeat, UpdateProgress, SetJiraURL, OpenPR and both halves of ReportResult.
  AppendTaskLog is a transaction of several statements: \<open>append_check\<close> is its ownership query,
  \<open>append_commit\<close> the insertion, the lease refresh and the commit.
\<close>

subsection \<open>The transition table\<close>

datatype role = RoleWorker | RoleAdmin

definition allowed_from :: "role \<Rightarrow> string \<Rightarrow> task_status list option" where
  "allowed_from r action =
     map_of
       [((RoleWorker, ''open_pr''), [InProgress]),
        ((RoleWorker, ''set_jira_url''), [Claimed, InProgress]),
        ((RoleWorker, ''complete''), [InProgress]),
        ((RoleWorker, ''fail''), [InProgress]),
        ((RoleAdmin, ''request_review''), [PROpened]),
        ((RoleAdmin, ''finalize''), [PROpened, ReviewRequested]),
        ((RoleAdmin, ''retry''), [Pending, Completed, Failed])] (r, action)"

definition allowed_from_strings :: "role \<Rightarrow> string \<Rightarrow> string list" where
  "allowed_from_strings r action =
     (case allowed_from r action of None \<Rightarrow> [] | Some states \<Rightarrow> map status_string states)"

text \<open>\<open>status = ANY($n::task_status[])\<close>; a nil slice is a NULL array and matches nothing.\<close>

definition status_any :: "string list \<Rightarrow> task \<Rightarrow> bool" where
  "status_any states t \<longleftrightarrow> status_string (t_status t) \<in> set states"

lemma status_any_allowed:
  "status_any (allowed_from_strings RoleWorker ''open_pr'') t \<longleftrightarrow> t_status t = InProgress"
  "status_any (allowed_from_strings RoleWorker ''set_jira_url'') t \<longleftrightarrow>
     active_status (t_status t)"
  "status_any (allowed_from_strings RoleAdmin ''request_review'') t \<longleftrightarrow> t_status t = PROpened"
  "status_any (allowed_from_strings RoleAdmin ''finalize'') t \<longleftrightarrow> parked_status (t_status t)"
  by (cases "t_status t";
      simp add: status_any_def allowed_from_strings_def allowed_from_def status_class_defs)+

subsection \<open>Owner-checked updates\<close>

text \<open>\<open>WHERE id = $1 AND claimed_by = $2 AND status IN ('claimed','in_progress')\<close>\<close>

definition holds_claim :: "string \<Rightarrow> task \<Rightarrow> bool" where
  "holds_claim w t \<longleftrightarrow> t_claimed_by t = Some w \<and> active_status (t_status t)"

text \<open>Exec, then \<open>RowsAffected() == 0\<close> is ErrNotOwner.\<close>

definition owner_update ::
  "env \<Rightarrow> uuid \<Rightarrow> (task \<Rightarrow> bool) \<Rightarrow> (task \<Rightarrow> task) \<Rightarrow> db \<Rightarrow> (store_error + unit) \<times> db" where
  "owner_update en i p f d =
     (case exec_update en 0 (\<lambda>_. True) (\<lambda>t. t_id t = i \<and> p t) f d of
        (Inl e, d') \<Rightarrow> (Inl e, d')
      | (Inr rows, d') \<Rightarrow> (if rows = [] then (Inl ErrNotOwner, d') else (Inr (), d')))"

lemma owner_update_eq:
  "owner_update en i p f d =
     (case fault en 0 of
        Some e \<Rightarrow> (Inl (DbError e), d)
      | None \<Rightarrow>
          (if \<exists>t \<in> set (tasks d). t_id t = i \<and> p t then Inr () else Inl ErrNotOwner,
           d\<lparr>tasks := sql_update (\<lambda>t. t_id t = i \<and> p t) f (tasks d)\<rparr>))"
  by (auto simp: owner_update_def exec_update_def list_all_iff sql_returning_empty_iff
      split: option.splits)

definition heartbeat_row :: "time \<Rightarrow> task \<Rightarrow> task" where
  [row_defs]: "heartbeat_row n t = t\<lparr>
     t_last_heartbeat_at := Some n,
     t_status := (if t_status t = Claimed then InProgress else t_status t),
     t_updated_at := n\<rparr>"

definition heartbeat :: "env \<Rightarrow> string \<Rightarrow> uuid \<Rightarrow> db \<Rightarrow> (store_error + unit) \<times> db" where
  [store_defs]: "heartbeat en w i d =
     owner_update en i (holds_claim w) (heartbeat_row (now_at en)) d"

definition progress_row :: "string option \<Rightarrow> time \<Rightarrow> task \<Rightarrow> task" where
  [row_defs]: "progress_row note n t = t\<lparr>
     t_progress_note := note,
     t_last_heartbeat_at := Some n,
     t_status := (if t_status t = Claimed then InProgress else t_status t),
     t_updated_at := n\<rparr>"

definition update_progress ::
  "env \<Rightarrow> string \<Rightarrow> uuid \<Rightarrow> string \<Rightarrow> db \<Rightarrow> (store_error + unit) \<times> db" where
  [store_defs]: "update_progress en w i note d =
     owner_update en i (holds_claim w) (progress_row (non_empty note) (now_at en)) d"

definition jira_row :: "string option \<Rightarrow> time \<Rightarrow> task \<Rightarrow> task" where
  [row_defs]: "jira_row url n t = t\<lparr>
     t_jira_url := url,
     t_last_heartbeat_at := Some n,
     t_updated_at := n\<rparr>"

definition set_jira_url ::
  "env \<Rightarrow> string \<Rightarrow> uuid \<Rightarrow> string \<Rightarrow> db \<Rightarrow> (store_error + unit) \<times> db" where
  [store_defs]: "set_jira_url en w i url d =
     (let states = allowed_from_strings RoleWorker ''set_jira_url'' in
      owner_update en i (\<lambda>t. t_claimed_by t = Some w \<and> status_any states t)
        (jira_row (non_empty url) (now_at en)) d)"

definition open_pr_row :: "string \<Rightarrow> time \<Rightarrow> task \<Rightarrow> task" where
  [row_defs]: "open_pr_row url n t = t\<lparr>
     t_status := PROpened,
     t_github_pr_url := Some url,
     t_claimed_by := None,
     t_claimed_at := None,
     t_last_heartbeat_at := None,
     t_updated_at := n\<rparr>"

definition open_pr ::
  "env \<Rightarrow> string \<Rightarrow> uuid \<Rightarrow> string \<Rightarrow> db \<Rightarrow> (store_error + unit) \<times> db" where
  [store_defs]: "open_pr en w i url d =
     (if url = [] then (Inl ErrEmptyPRURL, d)
      else
        let states = allowed_from_strings RoleWorker ''open_pr'' in
        owner_update en i (\<lambda>t. t_claimed_by t = Some w \<and> status_any states t)
          (open_pr_row url (now_at en)) d)"

subsection \<open>ReportResult\<close>

definition complete_row :: "time \<Rightarrow> task \<Rightarrow> task" where
  [row_defs]: "complete_row n t = t\<lparr>
     t_status := Completed,
     t_completed_at := Some n,
     t_last_error := None,
     t_updated_at := n\<rparr>"

text \<open>The SET list that ReportResult's failure branch and ReapStale share: terminate when
  \<open>attempt_count >= max_attempts\<close>, else back to pending after \<open>attempt_count * 30\<close> seconds.\<close>

definition exhausted :: "task \<Rightarrow> bool" where
  "exhausted t \<longleftrightarrow> t_attempt_count t \<ge> t_max_attempts t"

definition second :: time where
  "second = 1000000"

definition retry_row :: "string \<Rightarrow> time \<Rightarrow> task \<Rightarrow> task" where
  [row_defs]: "retry_row err n t = t\<lparr>
     t_status := (if exhausted t then Failed else Pending),
     t_scheduled_for :=
       (if exhausted t then t_scheduled_for t else Some (n + t_attempt_count t * 30 * second)),
     t_claimed_by := (if exhausted t then t_claimed_by t else None),
     t_claimed_at := (if exhausted t then t_claimed_at t else None),
     t_last_heartbeat_at := (if exhausted t then t_last_heartbeat_at t else None),
     t_last_error := Some err,
     t_updated_at := n\<rparr>"

text \<open>\<open>attempt_count * 30\<close> is an INTEGER product, computed in the ELSE branch only.\<close>

definition retry_in_range :: "task \<Rightarrow> bool" where
  "retry_in_range t \<longleftrightarrow> exhausted t \<or> int4 (t_attempt_count t * 30)"

definition report_result ::
  "env \<Rightarrow> string \<Rightarrow> uuid \<Rightarrow> bool \<Rightarrow> string \<Rightarrow> db \<Rightarrow> (store_error + bool) \<times> db" where
  [store_defs]: "report_result en w i success err d =
     (if success then
        (case owner_update en i (holds_claim w) (complete_row (now_at en)) d of
           (Inl e, d') \<Rightarrow> (Inl e, d')
         | (Inr _, d') \<Rightarrow> (Inr False, d'))
      else
        (case exec_update en 0 retry_in_range (\<lambda>t. t_id t = i \<and> holds_claim w t)
                (retry_row err (now_at en)) d of
           (Inl e, d') \<Rightarrow> (Inl e, d')
         | (Inr [], d') \<Rightarrow> (Inl ErrNotOwner, d')
         | (Inr (t # _), d') \<Rightarrow> (Inr (t_status t = Failed), d')))"

subsection \<open>AppendTaskLog\<close>

definition append_check :: "env \<Rightarrow> string \<Rightarrow> uuid \<Rightarrow> db \<Rightarrow> store_error + unit" where
  "append_check en w i d =
     (case fault en 0 of Some e \<Rightarrow> Inl (DbError e) | None \<Rightarrow>
     (case fault en 1 of Some e \<Rightarrow> Inl (DbError e) | None \<Rightarrow>
     (case find_task i d of
        None \<Rightarrow> Inl ErrNotFound
      | Some t \<Rightarrow>
          if t_claimed_by t = None \<or> t_claimed_by t \<noteq> Some w \<or>
             (t_status t \<noteq> Claimed \<and> t_status t \<noteq> InProgress)
          then Inl ErrNotOwner else Inr ())))"

definition fk_violation :: string where
  "fk_violation = ''violates foreign key constraint''"

text \<open>INSERT (the sequence advances even when the transaction is rolled back), UPDATE, COMMIT.\<close>

definition append_commit ::
  "env \<Rightarrow> uuid \<Rightarrow> string \<Rightarrow> db \<Rightarrow> (store_error + task_log) \<times> db" where
  "append_commit en i msg d =
     (case fault en 2 of Some e \<Rightarrow> (Inl (DbError e), d) | None \<Rightarrow>
      let entry = \<lparr>l_id = log_seq d, l_task_id = i, l_message = msg, l_created_at = now_at en\<rparr>;
          d' = d\<lparr>log_seq := log_seq d + 1\<rparr>
      in if i \<notin> set (ids d) then (Inl (DbError fk_violation), d') else
     (case fault en 3 of Some e \<Rightarrow> (Inl (DbError e), d') | None \<Rightarrow>
     (case fault en 4 of Some e \<Rightarrow> (Inl (DbError e), d') | None \<Rightarrow>
        (Inr entry,
         d'\<lparr>task_logs := task_logs d @ [entry],
            tasks := sql_update (\<lambda>t. t_id t = i) (heartbeat_row (now_at en)) (tasks d)\<rparr>))))"

definition append_task_log ::
  "env \<Rightarrow> string \<Rightarrow> uuid \<Rightarrow> string \<Rightarrow> db \<Rightarrow> (store_error + task_log) \<times> db" where
  [store_defs]: "append_task_log en w i msg d =
     (case append_check en w i d of Inl e \<Rightarrow> (Inl e, d) | Inr _ \<Rightarrow> append_commit en i msg d)"

subsection \<open>The contract of a claim holder's method\<close>

locale lease_op = row_op +
  fixes worker :: "'a \<Rightarrow> string"
  assumes guard_owner: "guard a t \<Longrightarrow> holds_claim (worker a) t"
    and ran_error: "runs a en i d \<Longrightarrow> fst (op a en i d) = Inl e \<Longrightarrow> e = ErrNotOwner"
begin

lemma fenced:
  assumes "distinct (ids d)" and "runs a en i d"
    and "\<And>t. find_task i d = Some t \<Longrightarrow> \<not> holds_claim (worker a) t"
  shows "op a en i d = (Inl ErrNotOwner, d)"
proof -
  have "\<not> (\<exists>r. fst (op a en i d) = Inr r)"
    using assms succeeds_iff guard_owner by blast
  then obtain e where e: "fst (op a en i d) = Inl e" by (cases "fst (op a en i d)") auto
  with assms(2) have "e = ErrNotOwner" by (rule ran_error)
  with e failed_unchanged [OF e] show ?thesis by (simp add: prod_eq_iff)
qed

lemma success_held:
  assumes "distinct (ids d)" and "fst (op a en i d) = Inr r"
  shows "\<exists>t. find_task i d = Some t \<and> holds_claim (worker a) t"
  using success_find [OF assms] guard_owner by blast

end

subsection \<open>Interpretations\<close>

text \<open>What each SET list keeps: the id, well-formedness, and a step of the life cycle.\<close>

lemma rows_keep_id [simp]:
  "t_id (heartbeat_row n t) = t_id t" "t_id (progress_row note n t) = t_id t"
  "t_id (jira_row url n t) = t_id t" "t_id (open_pr_row u n t) = t_id t"
  "t_id (complete_row n t) = t_id t" "t_id (retry_row err n t) = t_id t"
  by (simp_all add: row_defs)

lemma heartbeat_row_wf: "active_status (t_status t) \<Longrightarrow> task_wf t \<Longrightarrow> task_wf (heartbeat_row n t)"
  by (auto simp: row_defs task_wf_defs)

lemma progress_row_wf: "holds_claim w t \<Longrightarrow> task_wf t \<Longrightarrow> task_wf (progress_row note n t)"
  by (auto simp: row_defs task_wf_defs holds_claim_def)

lemma jira_row_wf: "holds_claim w t \<Longrightarrow> task_wf t \<Longrightarrow> task_wf (jira_row url n t)"
  by (auto simp: row_defs task_wf_defs holds_claim_def)

lemma open_pr_row_wf: "t_status t = InProgress \<Longrightarrow> task_wf t \<Longrightarrow> task_wf (open_pr_row url n t)"
  by (auto simp: row_defs task_wf_defs)

lemma complete_row_wf: "active_status (t_status t) \<Longrightarrow> task_wf t \<Longrightarrow> task_wf (complete_row n t)"
  by (auto simp: row_defs task_wf_defs)

lemma retry_row_wf: "active_status (t_status t) \<Longrightarrow> task_wf t \<Longrightarrow> task_wf (retry_row err n t)"
  by (auto simp: row_defs task_wf_defs)

lemma rows_step:
  "row_step t (heartbeat_row n t)"
  "row_step t (progress_row note n t)"
  "row_step t (jira_row url n t)"
  "t_status t = InProgress \<Longrightarrow> row_step t (open_pr_row u n t)"
  "active_status (t_status t) \<Longrightarrow> row_step t (complete_row n t)"
  "active_status (t_status t) \<Longrightarrow> row_step t (retry_row err n t)"
  by (auto simp: row_defs row_step_def lifecycle_eq_def lifecycle_table status_class_defs)

lemma holds_claim_active: "holds_claim w t \<Longrightarrow> active_status (t_status t)"
  by (simp add: holds_claim_def)

lemma owner_update_state:
  "snd (owner_update en i p f d) =
     (if fault en 0 = None
      then d\<lparr>tasks := sql_update (\<lambda>t. t_id t = i \<and> p t) f (tasks d)\<rparr> else d)"
  by (simp add: owner_update_eq split: option.splits)

lemma owner_update_ok:
  "fst (owner_update en i p f d) = Inr u \<longleftrightarrow>
     fault en 0 = None \<and> (\<exists>t \<in> set (tasks d). t_id t = i \<and> p t)"
  by (simp add: owner_update_eq split: option.splits)

lemma owner_update_error:
  "fault en 0 = None \<Longrightarrow> fst (owner_update en i p f d) = Inl e \<Longrightarrow> e = ErrNotOwner"
  by (simp add: owner_update_eq split: option.splits if_splits)

lemmas owner_update_facts = owner_update_state owner_update_ok

interpretation hb: lease_op
  "\<lambda>w en i d. heartbeat en w i d" holds_claim "\<lambda>_. heartbeat_row" "\<lambda>_ en _ _. fault en 0 = None"
  "\<lambda>w. w"
  by unfold_locales
    (simp_all add: heartbeat_def owner_update_facts heartbeat_row_wf holds_claim_active
      rows_step owner_update_error)

lemma set_jira_url_eq:
  "set_jira_url en w i url d =
     owner_update en i (holds_claim w) (jira_row (non_empty url) (now_at en)) d"
  by (simp add: set_jira_url_def status_any_allowed holds_claim_def [abs_def])

lemma open_pr_eq:
  "open_pr en w i url d =
     (if url = [] then (Inl ErrEmptyPRURL, d)
      else owner_update en i (\<lambda>t. t_claimed_by t = Some w \<and> t_status t = InProgress)
             (open_pr_row url (now_at en)) d)"
  by (simp add: open_pr_def status_any_allowed)

lemma open_pr_facts:
  "snd (open_pr en w i url d) =
     (if url \<noteq> [] \<and> fault en 0 = None
      then d\<lparr>tasks := sql_update (\<lambda>t. t_id t = i \<and> t_claimed_by t = Some w \<and> t_status t = InProgress)
                       (open_pr_row url (now_at en)) (tasks d)\<rparr>
      else d)"
  "fst (open_pr en w i url d) = Inr u \<longleftrightarrow> url \<noteq> [] \<and> fault en 0 = None \<and>
     (\<exists>t \<in> set (tasks d). t_id t = i \<and> t_claimed_by t = Some w \<and> t_status t = InProgress)"
  "url \<noteq> [] \<Longrightarrow> fault en 0 = None \<Longrightarrow> fst (open_pr en w i url d) = Inl e \<Longrightarrow> e = ErrNotOwner"
  by (simp_all add: open_pr_eq owner_update_facts)
    (auto dest: owner_update_error)

interpretation progress: lease_op
  "\<lambda>(w, note) en i d. update_progress en w i note d" "\<lambda>(w, note). holds_claim w"
  "\<lambda>(w, note). progress_row (non_empty note)" "\<lambda>_ en _ _. fault en 0 = None" fst
  by unfold_locales
    (auto simp add: update_progress_def owner_update_facts progress_row_wf rows_step
      dest: owner_update_error)

interpretation jira: lease_op
  "\<lambda>(w, url) en i d. set_jira_url en w i url d" "\<lambda>(w, url). holds_claim w"
  "\<lambda>(w, url). jira_row (non_empty url)" "\<lambda>_ en _ _. fault en 0 = None" fst
  by unfold_locales
    (auto simp add: set_jira_url_eq owner_update_facts jira_row_wf rows_step
      dest: owner_update_error)

interpretation pr: lease_op
  "\<lambda>(w, url) en i d. open_pr en w i url d"
  "\<lambda>(w, url) t. t_claimed_by t = Some w \<and> t_status t = InProgress"
  "\<lambda>(w, url). open_pr_row url" "\<lambda>(w, url) en _ _. url \<noteq> [] \<and> fault en 0 = None" fst
  by unfold_locales
    (auto simp add: open_pr_facts open_pr_row_wf rows_step holds_claim_def active_status_def
      split: if_splits)

text \<open>The two halves of ReportResult.\<close>

lemma report_success_eq:
  "report_result en w i True err d =
     (case owner_update en i (holds_claim w) (complete_row (now_at en)) d of
        (Inl e, d') \<Rightarrow> (Inl e, d')
      | (Inr _, d') \<Rightarrow> (Inr False, d'))"
  by (simp add: report_result_def)

lemma report_success_facts:
  "snd (report_result en w i True err d) =
     snd (owner_update en i (holds_claim w) (complete_row (now_at en)) d)"
  "fst (report_result en w i True err d) = Inr b \<longleftrightarrow> \<not> b \<and>
     fst (owner_update en i (holds_claim w) (complete_row (now_at en)) d) = Inr ()"
  "fst (report_result en w i True err d) = Inl e \<longleftrightarrow>
     fst (owner_update en i (holds_claim w) (complete_row (now_at en)) d) = Inl e"
  by (auto simp: report_success_eq split: prod.splits sum.splits)

interpretation success: lease_op
  "\<lambda>w en i d. report_result en w i True [] d" holds_claim "\<lambda>_. complete_row"
  "\<lambda>_ en _ _. fault en 0 = None" "\<lambda>w. w"
  by unfold_locales
    (auto simp add: report_success_facts owner_update_facts complete_row_wf rows_step
      holds_claim_active dest: owner_update_error)

definition retry_runs :: "string \<Rightarrow> env \<Rightarrow> uuid \<Rightarrow> db \<Rightarrow> bool" where
  "retry_runs w en i d \<longleftrightarrow> fault en 0 = None \<and>
     list_all retry_in_range (filter (\<lambda>t. t_id t = i \<and> holds_claim w t) (tasks d))"

lemma report_failure_eq:
  "report_result en w i False err d =
     (case fault en 0 of
        Some e \<Rightarrow> (Inl (DbError e), d)
      | None \<Rightarrow>
          if retry_runs w en i d then
            (case filter (\<lambda>t. t_id t = i \<and> holds_claim w t) (tasks d) of
               [] \<Rightarrow> Inl ErrNotOwner
             | t # _ \<Rightarrow> Inr (t_status (retry_row err (now_at en) t) = Failed),
             d\<lparr>tasks := sql_update (\<lambda>t. t_id t = i \<and> holds_claim w t)
                         (retry_row err (now_at en)) (tasks d)\<rparr>)
          else (Inl (DbError int4_out_of_range), d))"
  by (auto simp: report_result_def exec_update_def retry_runs_def sql_returning_def
      split: option.splits list.splits)

lemma report_failure_state:
  "snd (report_result en w i False err d) =
     (if retry_runs w en i d
      then d\<lparr>tasks := sql_update (\<lambda>t. t_id t = i \<and> holds_claim w t)
                       (retry_row err (now_at en)) (tasks d)\<rparr>
      else d)"
  by (auto simp: report_failure_eq retry_runs_def split: option.splits)

lemma report_failure_ok:
  "(\<exists>b. fst (report_result en w i False err d) = Inr b) \<longleftrightarrow>
     retry_runs w en i d \<and> (\<exists>t \<in> set (tasks d). t_id t = i \<and> holds_claim w t)"
proof (cases "filter (\<lambda>t. t_id t = i \<and> holds_claim w t) (tasks d) = []")
  case True
  then show ?thesis
    by (auto simp: report_failure_eq filter_empty_conv split: option.splits)
next
  case False
  then have "\<exists>t \<in> set (tasks d). t_id t = i \<and> holds_claim w t" by (auto simp: filter_empty_conv)
  with False show ?thesis
    by (auto simp: report_failure_eq retry_runs_def neq_Nil_conv split: option.splits)
qed

lemma report_failure_error:
  "retry_runs w en i d \<Longrightarrow> fst (report_result en w i False err d) = Inl e \<Longrightarrow> e = ErrNotOwner"
  by (auto simp: report_failure_eq retry_runs_def split: option.splits list.splits)

interpretation failure: lease_op
  "\<lambda>(w, err) en i d. report_result en w i False err d" "\<lambda>(w, err). holds_claim w"
  "\<lambda>(w, err). retry_row err" "\<lambda>(w, err) en i d. retry_runs w en i d" fst
  by unfold_locales
    (auto simp add: report_failure_state report_failure_ok retry_row_wf rows_step
      holds_claim_active split_beta dest: report_failure_error)


subsection \<open>Properties of the lease protocol\<close>

lemma report_failure_held:
  assumes "distinct (ids d)" and "find_task i d = Some t" and "holds_claim w t"
    and "retry_in_range t" and "fault en 0 = None"
  shows "fst (report_result en w i False err d) = Inr (exhausted t)"
proof -
  from assms(2) have t: "t \<in> set (tasks d)" "t_id t = i" by (auto dest: find_key_SomeD)
  with assms(1,3) have "filter (\<lambda>t. t_id t = i \<and> holds_claim w t) (tasks d) = [t]"
    using filter_key [of t_id "tasks d" t i "holds_claim w"] by simp
  with assms(4,5) show ?thesis
    by (simp add: report_failure_eq retry_runs_def row_defs)
qed

lemma not_held_error:
  assumes "distinct (ids d)" and "\<And>t. find_task i d = Some t \<Longrightarrow> \<not> holds_claim w t"
    and "fault en 0 = None"
  shows "report_result en w i ok err d = (Inl ErrNotOwner, d)"
proof (cases ok)
  case True
  with success.fenced [OF assms(1), where a = w and en = en and i = i] assms show ?thesis
    by (simp add: report_success_eq)
next
  case False
  have "t_id t = i \<Longrightarrow> t \<in> set (tasks d) \<Longrightarrow> \<not> holds_claim w t" for t
    using assms(1,2) find_key_distinct [of t_id "tasks d" t] by simp
  then have "retry_runs w en i d"
    using assms(3) by (auto simp: retry_runs_def list_all_iff)
  with False failure.fenced [OF assms(1), where a = "(w, err)" and en = en and i = i] assms show ?thesis by simp
qed

text \<open>C6: ReportResult by the holder of the claim: a success completes the task and clears the last
  error; a failure records the error and puts the task back into the queue, unowned and due
  after 30 seconds per attempt used, unless its attempts are used up, when the task is failed
  for good and the call returns true. Everybody else gets ErrNotOwner and changes nothing.\<close>

theorem report_result_spec:
  assumes "distinct (ids d)" and "fault en 0 = None"
    and "\<forall>t \<in> set (tasks d). 0 \<le> t_attempt_count t \<and> t_attempt_count t * 30 < 2 ^ 31"
  shows "case find_task i d of
      None \<Rightarrow> report_result en w i ok err d = (Inl ErrNotOwner, d)
    | Some t \<Rightarrow>
        if \<not> (t_claimed_by t = Some w \<and> t_status t \<in> {Claimed, InProgress})
        then report_result en w i ok err d = (Inl ErrNotOwner, d)
        else
          fst (report_result en w i ok err d) =
            Inr (\<not> ok \<and> t_max_attempts t \<le> t_attempt_count t) \<and>
          (\<forall>j. j \<noteq> i \<longrightarrow> find_task j (snd (report_result en w i ok err d)) = find_task j d) \<and>
          find_task i (snd (report_result en w i ok err d)) = Some
            (if ok
             then t\<lparr>t_status := Completed, t_completed_at := Some (now_at en),
                    t_last_error := None, t_updated_at := now_at en\<rparr>
             else if t_max_attempts t \<le> t_attempt_count t
             then t\<lparr>t_status := Failed, t_last_error := Some err, t_updated_at := now_at en\<rparr>
             else t\<lparr>t_status := Pending, t_claimed_by := None, t_claimed_at := None,
                    t_last_heartbeat_at := None, t_last_error := Some err,
                    t_scheduled_for := Some (now_at en + t_attempt_count t * 30000000),
                    t_updated_at := now_at en\<rparr>)"
proof (cases "find_task i d")
  case None
  then have "report_result en w i ok err d = (Inl ErrNotOwner, d)"
    using assms(2) by (intro not_held_error [OF assms(1)]) auto
  with None show ?thesis by simp
next
  case (Some t)
  show ?thesis
  proof (cases "holds_claim w t")
    case False
    then have "report_result en w i ok err d = (Inl ErrNotOwner, d)"
      using Some assms(2) by (intro not_held_error [OF assms(1)]) auto
    with False Some show ?thesis by (simp add: holds_claim_def active_status_def)
  next
    case held: True
    have t: "t \<in> set (tasks d)" using Some by (auto dest: find_key_SomeD)
    with assms(3) have "0 \<le> t_attempt_count t" "t_attempt_count t * 30 < 2 ^ 31" by blast+
    then have range: "retry_in_range t" by (simp add: retry_in_range_def int4_def)
    have uniq: "t' = t" if "t' \<in> set (tasks d)" "t_id t' = i" for t'
      using that Some assms(1) find_key_distinct [of t_id "tasks d" t'] by simp
    have runs: "retry_runs w en i d"
      using range assms(2) by (auto simp: retry_runs_def list_all_iff dest: uniq)
    have guard: "t_claimed_by t = Some w \<and> t_status t \<in> {Claimed, InProgress}"
      using held by (simp add: holds_claim_def active_status_def)
    show ?thesis
    proof (cases ok)
      case True
      have "fst (report_result en w i True err d) = Inr False"
        using t Some held assms(2)
        by (auto simp: report_success_facts owner_update_ok dest: find_key_SomeD)
      moreover have "snd (report_result en w i True err d) = snd (report_result en w i True [] d)"
        by (simp add: report_success_facts)
      ultimately show ?thesis
        using True Some guard held assms(2) success.other_rows_kept [where a = w and i = i and en = en and d = d]
          success.find_after [where j = i and a = w and i = i and en = en and d = d]
        by (simp add: complete_row_def)
    next
      case False
      have "fst (report_result en w i False err d) = Inr (exhausted t)"
        by (rule report_failure_held [OF assms(1) Some held range assms(2)])
      then show ?thesis
        using False Some guard held runs failure.other_rows_kept [where a = "(w, err)" and i = i and en = en and d = d]
          failure.find_after [where j = i and a = "(w, err)" and i = i and en = en and d = d]
        by (simp add: retry_row_def exhausted_def second_def)
    qed
  qed
qed

lemma report_result_spec_witness:
  "fst (report_result (calm 5 0) ''w'' 3 False ''boom'' sample_db) = Inr False \<and>
   t_status (the (find_task 3 (snd (report_result (calm 5 0) ''w'' 3 False ''boom'' sample_db))))
     = Pending"
proof -
  have "\<forall>t \<in> set (tasks sample_db). 0 \<le> t_attempt_count t \<and> t_attempt_count t * 30 < 2 ^ 31"
    by (simp add: sample_defs)
  then show ?thesis
    using report_result_spec [OF db_wf_distinct [OF sample_db_wf], 
      where en = "calm 5 0" and i = 3 and w = "''w''" and ok = False and err = "''boom''"]
    by (simp add: sample_find sample_task_def active_status_def)
qed

lemma lease_ops_unheld:
  assumes "distinct (ids d)" and "\<forall>k. fault en k = None" and "url \<noteq> []"
    and "\<forall>t. find_task i d = Some t \<longrightarrow>
      \<not> (t_claimed_by t = Some w \<and> t_status t \<in> {Claimed, InProgress})"
  shows "heartbeat en w i d = (Inl ErrNotOwner, d)
    \<and> update_progress en w i text d = (Inl ErrNotOwner, d)
    \<and> set_jira_url en w i jira d = (Inl ErrNotOwner, d)
    \<and> open_pr en w i url d = (Inl ErrNotOwner, d)
    \<and> report_result en w i ok err d = (Inl ErrNotOwner, d)
    \<and> append_task_log en w i msg d =
        (Inl (if find_task i d = None then ErrNotFound else ErrNotOwner), d)"
proof -
  have free: "\<not> holds_claim w t" if "find_task i d = Some t" for t
    using assms(4) that by (simp add: holds_claim_def active_status_def)
  have "append_check en w i d = Inl (if find_task i d = None then ErrNotFound else ErrNotOwner)"
    using assms(2,4) by (auto simp: append_check_def split: option.splits)
  then show ?thesis
    using hb.fenced [OF assms(1), where a = w and en = en and i = i]
      progress.fenced [OF assms(1), where a = "(w, text)" and en = en and i = i]
      jira.fenced [OF assms(1), where a = "(w, jira)" and en = en and i = i]
      pr.fenced [OF assms(1), where a = "(w, url)" and en = en and i = i]
      not_held_error [OF assms(1) free, where en = en and ok = ok and err = err] assms(2,3) free
    by (simp add: append_task_log_def)
qed

text \<open>C2: Fencing: a worker that does not hold the claim (never had it, lost it to the reaper, or
  finished) cannot change the task. Each of its calls fails with ErrNotOwner, a log entry for a
  missing task with ErrNotFound, and the database stays as it is.\<close>

theorem lease_ops_fenced:
  assumes "distinct (ids d)" and "\<forall>k. fault en k = None" and "url \<noteq> []"
    and "\<forall>t. find_task i d = Some t \<longrightarrow>
      \<not> (t_claimed_by t = Some w \<and> t_status t \<in> {Claimed, InProgress})"
  shows "heartbeat en w i d = (Inl ErrNotOwner, d)
    \<and> update_progress en w i text d = (Inl ErrNotOwner, d)
    \<and> set_jira_url en w i jira d = (Inl ErrNotOwner, d)
    \<and> open_pr en w i url d = (Inl ErrNotOwner, d)
    \<and> report_result en w i ok err d = (Inl ErrNotOwner, d)
    \<and> append_task_log en w i msg d =
        (Inl (if find_task i d = None then ErrNotFound else ErrNotOwner), d)"
  using lease_ops_unheld [OF assms] .

lemma lease_ops_fenced_witness:
  "heartbeat (calm 5 0) ''other'' 3 sample_db = (Inl ErrNotOwner, sample_db)"
  using lease_ops_fenced [OF db_wf_distinct [OF sample_db_wf], where en = "calm 5 0" and url = "''u''" and i = 3
      and w = "''other''"]
  by (simp add: sample_find sample_task_def active_status_def)

end
