(* ===== verification/Queue.thy ===== *)
theory Queue
  imports Leases
begin

section \<open>The claim queue and the reaper's statement\<close>

text \<open>
  claim.go (ClaimTask) and ReapStale of lifecycle.go. \<open>claim_candidate\<close> is the subselect
  \<open>ORDER BY priority DESC, created_at ASC FOR UPDATE SKIP LOCKED LIMIT 1\<close>; rows that tie on both
  keys are taken in scan order. \<open>priority_queue\<close> is the interface the claim rests on (a pick
  that is optimal for a key among the rows that pass a filter); it is interpreted on the
  subselect.
\<close>

subsection \<open>ClaimTask\<close>

definition eligible :: "time \<Rightarrow> task \<Rightarrow> bool" where
  "eligible n t \<longleftrightarrow> t_status t = Pending \<and>
     (case t_scheduled_for t of None \<Rightarrow> True | Some s \<Rightarrow> s \<le> n)"

definition claim_key :: "task \<Rightarrow> int \<times> time" where
  "claim_key t = (- t_priority t, t_created_at t)"

definition claim_candidate :: "env \<Rightarrow> task list \<Rightarrow> task option" where
  "claim_candidate en rows =
     (case sort_key claim_key
             (filter (\<lambda>t. eligible (now_at en) t \<and> t_id t \<notin> set (locked_rows en)) rows) of
        [] \<Rightarrow> None
      | t # _ \<Rightarrow> Some t)"

definition claim_row :: "string \<Rightarrow> time \<Rightarrow> task \<Rightarrow> task" where
  [row_defs]: "claim_row w n t = t\<lparr>
     t_status := Claimed,
     t_claimed_by := Some w,
     t_claimed_at := Some n,
     t_last_heartbeat_at := Some n,
     t_progress_note := None,
     t_updated_at := n,
     t_attempt_count := t_attempt_count t + 1\<rparr>"

definition claim_task :: "env \<Rightarrow> string \<Rightarrow> db \<Rightarrow> (store_error + task option) \<times> db" where
  [store_defs]: "claim_task en w d =
     (let target = map_option t_id (claim_candidate en (tasks d)) in
      case exec_update en 0 (\<lambda>t. int4 (t_attempt_count t + 1)) (\<lambda>t. Some (t_id t) = target)
             (claim_row w (now_at en)) d of
        (Inl e, d') \<Rightarrow> (Inl e, d')
      | (Inr [], d') \<Rightarrow> (Inr None, d')
      | (Inr (t # _), d') \<Rightarrow> (Inr (Some t), d'))"

subsection \<open>ReapStale\<close>

text \<open>\<open>time.Duration.Microseconds\<close>: nanoseconds divided by 1000, truncated towards zero.\<close>

definition microseconds :: "int \<Rightarrow> time" where
  "microseconds ns = quot ns 1000"

definition stale :: "time \<Rightarrow> time \<Rightarrow> task \<Rightarrow> bool" where
  "stale n usecs t \<longleftrightarrow> active_status (t_status t) \<and>
     (case t_last_heartbeat_at t of None \<Rightarrow> False | Some h \<Rightarrow> h < n - usecs)"

record reap_outcome =
  requeued :: int
  reaped_failed :: int

fun count_outcome :: "task_status list \<Rightarrow> reap_outcome \<Rightarrow> reap_outcome" where
  "count_outcome [] out = out"
| "count_outcome (s # ss) out =
     count_outcome ss
       (if s = Failed then out\<lparr>reaped_failed := reaped_failed out + 1\<rparr>
        else out\<lparr>requeued := requeued out + 1\<rparr>)"

definition lease_expired :: string where
  "lease_expired = ''lease expired''"

definition reap_stale :: "env \<Rightarrow> int \<Rightarrow> db \<Rightarrow> (store_error + reap_outcome) \<times> db" where
  [store_defs]: "reap_stale en visibility d =
     (let usecs = microseconds visibility in
      case exec_update en 0 retry_in_range (stale (now_at en) usecs)
             (retry_row lease_expired (now_at en)) d of
        (Inl e, d') \<Rightarrow> (Inl e, d')
      | (Inr rows, d') \<Rightarrow>
          (case fetch en 0 (map t_status rows) of
             (ss, None) \<Rightarrow> (Inr (count_outcome ss \<lparr>requeued = 0, reaped_failed = 0\<rparr>), d')
           | (_, Some e) \<Rightarrow> (Inl (DbError e), d')))"

subsection \<open>The interface of a priority pick\<close>

locale priority_queue =
  fixes pick :: "'r list \<Rightarrow> 'r option"
    and ok :: "'r \<Rightarrow> bool"
    and rank :: "'r \<Rightarrow> 'k::linorder"
  assumes pick_None: "pick rows = None \<longleftrightarrow> (\<forall>r \<in> set rows. \<not> ok r)"
    and pick_Some: "pick rows = Some r \<Longrightarrow> r \<in> set rows \<and> ok r"
    and pick_best: "pick rows = Some r \<Longrightarrow> r' \<in> set rows \<Longrightarrow> ok r' \<Longrightarrow> rank r \<le> rank r'"
    and pick_filter: "filter ok rows = filter ok rows' \<Longrightarrow> pick rows = pick rows'"
begin

lemma picks: "r \<in> set rows \<Longrightarrow> ok r \<Longrightarrow> \<exists>r'. pick rows = Some r'"
  using pick_None by (cases "pick rows") auto

lemma pick_unique_best:
  assumes "r \<in> set rows" "ok r"
    and "\<And>r'. r' \<in> set rows \<Longrightarrow> ok r' \<Longrightarrow> r' \<noteq> r \<Longrightarrow> rank r < rank r'"
  shows "pick rows = Some r"
proof -
  from picks [OF assms(1,2)] obtain p where p: "pick rows = Some p" ..
  then have "p \<in> set rows" "ok p" "rank p \<le> rank r"
    using pick_Some pick_best assms(1,2) by auto
  with assms(3) [of p] p show ?thesis by (cases "p = r") auto
qed

text \<open>A row that fails the filter does not influence the pick.\<close>

lemma pick_sql_update:
  assumes "\<And>r. r \<in> set rows \<Longrightarrow> p r \<Longrightarrow> \<not> ok r" and "\<And>r. r \<in> set rows \<Longrightarrow> p r \<Longrightarrow> \<not> ok (f r)"
  shows "pick (sql_update p f rows) = pick rows"
proof (rule pick_filter)
  show "filter ok (sql_update p f rows) = filter ok rows"
    using assms by (induction rows) (auto simp: sql_update_Cons)
qed

end

lemma sort_key_eq_Nil_iff [simp]: "sort_key f xs = [] \<longleftrightarrow> xs = []"
  by (metis length_0_conv length_sort)

lemma sort_key_hd_least:
  assumes "sort_key f xs = y # ys" and "x \<in> set xs"
  shows "f y \<le> f x"
proof -
  have "sorted (map f (y # ys))" using assms(1) sorted_sort_key [of f xs] by simp
  moreover have "x \<in> set (y # ys)" using assms by (metis set_sort)
  ultimately show ?thesis by auto
qed

interpretation claimq: priority_queue "claim_candidate en"
  "\<lambda>t. eligible (now_at en) t \<and> t_id t \<notin> set (locked_rows en)" claim_key for en
proof (unfold_locales, goal_cases)
  case (1 rows)
  have "claim_candidate en rows = None \<longleftrightarrow>
      sort_key claim_key
        (filter (\<lambda>t. eligible (now_at en) t \<and> t_id t \<notin> set (locked_rows en)) rows) = []"
    by (cases "sort_key claim_key
        (filter (\<lambda>t. eligible (now_at en) t \<and> t_id t \<notin> set (locked_rows en)) rows)")
      (simp_all add: claim_candidate_def del: sort_key_eq_Nil_iff)
  then show ?case by (simp add: filter_empty_conv)
next
  case (2 rows r)
  let ?ok = "\<lambda>t. eligible (now_at en) t \<and> t_id t \<notin> set (locked_rows en)"
  from 2 obtain ts where "sort_key claim_key (filter ?ok rows) = r # ts"
    by (auto simp: claim_candidate_def split: list.splits)
  then have "r \<in> set (sort_key claim_key (filter ?ok rows))" by simp
  then show ?case by simp
next
  case (3 rows r r')
  then show ?case
    by (auto simp: claim_candidate_def split: list.splits elim: sort_key_hd_least)
next
  case (4 rows rows')
  then show ?case by (simp add: claim_candidate_def)
qed

subsection \<open>Facts about a claim\<close>

lemma claim_row_id [simp]: "t_id (claim_row w n t) = t_id t"
  by (simp add: row_defs)

lemma claim_row_wf:
  "t_status t = Pending \<Longrightarrow> int4 (t_attempt_count t + 1) \<Longrightarrow> task_wf t \<Longrightarrow> task_wf (claim_row w n t)"
  by (auto simp: row_defs task_wf_defs)

lemma filter_by_id:
  "distinct (map t_id rows) \<Longrightarrow> c \<in> set rows \<Longrightarrow> filter (\<lambda>t. t_id t = t_id c) rows = [c]"
  using filter_key [of t_id rows c "t_id c" "\<lambda>_. True"] by simp

text \<open>ClaimTask written out for a table with a primary key.\<close>

lemma claim_task_eq:
  assumes "distinct (ids d)"
  shows "claim_task en w d =
    (case fault en 0 of
       Some e \<Rightarrow> (Inl (DbError e), d)
     | None \<Rightarrow>
         (case claim_candidate en (tasks d) of
            None \<Rightarrow> (Inr None, d)
          | Some c \<Rightarrow>
              if int4 (t_attempt_count c + 1)
              then (Inr (Some (claim_row w (now_at en) c)),
                    d\<lparr>tasks := sql_update (\<lambda>t. t_id t = t_id c) (claim_row w (now_at en)) (tasks d)\<rparr>)
              else (Inl (DbError int4_out_of_range), d)))"
proof (cases "claim_candidate en (tasks d)")
  case None
  then show ?thesis
    by (simp add: claim_task_def exec_update_def sql_returning_def sql_update_none
        split: option.splits)
next
  case (Some c)
  then have "c \<in> set (tasks d)" by (blast dest: claimq.pick_Some)
  with assms Some show ?thesis
    by (simp add: claim_task_def exec_update_def sql_returning_def filter_by_id split: option.splits)
qed

lemma claim_task_SomeD:
  assumes "distinct (ids d)" and "claim_task en w d = (Inr (Some t), d')"
  obtains c where "claim_candidate en (tasks d) = Some c" and "c \<in> set (tasks d)"
    and "eligible (now_at en) c" and "t = claim_row w (now_at en) c"
    and "d' = d\<lparr>tasks := sql_update (\<lambda>t. t_id t = t_id c) (claim_row w (now_at en)) (tasks d)\<rparr>"
  using assms by (auto simp: claim_task_eq split: option.splits if_splits dest: claimq.pick_Some)

lemma claim_task_db_wf:
  assumes "db_wf d"
  shows "db_wf (snd (claim_task en w d))"
proof -
  have dist: "distinct (ids d)" using assms by (rule db_wf_distinct)
  show ?thesis
  proof (cases "claim_candidate en (tasks d)")
    case None
    with assms dist show ?thesis by (simp add: claim_task_eq split: option.splits)
  next
    case (Some c)
    then have c: "c \<in> set (tasks d)" "eligible (now_at en) c" by (auto dest: claimq.pick_Some)
    have "db_wf (d\<lparr>tasks := sql_update (\<lambda>t. t_id t = t_id c) (claim_row w (now_at en)) (tasks d)\<rparr>)"
      if "int4 (t_attempt_count c + 1)"
    proof (rule db_wf_update [OF assms])
      fix t assume "t \<in> set (tasks d)" "t_id t = t_id c" "task_wf t"
      moreover from this c dist have "t = c" by (metis find_key_distinct option.inject)
      ultimately show "task_wf (claim_row w (now_at en) t)"
        using that c by (simp add: claim_row_wf eligible_def)
    qed simp
    with assms dist Some show ?thesis by (simp add: claim_task_eq split: option.splits)
  qed
qed

subsection \<open>Facts about a reap\<close>

lemma count_outcome_eq:
  "count_outcome ss out =
     out\<lparr>requeued := requeued out + int (length (filter (\<lambda>s. s \<noteq> Failed) ss)),
        reaped_failed := reaped_failed out + int (length (filter (\<lambda>s. s = Failed) ss))\<rparr>"
  by (induction ss arbitrary: out) simp_all

definition reap_runs :: "env \<Rightarrow> int \<Rightarrow> db \<Rightarrow> bool" where
  "reap_runs en visibility d \<longleftrightarrow> fault en 0 = None \<and>
     list_all retry_in_range (filter (stale (now_at en) (microseconds visibility)) (tasks d))"

lemma reap_stale_state:
  "snd (reap_stale en v d) =
     (if reap_runs en v d
      then d\<lparr>tasks := sql_update (stale (now_at en) (microseconds v))
                       (retry_row lease_expired (now_at en)) (tasks d)\<rparr>
      else d)"
  by (auto simp: reap_stale_def exec_update_def reap_runs_def Let_def
      split: option.splits prod.splits)

lemma stale_active: "stale n u t \<Longrightarrow> active_status (t_status t)"
  by (simp add: stale_def)

lemma reap_stale_db_wf: "db_wf d \<Longrightarrow> db_wf (snd (reap_stale en v d))"
  by (auto simp: reap_stale_state intro!: db_wf_update retry_row_wf dest: stale_active)

lemma reap_stale_find:
  "find_task i (snd (reap_stale en v d)) =
     map_option (\<lambda>t. if reap_runs en v d \<and> stale (now_at en) (microseconds v) t
                     then retry_row lease_expired (now_at en) t else t) (find_task i d)"
  by (simp add: reap_stale_state find_key_sql_update option.map_ident)


lemma reap_error_unchanged:
  assumes "row_fault en 0 = None" and "reap_stale en v d = (Inl e, d')"
  shows "d' = d"
  using assms
  by (auto simp: reap_stale_def exec_update_def Let_def split: option.splits if_splits)

lemma reap_stale_counts:
  assumes "row_fault en 0 = None" and "fst (reap_stale en v d) = Inr out"
  shows "reap_runs en v d"
    and "requeued out = int (length (filter
      (\<lambda>t. stale (now_at en) (microseconds v) t \<and> \<not> exhausted t) (tasks d)))"
    and "reaped_failed out = int (length (filter
      (\<lambda>t. stale (now_at en) (microseconds v) t \<and> exhausted t) (tasks d)))"
proof -
  let ?p = "stale (now_at en) (microseconds v)" and ?f = "retry_row lease_expired (now_at en)"
  have counts: "length (filter (\<lambda>s. s = Failed) (map t_status (sql_returning ?p ?f rows))) =
        length (filter (\<lambda>t. ?p t \<and> exhausted t) rows)"
      "length (filter (\<lambda>s. s \<noteq> Failed) (map t_status (sql_returning ?p ?f rows))) =
        length (filter (\<lambda>t. ?p t \<and> \<not> exhausted t) rows)" for rows
    by (induction rows) (auto simp: sql_returning_def row_defs)
  have "reap_runs en v d \<and>
      out = count_outcome (map t_status (sql_returning ?p ?f (tasks d))) \<lparr>requeued = 0, reaped_failed = 0\<rparr>"
    using assms
    by (auto simp: reap_stale_def exec_update_def reap_runs_def Let_def split: option.splits if_splits)
  then show "reap_runs en v d"
    and "requeued out = int (length (filter (\<lambda>t. ?p t \<and> \<not> exhausted t) (tasks d)))"
    and "reaped_failed out = int (length (filter (\<lambda>t. ?p t \<and> exhausted t) (tasks d)))"
    by (simp_all only: count_outcome_eq counts) simp_all
qed

subsection \<open>Properties of the queue\<close>

definition claimable :: "env \<Rightarrow> task \<Rightarrow> bool" where
  "claimable en t \<longleftrightarrow> eligible (now_at en) t \<and> t_id t \<notin> set (locked_rows en)"

text \<open>C1: ClaimTask returns nothing exactly when no pending task is due and unlocked. Otherwise
  it takes a due pending task of the highest priority, the oldest among those; that task becomes
  claimed by the caller with a fresh lease and one attempt more, the others keep their rows.\<close>

theorem claim_task_spec:
  assumes "db_wf d" and "fault en 0 = None"
    and "\<forall>t \<in> set (tasks d). t_attempt_count t < 2 ^ 31 - 1"
  shows "case claim_task en w d of
      (Inl e, d') \<Rightarrow> False
    | (Inr None, d') \<Rightarrow> d' = d \<and> (\<forall>t \<in> set (tasks d). \<not> claimable en t)
    | (Inr (Some t'), d') \<Rightarrow>
        (\<exists>t. find_task (t_id t') d = Some t \<and> claimable en t \<and>
          (\<forall>u \<in> set (tasks d). claimable en u \<longrightarrow>
             t_priority u < t_priority t \<or>
             (t_priority u = t_priority t \<and> t_created_at t \<le> t_created_at u)) \<and>
          t' = t\<lparr>t_status := Claimed, t_claimed_by := Some w, t_claimed_at := Some (now_at en),
            t_last_heartbeat_at := Some (now_at en), t_progress_note := None,
            t_updated_at := now_at en, t_attempt_count := t_attempt_count t + 1\<rparr> \<and>
          (\<forall>j. find_task j d' = (if j = t_id t' then Some t' else find_task j d)))"
proof (cases "claim_candidate en (tasks d)")
  case None
  then have "\<forall>t \<in> set (tasks d). \<not> claimable en t"
    by (auto simp: claimable_def dest: claimq.pick_None [THEN iffD1])
  with None assms(1,2) show ?thesis by (simp add: claim_task_eq db_wf_distinct)
next
  case (Some c)
  then have c: "c \<in> set (tasks d)" "claimable en c"
    by (auto simp: claimable_def dest: claimq.pick_Some)
  have best: "t_priority u < t_priority c \<or>
      (t_priority u = t_priority c \<and> t_created_at c \<le> t_created_at u)"
    if "u \<in> set (tasks d)" "claimable en u" for u
    using claimq.pick_best [OF Some that(1)] that(2) by (auto simp: claimable_def claim_key_def)
  have "task_wf c" using assms(1) c(1) by (simp add: db_wf_def)
  then have "int4 (t_attempt_count c + 1)"
    using assms(3) c(1) by (auto simp: int4_def task_wf_def)
  with assms(1,2) Some have run: "claim_task en w d = (Inr (Some (claim_row w (now_at en) c)),
      d\<lparr>tasks := sql_update (\<lambda>t. t_id t = t_id c) (claim_row w (now_at en)) (tasks d)\<rparr>)"
    by (simp add: claim_task_eq db_wf_distinct)
  have fc: "find_task (t_id c) d = Some c"
    using assms(1) c(1) by (simp add: find_key_distinct db_wf_distinct)
  have rows: "find_key t_id j (sql_update (\<lambda>t. t_id t = t_id c) (claim_row w n) (tasks d)) =
      (if j = t_id c then Some (claim_row w n c) else find_task j d)" for n j
    by (rule find_key_sql_update_one [OF fc]) simp
  show ?thesis
    unfolding run prod.case sum.case option.case
  proof (intro exI [of _ c] conjI allI)
    show "find_task (t_id (claim_row w (now_at en) c)) d = Some c" using fc by simp
    show "claimable en c" by (rule c(2))
    show "\<forall>u \<in> set (tasks d). claimable en u \<longrightarrow> t_priority u < t_priority c \<or>
        t_priority u = t_priority c \<and> t_created_at c \<le> t_created_at u"
      using best by blast
    show "claim_row w (now_at en) c = c\<lparr>t_status := Claimed, t_claimed_by := Some w,
        t_claimed_at := Some (now_at en), t_last_heartbeat_at := Some (now_at en),
        t_progress_note := None, t_updated_at := now_at en,
        t_attempt_count := t_attempt_count c + 1\<rparr>"
      by (rule claim_row_def)
    fix j
    show "find_task j
        (d\<lparr>tasks := sql_update (\<lambda>t. t_id t = t_id c) (claim_row w (now_at en)) (tasks d)\<rparr>) =
      (if j = t_id (claim_row w (now_at en) c) then Some (claim_row w (now_at en) c)
       else find_task j d)"
      using rows by simp
  qed
qed

lemma claim_task_spec_witness:
  "\<exists>t. fst (claim_task (calm 1000 0) ''me'' sample_db) = Inr (Some t)"
proof -
  have "\<exists>t \<in> set (tasks sample_db). claimable (calm 1000 0) t"
    by (simp add: claimable_def eligible_def sample_defs)
  then show ?thesis
    using claim_task_spec [OF sample_db_wf _ sample_attempts_bounds(1), of "calm 1000 0" "''me''"]
    by (cases "claim_task (calm 1000 0) ''me'' sample_db")
      (auto split: sum.splits option.splits)
qed

text \<open>
  Concurrent claims. Each transaction of \<open>txs\<close> runs its subselect on the same committed
  database while the rows the earlier ones picked are locked and not yet committed.
\<close>

fun concurrent_picks :: "(env \<times> string) list \<Rightarrow> uuid list \<Rightarrow> db \<Rightarrow> uuid option list" where
  "concurrent_picks [] locks d = []"
| "concurrent_picks ((en, w) # txs) locks d =
     (let target = map_option t_id
            (claim_candidate (en\<lparr>locked_rows := locks @ locked_rows en\<rparr>) (tasks d))
      in target # concurrent_picks txs (case target of None \<Rightarrow> locks | Some i \<Rightarrow> i # locks) d)"

fun sequential_claims :: "(env \<times> string) list \<Rightarrow> db \<Rightarrow> uuid option list" where
  "sequential_claims [] d = []"
| "sequential_claims ((en, w) # txs) d =
     (case claim_task en w d of
        (Inl e, d') \<Rightarrow> None # sequential_claims txs d'
      | (Inr t, d') \<Rightarrow> map_option t_id t # sequential_claims txs d')"

text \<open>The committed rows beside the snapshot: a locked row is no longer pending, the others are
  unchanged. Under this relation the subselect finds the same row on both sides.\<close>

definition committed :: "uuid list \<Rightarrow> task list \<Rightarrow> task list \<Rightarrow> bool" where
  "committed locks snap rows \<longleftrightarrow> list_all2
     (\<lambda>s r. if t_id s \<in> set locks then t_id r = t_id s \<and> t_status r \<noteq> Pending else r = s) snap rows"

lemma claim_candidate_committed:
  assumes "committed locks snap rows"
  shows "claim_candidate (en\<lparr>locked_rows := locks @ locked_rows en\<rparr>) snap = claim_candidate en rows"
proof -
  have "filter (\<lambda>t. eligible (now_at en) t \<and> t_id t \<notin> set (locks @ locked_rows en)) snap =
      filter (\<lambda>t. eligible (now_at en) t \<and> t_id t \<notin> set (locked_rows en)) rows"
    using assms unfolding committed_def
    by (induction rule: list_all2_induct) (auto simp: eligible_def split: if_splits)
  then show ?thesis by (simp add: claim_candidate_def)
qed

lemma committed_ids: "committed locks snap rows \<Longrightarrow> map t_id rows = map t_id snap"
  unfolding committed_def by (induction rule: list_all2_induct) (auto split: if_splits)

lemma committed_attempts:
  "committed locks snap rows \<Longrightarrow> r \<in> set rows \<Longrightarrow> t_status r = Pending \<Longrightarrow> r \<in> set snap"
  unfolding committed_def
  by (induction rule: list_all2_induct) (auto split: if_splits)

lemma committed_claim:
  assumes "committed locks snap rows"
  shows "committed (i # locks) snap (sql_update (\<lambda>t. t_id t = i) (claim_row w n) rows)"
  using assms unfolding committed_def
  by (induction rule: list_all2_induct) (auto simp: sql_update_Cons row_defs split: if_splits)

lemma concurrent_picks_eq:
  assumes "committed locks (tasks d0) (tasks d)" and "distinct (ids d0)"
    and "\<forall>t \<in> set (tasks d0). t_status t = Pending \<longrightarrow> int4 (t_attempt_count t + 1)"
    and "\<forall>(en, w) \<in> set txs. fault en 0 = None"
  shows "concurrent_picks txs locks d0 = sequential_claims txs d"
  using assms(1,4)
proof (induction txs arbitrary: locks d)
  case Nil
  then show ?case by simp
next
  case (Cons tx txs)
  obtain en w where tx: "tx = (en, w)" by force
  have dist: "distinct (ids d)" using committed_ids [OF Cons.prems(1)] assms(2) by simp
  note same = claim_candidate_committed [OF Cons.prems(1), of en]
  show ?case
  proof (cases "claim_candidate en (tasks d)")
    case None
    with Cons tx same dist show ?thesis by (simp add: claim_task_eq Let_def)
  next
    case (Some c)
    then have "c \<in> set (tasks d)" "t_status c = Pending"
      by (auto dest: claimq.pick_Some simp: eligible_def)
    then have "int4 (t_attempt_count c + 1)"
      using committed_attempts [OF Cons.prems(1)] assms(3) by blast
    moreover have "concurrent_picks txs (t_id c # locks) d0 =
        sequential_claims txs
          (d\<lparr>tasks := sql_update (\<lambda>t. t_id t = t_id c) (claim_row w (now_at en)) (tasks d)\<rparr>)"
      using Cons.prems by (intro Cons.IH) (simp_all add: committed_claim)
    ultimately show ?thesis using Cons.prems tx same dist Some by (simp add: claim_task_eq Let_def)
  qed
qed

text \<open>C5: SKIP LOCKED makes concurrent claims equivalent to sequential ones: transactions that
  all select on the same snapshot, each skipping the rows the earlier ones locked, pick exactly
  the tasks they would get one after the other.\<close>

theorem concurrent_claims_serialize:
  assumes "db_wf d" and "\<forall>t \<in> set (tasks d). t_attempt_count t < 2 ^ 31 - 1"
    and "\<forall>(en, w) \<in> set txs. fault en 0 = None"
  shows "concurrent_picks txs [] d = sequential_claims txs d"
proof (rule concurrent_picks_eq)
  show "committed [] (tasks d) (tasks d)" by (simp add: committed_def list_all2_refl)
  show "\<forall>t \<in> set (tasks d). t_status t = Pending \<longrightarrow> int4 (t_attempt_count t + 1)"
    using assms(1,2) by (auto simp: db_wf_def task_wf_def int4_def)
qed (use assms in \<open>simp_all add: db_wf_distinct\<close>)

lemma concurrent_claims_serialize_witness:
  "concurrent_picks [(calm 1000 0, ''a''), (calm 1000 0, ''b'')] [] sample_db =
   sequential_claims [(calm 1000 0, ''a''), (calm 1000 0, ''b'')] sample_db"
  by (rule concurrent_claims_serialize [OF sample_db_wf sample_attempts_bounds(1)]) simp

lemma concurrent_picks_fresh:
  "Some i \<in> set (concurrent_picks txs locks d) \<Longrightarrow> i \<notin> set locks"
proof (induction txs locks d rule: concurrent_picks.induct)
  case (2 en w txs locks d)
  then show ?case
    by (auto simp: Let_def split: option.splits dest: claimq.pick_Some)
qed simp

text \<open>No task is handed to two of the concurrent claims.\<close>

lemma concurrent_claims_distinct:
  "distinct (filter (\<lambda>p. p \<noteq> None) (concurrent_picks txs locks d))"
proof (induction txs locks d rule: concurrent_picks.induct)
  case (2 en w txs locks d)
  then show ?case
    using concurrent_picks_fresh [of _ txs "_ # locks" d]
    by (auto simp: Let_def split: option.splits)
qed simp

text \<open>C7: One sweep of the reaper treats exactly the active tasks whose last heartbeat is older
  than the visibility timeout: with attempts left they become pending again, without a lease and
  due after 30 seconds per attempt used; otherwise they fail. All others keep their rows, the
  outcome counts both kinds, and a second sweep at the same time finds nothing.\<close>

theorem reap_stale_spec:
  assumes "db_wf d" and "fault en 0 = None" and "row_fault en 0 = None"
    and "\<forall>t \<in> set (tasks d). t_attempt_count t * 30 < 2 ^ 31"
  shows "case reap_stale en v d of
      (Inl e, d') \<Rightarrow> False
    | (Inr out, d') \<Rightarrow>
        (\<forall>i. find_task i d' = map_option (\<lambda>t.
           if \<not> stale (now_at en) (microseconds v) t then t
           else if t_max_attempts t \<le> t_attempt_count t
           then t\<lparr>t_status := Failed, t_last_error := Some ''lease expired'',
                  t_updated_at := now_at en\<rparr>
           else t\<lparr>t_status := Pending, t_claimed_by := None, t_claimed_at := None,
                  t_last_heartbeat_at := None, t_last_error := Some ''lease expired'',
                  t_scheduled_for := Some (now_at en + t_attempt_count t * 30000000),
                  t_updated_at := now_at en\<rparr>) (find_task i d)) \<and>
        requeued out = int (length (filter (\<lambda>t. stale (now_at en) (microseconds v) t \<and>
           t_attempt_count t < t_max_attempts t) (tasks d))) \<and>
        reaped_failed out = int (length (filter (\<lambda>t. stale (now_at en) (microseconds v) t \<and>
           t_max_attempts t \<le> t_attempt_count t) (tasks d))) \<and>
        reap_stale en v d' = (Inr \<lparr>requeued = 0, reaped_failed = 0\<rparr>, d')"
proof -
  let ?p = "stale (now_at en) (microseconds v)" and ?f = "retry_row lease_expired (now_at en)"
  have range: "list_all retry_in_range (filter ?p (tasks d))"
    using assms(1,4) by (auto simp: list_all_iff retry_in_range_def int4_def db_wf_def task_wf_def)
  have none: "\<not> ?p (?f t)" for t
    by (simp add: row_defs stale_def active_status_def)
  have after: "filter ?p (sql_update ?p ?f rows) = []" for rows
    using none by (auto simp: filter_empty_conv set_sql_update)
  have counts: "length (filter (\<lambda>s. s = Failed) (map t_status (sql_returning ?p ?f rows))) =
        length (filter (\<lambda>t. ?p t \<and> t_max_attempts t \<le> t_attempt_count t) rows)"
      "length (filter (\<lambda>s. s \<noteq> Failed) (map t_status (sql_returning ?p ?f rows))) =
        length (filter (\<lambda>t. ?p t \<and> t_attempt_count t < t_max_attempts t) rows)" for rows
    by (induction rows) (auto simp: sql_returning_def row_defs exhausted_def)
  have fixed: "sql_update ?p ?f (sql_update ?p ?f rows) = sql_update ?p ?f rows" for rows
    using none by (intro sql_update_none) (auto simp: set_sql_update)
  have again: "reap_stale en v (d\<lparr>tasks := sql_update ?p ?f (tasks d)\<rparr>) =
      (Inr \<lparr>requeued = 0, reaped_failed = 0\<rparr>, d\<lparr>tasks := sql_update ?p ?f (tasks d)\<rparr>)"
    using assms(2,3) after fixed
    by (simp add: reap_stale_def exec_update_def sql_returning_def Let_def)
  have state: "reap_stale en v d = (Inr \<lparr>requeued = int (length (filter (\<lambda>s. s \<noteq> Failed)
        (map t_status (sql_returning ?p ?f (tasks d))))),
      reaped_failed = int (length (filter (\<lambda>s. s = Failed)
        (map t_status (sql_returning ?p ?f (tasks d)))))\<rparr>,
      d\<lparr>tasks := sql_update ?p ?f (tasks d)\<rparr>)"
    using assms(2,3) range by (simp add: reap_stale_def exec_update_def count_outcome_eq Let_def)
  show ?thesis
    unfolding state prod.case sum.case
  proof (intro conjI allI)
    fix i show "find_task i (d\<lparr>tasks := sql_update ?p ?f (tasks d)\<rparr>) = map_option (\<lambda>t.
           if \<not> ?p t then t
           else if t_max_attempts t \<le> t_attempt_count t
           then t\<lparr>t_status := Failed, t_last_error := Some ''lease expired'',
                  t_updated_at := now_at en\<rparr>
           else t\<lparr>t_status := Pending, t_claimed_by := None, t_claimed_at := None,
                  t_last_heartbeat_at := None, t_last_error := Some ''lease expired'',
                  t_scheduled_for := Some (now_at en + t_attempt_count t * 30000000),
                  t_updated_at := now_at en\<rparr>) (find_task i d)"
      by (cases "find_task i d")
        (simp_all add: find_key_sql_update retry_row_def exhausted_def lease_expired_def second_def)
  qed (simp_all only: counts again reap_outcome.simps)
qed

lemma reap_stale_spec_witness:
  "\<exists>out. fst (reap_stale (calm 9000000 0) 3000000000 sample_db) = Inr out \<and>
     requeued out = 2 \<and> reaped_failed out = 0"
proof -
  let ?s = "stale 9000000 (microseconds 3000000000)"
  have "length (filter (\<lambda>t. ?s t \<and> t_attempt_count t < t_max_attempts t) (tasks sample_db)) = 2"
    "length (filter (\<lambda>t. ?s t \<and> t_max_attempts t \<le> t_attempt_count t) (tasks sample_db)) = 0"
    by (simp_all add: stale_def microseconds_def quot_def sample_defs active_status_def)
  then show ?thesis
    using reap_stale_spec
      [OF sample_db_wf _ _ sample_attempts_bounds(2), of "calm 9000000 0" 3000000000]
    by (cases "reap_stale (calm 9000000 0) 3000000000 sample_db") (auto split: sum.splits)
qed

end
