(* ===== verification/Admin_Ops.thy ===== *)
theory Admin_Ops
  imports Leases
begin

section \<open>Operator-facing store methods\<close>

text \<open>
  tasks.go (CreateTask, GetTask, ListTasks, UpdateTask, UpdateTaskLinks, DeleteTask,
  RequeueTask), finalize.go (RequestReview, FinalizeTask), ListTaskLogs of logs.go and
  CountPending of lifecycle.go. \<open>admin_op\<close> is the contract of the methods that tell a missing
  row from a row in the wrong state; it is interpreted on UpdateTask, UpdateTaskLinks,
  RequeueTask, RequestReview and FinalizeTask. DeleteTask removes its row and, by the
  ON DELETE CASCADE of task_logs, the row's log.
\<close>

subsection \<open>CreateTask\<close>

record new_task_input =
  nt_name :: string
  nt_payload :: raw_json
  nt_priority :: int
  nt_max_attempts :: int
  nt_scheduled_for :: "time option"
  nt_jira_url :: "string option"
  nt_github_pr_url :: "string option"

definition validate_create_input :: "raw_json \<Rightarrow> invalid_input option" where
  "validate_create_input payload =
     (case payload of
        RawEmpty \<Rightarrow> Some NoInstructions
      | RawBad _ \<Rightarrow> Some PayloadNotJson
      | RawDoc j \<Rightarrow>
          (case decode_instructions_ptr j of
             None \<Rightarrow> Some PayloadNotJson
           | Some None \<Rightarrow> Some NoInstructions
           | Some (Some s) \<Rightarrow> if trim_space s = [] then Some NoInstructions else None))"

text \<open>The text of the error; that of json.Unmarshal's own error is left out.\<close>

definition invalid_input_text :: "invalid_input \<Rightarrow> string" where
  "invalid_input_text why = ''task: invalid create input: '' @
     (case why of
        NoInstructions \<Rightarrow> ''payload.instructions must be a non-empty string''
      | PayloadNotJson \<Rightarrow> ''payload is not valid JSON: '')"

definition new_row :: "env \<Rightarrow> new_task_input \<Rightarrow> json \<Rightarrow> int \<Rightarrow> task" where
  "new_row en inp payload max_attempts =
     \<lparr>t_id = fresh_id en, t_name = nt_name inp, t_payload = jsonb payload,
      t_priority = nt_priority inp, t_status = Pending,
      t_scheduled_for = nt_scheduled_for inp, t_attempt_count = 0,
      t_max_attempts = max_attempts, t_claimed_by = None, t_claimed_at = None,
      t_last_heartbeat_at = None, t_completed_at = None, t_last_error = None,
      t_progress_note = None, t_jira_url = nt_jira_url inp,
      t_github_pr_url = nt_github_pr_url inp,
      t_created_at = now_at en, t_updated_at = now_at en\<rparr>"

definition unique_violation :: string where
  "unique_violation = ''violates unique constraint''"

definition create_task :: "env \<Rightarrow> new_task_input \<Rightarrow> db \<Rightarrow> (store_error + task) \<times> db" where
  [store_defs]: "create_task en inp d =
     (case validate_create_input (nt_payload inp) of
        Some why \<Rightarrow> (Inl (ErrInvalidInput why), d)
      | None \<Rightarrow>
          let max_attempts = (if nt_max_attempts inp \<le> 0 then 3 else nt_max_attempts inp);
              payload = (case nt_payload inp of RawDoc j \<Rightarrow> j | _ \<Rightarrow> JObj []);
              row = new_row en inp payload max_attempts
          in if \<not> int4 (nt_priority inp) \<or> \<not> int4 max_attempts
             then (Inl (DbError int4_out_of_range), d)
             else (case fault en 0 of
                     Some e \<Rightarrow> (Inl (DbError e), d)
                   | None \<Rightarrow>
                       if fresh_id en \<in> set (ids d) then (Inl (DbError unique_violation), d)
                       else (Inr row, d\<lparr>tasks := tasks d @ [row]\<rparr>)))"

subsection \<open>Queries\<close>

record list_filter =
  f_status :: "string option"
  f_limit :: int
  f_offset :: int

definition clamp_limit :: "int \<Rightarrow> int" where
  "clamp_limit n = (if n \<le> 0 \<or> n > 500 then 50 else n)"

text \<open>\<open>WHERE status = $1\<close>: comparing with an unknown label is an error of the query.\<close>

definition where_status :: "string option \<Rightarrow> task list \<Rightarrow> task list option" where
  "where_status s rows =
     (case s of
        None \<Rightarrow> Some rows
      | Some l \<Rightarrow> map_option (\<lambda>st. filter (\<lambda>t. t_status t = st) rows) (parse_status l))"

definition newest_first :: "task list \<Rightarrow> task list" where
  "newest_first rows = sort_key (\<lambda>t. - t_created_at t) rows"

definition page :: "int \<Rightarrow> int \<Rightarrow> 'r list \<Rightarrow> 'r list" where
  "page limit offset rows = take (nat limit) (drop (nat offset) rows)"

definition bad_status :: string where
  "bad_status = ''invalid input value for enum task_status''"

text \<open>
  ListTasks reads the page until \<open>rows.Next()\<close> is false and does not look at \<open>rows.Err()\<close>: an
  error of the page query (an unknown label, a negative OFFSET, a lost connection) ends the
  loop. The count query that follows reports its own errors.
\<close>

definition list_tasks :: "env \<Rightarrow> list_filter \<Rightarrow> db \<Rightarrow> store_error + task list \<times> int" where
  [store_defs]: "list_tasks en f d =
     (let limit = clamp_limit (f_limit f) in
      (case fault en 0 of Some e \<Rightarrow> Inl (DbError e) | None \<Rightarrow>
      (let items = (case where_status (f_status f) (tasks d) of
                     None \<Rightarrow> []
                   | Some rows \<Rightarrow>
                       if f_offset f < 0 then []
                       else fst (fetch en 0 (page limit (f_offset f) (newest_first rows))))
      in (case fault en 1 of Some e \<Rightarrow> Inl (DbError e) | None \<Rightarrow>
         (case where_status (f_status f) (tasks d) of
            None \<Rightarrow> Inl (DbError bad_status)
          | Some rows \<Rightarrow> Inr (items, int (length rows)))))))"

definition list_task_logs :: "env \<Rightarrow> nat \<Rightarrow> uuid \<Rightarrow> int \<Rightarrow> db \<Rightarrow> store_error + task_log list" where
  [store_defs]: "list_task_logs en k i limit d =
     (let rows = sort_key l_id (filter (\<lambda>l. l_task_id l = i) (task_logs d));
          rows = (if limit > 0 then take (nat limit) rows else rows)
      in (case fault en k of Some e \<Rightarrow> Inl (DbError e) | None \<Rightarrow>
         (case fetch en k rows of
            (out, None) \<Rightarrow> Inr out
          | (_, Some e) \<Rightarrow> Inl (DbError e))))"

definition count_pending :: "env \<Rightarrow> db \<Rightarrow> store_error + int" where
  [store_defs]: "count_pending en d =
     (case fault en 0 of
        Some e \<Rightarrow> Inl (DbError e)
      | None \<Rightarrow> Inr (int (length (filter (\<lambda>t. t_status t = Pending) (tasks d)))))"

subsection \<open>Updates by an operator\<close>

text \<open>No row matched: the GetTask that follows decides between a missing row and a row in
  another state.\<close>

definition missing_or :: "env \<Rightarrow> uuid \<Rightarrow> db \<Rightarrow> store_error \<Rightarrow> store_error" where
  "missing_or en i d e = (case get_task en 1 i d of Inl ErrNotFound \<Rightarrow> ErrNotFound | _ \<Rightarrow> e)"

text \<open>Scan of one returned row; \<open>pgx.ErrNoRows\<close> (or no affected row) is \<open>miss\<close>.\<close>

definition update_or ::
  "(store_error + task list) \<times> db \<Rightarrow> (db \<Rightarrow> store_error) \<Rightarrow> (store_error + task) \<times> db" where
  "update_or res miss =
     (case res of
        (Inl e, d') \<Rightarrow> (Inl e, d')
      | (Inr [], d') \<Rightarrow> (Inl (miss d'), d')
      | (Inr (t # _), d') \<Rightarrow> (Inr t, d'))"

definition discard :: "('e + 'a) \<times> 's \<Rightarrow> ('e + unit) \<times> 's" where
  "discard res = (map_sum id (\<lambda>_. ()) (fst res), snd res)"

record update_task_input =
  ut_name :: string
  ut_priority :: int
  ut_max_attempts :: int
  ut_scheduled_for :: "time option"
  ut_payload :: raw_json
  ut_jira_url :: "string option"
  ut_github_pr_url :: "string option"

definition update_row :: "update_task_input \<Rightarrow> time \<Rightarrow> task \<Rightarrow> task" where
  [row_defs]: "update_row inp n t = t\<lparr>
     t_name := ut_name inp,
     t_priority := ut_priority inp,
     t_max_attempts := ut_max_attempts inp,
     t_scheduled_for := ut_scheduled_for inp,
     t_payload := (case ut_payload inp of RawDoc j \<Rightarrow> jsonb j | _ \<Rightarrow> t_payload t),
     t_jira_url := ut_jira_url inp,
     t_github_pr_url := ut_github_pr_url inp,
     t_updated_at := n\<rparr>"

definition bad_json :: string where
  "bad_json = ''invalid input syntax for type json''"

definition update_task ::
  "env \<Rightarrow> uuid \<Rightarrow> update_task_input \<Rightarrow> db \<Rightarrow> (store_error + task) \<times> db" where
  [store_defs]: "update_task en i inp d =
     (if \<not> int4 (ut_priority inp) \<or> \<not> int4 (ut_max_attempts inp)
      then (Inl (DbError int4_out_of_range), d)
      else case ut_payload inp of RawBad _ \<Rightarrow> (Inl (DbError bad_json), d) | _ \<Rightarrow>
        update_or
          (exec_update en 0 (\<lambda>_. True) (\<lambda>t. t_id t = i \<and> t_status t = Pending)
             (update_row inp (now_at en)) d)
          (\<lambda>d'. missing_or en i d' ErrNotEditable))"

definition links_row :: "string option \<Rightarrow> string option \<Rightarrow> time \<Rightarrow> task \<Rightarrow> task" where
  [row_defs]: "links_row jira pr n t = t\<lparr>
     t_jira_url := jira,
     t_github_pr_url := pr,
     t_updated_at := n\<rparr>"

definition update_task_links ::
  "env \<Rightarrow> uuid \<Rightarrow> string option \<Rightarrow> string option \<Rightarrow> db \<Rightarrow> (store_error + task) \<times> db" where
  [store_defs]: "update_task_links en i jira pr d =
     update_or
       (exec_update en 0 (\<lambda>_. True) (\<lambda>t. t_id t = i) (links_row jira pr (now_at en)) d)
       (\<lambda>_. ErrNotFound)"

definition delete_task :: "env \<Rightarrow> uuid \<Rightarrow> db \<Rightarrow> (store_error + unit) \<times> db" where
  [store_defs]: "delete_task en i d =
     (case fault en 0 of
        Some e \<Rightarrow> (Inl (DbError e), d)
      | None \<Rightarrow>
          let doomed = (\<lambda>t. t_id t = i \<and> idle_status (t_status t)) in
          if rows_affected doomed (tasks d) = 0
          then (Inl (missing_or en i d ErrNotDeletable), d)
          else (Inr (),
                d\<lparr>tasks := filter (\<lambda>t. \<not> doomed t) (tasks d),
                  task_logs := filter (\<lambda>l. l_task_id l \<noteq> i) (task_logs d)\<rparr>))"

definition requeue_row :: "time \<Rightarrow> task \<Rightarrow> task" where
  [row_defs]: "requeue_row n t = t\<lparr>
     t_status := Pending,
     t_claimed_by := None,
     t_claimed_at := None,
     t_last_heartbeat_at := None,
     t_completed_at := None,
     t_last_error := None,
     t_progress_note := None,
     t_github_pr_url := None,
     t_attempt_count := 0,
     t_scheduled_for := None,
     t_updated_at := n\<rparr>"

definition requeue_task :: "env \<Rightarrow> uuid \<Rightarrow> db \<Rightarrow> (store_error + task) \<times> db" where
  [store_defs]: "requeue_task en i d =
     update_or
       (exec_update en 0 (\<lambda>_. True) (\<lambda>t. t_id t = i \<and> idle_status (t_status t))
          (requeue_row (now_at en)) d)
       (\<lambda>d'. missing_or en i d' ErrNotRequeueable)"

definition review_row :: "time \<Rightarrow> task \<Rightarrow> task" where
  [row_defs]: "review_row n t = t\<lparr>t_status := ReviewRequested, t_updated_at := n\<rparr>"

definition request_review :: "env \<Rightarrow> uuid \<Rightarrow> db \<Rightarrow> (store_error + unit) \<times> db" where
  [store_defs]: "request_review en i d =
     (let states = allowed_from_strings RoleAdmin ''request_review'' in
      discard (update_or
        (exec_update en 0 (\<lambda>_. True) (\<lambda>t. t_id t = i \<and> status_any states t)
           (review_row (now_at en)) d)
        (\<lambda>d'. missing_or en i d' ErrInvalidTransition)))"

definition finalize_row :: "task_status \<Rightarrow> string option \<Rightarrow> time \<Rightarrow> task \<Rightarrow> task" where
  [row_defs]: "finalize_row target err n t = t\<lparr>
     t_status := target,
     t_completed_at := (if target = Completed then Some n else t_completed_at t),
     t_last_error := (case err of Some e \<Rightarrow> Some e | None \<Rightarrow> t_last_error t),
     t_updated_at := n\<rparr>"

definition finalize_task ::
  "env \<Rightarrow> uuid \<Rightarrow> bool \<Rightarrow> string \<Rightarrow> db \<Rightarrow> (store_error + unit) \<times> db" where
  [store_defs]: "finalize_task en i success err d =
     (let states = allowed_from_strings RoleAdmin ''finalize'';
          target = (if success then Completed else Failed);
          err_ptr = (if success then None else non_empty err)
      in discard (update_or
           (exec_update en 0 (\<lambda>_. True) (\<lambda>t. t_id t = i \<and> status_any states t)
              (finalize_row target err_ptr (now_at en)) d)
           (\<lambda>d'. missing_or en i d' ErrInvalidTransition)))"

subsection \<open>The contract of an operator's method\<close>

locale admin_op = row_op +
  fixes wrong_state :: store_error
  assumes ran_error: "runs a en i d \<Longrightarrow> fault en 1 = None \<Longrightarrow> fst (op a en i d) = Inl e
      \<Longrightarrow> e = (if find_task i d = None then ErrNotFound else wrong_state)"
begin

lemma rejected:
  assumes "distinct (ids d)" and "runs a en i d" and "fault en 1 = None"
    and "\<And>t. find_task i d = Some t \<Longrightarrow> \<not> guard a t"
  shows "op a en i d = (Inl (if find_task i d = None then ErrNotFound else wrong_state), d)"
proof -
  have "\<not> (\<exists>r. fst (op a en i d) = Inr r)" using assms succeeds_iff by blast
  then obtain e where e: "fst (op a en i d) = Inl e" by (cases "fst (op a en i d)") auto
  with assms(2,3) ran_error have "e = (if find_task i d = None then ErrNotFound else wrong_state)"
    by blast
  with e failed_unchanged [OF e] show ?thesis by (simp add: prod_eq_iff)
qed

lemma accepted:
  assumes "distinct (ids d)" and "runs a en i d" and "find_task i d = Some t" and "guard a t"
  shows "\<exists>r. fst (op a en i d) = Inr r"
    and "find_task i (snd (op a en i d)) = Some (eff a (now_at en) t)"
  using assms succeeds_iff by (auto simp: find_after)

end

subsection \<open>Interpretations\<close>

lemma admin_rows_keep_id [simp]:
  "t_id (update_row inp n t) = t_id t" "t_id (links_row j p n t) = t_id t"
  "t_id (requeue_row n t) = t_id t" "t_id (review_row n t) = t_id t"
  "t_id (finalize_row s e n t) = t_id t"
  by (simp_all add: row_defs)

lemma admin_rows_wf:
  "t_status t = Pending \<Longrightarrow> int4 (ut_priority inp) \<Longrightarrow> int4 (ut_max_attempts inp)
     \<Longrightarrow> task_wf t \<Longrightarrow> task_wf (update_row inp n t)"
  "task_wf t \<Longrightarrow> task_wf (links_row j p n t)"
  "idle_status (t_status t) \<Longrightarrow> task_wf t \<Longrightarrow> task_wf (requeue_row n t)"
  "t_status t = PROpened \<Longrightarrow> task_wf t \<Longrightarrow> task_wf (review_row n t)"
  "parked_status (t_status t) \<Longrightarrow> terminal_status s \<Longrightarrow> task_wf t \<Longrightarrow> task_wf (finalize_row s e n t)"
  by (auto simp: row_defs task_wf_defs int4_def)

lemma admin_rows_step:
  "t_status t = Pending \<Longrightarrow> row_step t (update_row inp n t)"
  "row_step t (links_row j p n t)"
  "idle_status (t_status t) \<Longrightarrow> row_step t (requeue_row n t)"
  "t_status t = PROpened \<Longrightarrow> row_step t (review_row n t)"
  "parked_status (t_status t) \<Longrightarrow> terminal_status s \<Longrightarrow> row_step t (finalize_row s e n t)"
  by (auto simp: row_defs row_step_def lifecycle_eq_def lifecycle_table status_class_defs)

text \<open>\<open>update_or\<close> over an UPDATE that cannot overflow.\<close>

lemma update_or_eq:
  "update_or (exec_update en 0 (\<lambda>_. True) p f d) miss =
     (case fault en 0 of
        Some e \<Rightarrow> (Inl (DbError e), d)
      | None \<Rightarrow>
          let d' = d\<lparr>tasks := sql_update p f (tasks d)\<rparr> in
          (case sql_returning p f (tasks d) of [] \<Rightarrow> Inl (miss d') | t # _ \<Rightarrow> Inr t, d'))"
  by (simp add: update_or_def exec_update_def list_all_iff Let_def split: option.splits list.splits)

lemma update_or_state:
  "snd (update_or (exec_update en 0 (\<lambda>_. True) p f d) miss) =
     (if fault en 0 = None then d\<lparr>tasks := sql_update p f (tasks d)\<rparr> else d)"
  by (simp add: update_or_eq Let_def split: option.splits)

lemma update_or_ok:
  "(\<exists>t. fst (update_or (exec_update en 0 (\<lambda>_. True) p f d) miss) = Inr t) \<longleftrightarrow>
     fault en 0 = None \<and> (\<exists>t \<in> set (tasks d). p t)"
  using sql_returning_empty_iff [of p f "tasks d"]
  by (cases "sql_returning p f (tasks d)") (auto simp: update_or_eq Let_def split: option.splits)

lemma update_or_error:
  assumes "fault en 0 = None" "fst (update_or (exec_update en 0 (\<lambda>_. True) p f d) miss) = Inl e"
  shows "e = miss (d\<lparr>tasks := sql_update p f (tasks d)\<rparr>)"
  using assms by (simp add: update_or_eq Let_def split: list.splits)

lemma discard_simps [simp]:
  "snd (discard res) = snd res"
  "fst (discard res) = Inr u \<longleftrightarrow> (\<exists>x. fst res = Inr x)"
  "fst (discard res) = Inl e \<longleftrightarrow> fst res = Inl e"
  by (cases "fst res"; simp add: discard_def)+

lemma missing_or_after:
  assumes "fault en 1 = None" and "\<And>t. p t \<Longrightarrow> t_id (f t) = t_id t"
  shows "missing_or en i (d\<lparr>tasks := sql_update p f (tasks d)\<rparr>) e =
    (if find_task i d = None then ErrNotFound else e)"
  using assms by (simp add: missing_or_def find_key_sql_update split: option.splits)

lemmas update_or_facts = update_or_state update_or_ok

lemma request_review_eq:
  "request_review en i d = discard (update_or
     (exec_update en 0 (\<lambda>_. True) (\<lambda>t. t_id t = i \<and> t_status t = PROpened)
        (review_row (now_at en)) d)
     (\<lambda>d'. missing_or en i d' ErrInvalidTransition))"
  by (simp add: request_review_def status_any_allowed)

lemma finalize_task_eq:
  "finalize_task en i success err d = discard (update_or
     (exec_update en 0 (\<lambda>_. True) (\<lambda>t. t_id t = i \<and> parked_status (t_status t))
        (finalize_row (if success then Completed else Failed)
          (if success then None else non_empty err) (now_at en)) d)
     (\<lambda>d'. missing_or en i d' ErrInvalidTransition))"
  by (simp add: finalize_task_def status_any_allowed)

definition update_runs :: "update_task_input \<Rightarrow> env \<Rightarrow> bool" where
  "update_runs inp en \<longleftrightarrow> int4 (ut_priority inp) \<and> int4 (ut_max_attempts inp) \<and>
     (\<forall>s. ut_payload inp \<noteq> RawBad s) \<and> fault en 0 = None"

lemma update_task_facts:
  "snd (update_task en i inp d) =
     (if update_runs inp en
      then d\<lparr>tasks := sql_update (\<lambda>t. t_id t = i \<and> t_status t = Pending)
                       (update_row inp (now_at en)) (tasks d)\<rparr>
      else d)"
  "(\<exists>t. fst (update_task en i inp d) = Inr t) \<longleftrightarrow>
     update_runs inp en \<and> (\<exists>t \<in> set (tasks d). t_id t = i \<and> t_status t = Pending)"
  by (auto simp: update_task_def update_or_facts update_runs_def split: raw_json.splits)

lemma update_task_error:
  "update_runs inp en \<Longrightarrow> fault en 1 = None \<Longrightarrow> fst (update_task en i inp d) = Inl e
     \<Longrightarrow> e = (if find_task i d = None then ErrNotFound else ErrNotEditable)"
  by (auto simp: update_task_def update_runs_def missing_or_after
      split: raw_json.splits dest!: update_or_error)

interpretation edit: admin_op
  "\<lambda>inp en i d. update_task en i inp d" "\<lambda>_ t. t_status t = Pending" update_row
  "\<lambda>inp en _ _. update_runs inp en" ErrNotEditable
  by unfold_locales
    (simp_all add: update_task_facts admin_rows_wf admin_rows_step update_task_error update_runs_def)

lemma update_task_links_facts:
  "snd (update_task_links en i j p d) =
     (if fault en 0 = None
      then d\<lparr>tasks := sql_update (\<lambda>t. t_id t = i) (links_row j p (now_at en)) (tasks d)\<rparr> else d)"
  "(\<exists>r. fst (update_task_links en i j p d) = Inr r) \<longleftrightarrow>
     fault en 0 = None \<and> (\<exists>t \<in> set (tasks d). t_id t = i)"
  "fault en 0 = None \<Longrightarrow> fst (update_task_links en i j p d) = Inl e \<Longrightarrow> e = ErrNotFound"
  by (simp_all add: update_task_links_def update_or_facts) (drule (1) update_or_error)

interpretation links: admin_op
  "\<lambda>(j, p) en i d. update_task_links en i j p d" "\<lambda>_ _. True" "\<lambda>(j, p). links_row j p"
  "\<lambda>_ en _ _. fault en 0 = None" ErrNotFound
  by unfold_locales
    (auto simp: update_task_links_facts admin_rows_wf admin_rows_step split: if_splits
      dest: update_task_links_facts(2) [THEN iffD1, OF exI])

interpretation requeue: admin_op
  "\<lambda>_::unit. requeue_task" "\<lambda>_ t. idle_status (t_status t)" "\<lambda>_. requeue_row"
  "\<lambda>_ en _ _. fault en 0 = None" ErrNotRequeueable
  by unfold_locales
    (auto simp: requeue_task_def update_or_facts admin_rows_wf admin_rows_step missing_or_after
      dest!: update_or_error)

interpretation review: admin_op
  "\<lambda>_::unit. request_review" "\<lambda>_ t. t_status t = PROpened" "\<lambda>_. review_row"
  "\<lambda>_ en _ _. fault en 0 = None" ErrInvalidTransition
  by unfold_locales
    (auto simp: request_review_eq update_or_facts admin_rows_wf admin_rows_step missing_or_after
      dest!: update_or_error)

lemma finalize_task_facts:
  "snd (finalize_task en i success err d) =
     (if fault en 0 = None
      then d\<lparr>tasks := sql_update (\<lambda>t. t_id t = i \<and> parked_status (t_status t))
             (finalize_row (if success then Completed else Failed)
                (if success then None else non_empty err) (now_at en)) (tasks d)\<rparr> else d)"
  "fst (finalize_task en i success err d) = Inr u \<longleftrightarrow>
     fault en 0 = None \<and> (\<exists>t \<in> set (tasks d). t_id t = i \<and> parked_status (t_status t))"
  "fault en 0 = None \<Longrightarrow> fault en 1 = None \<Longrightarrow> fst (finalize_task en i success err d) = Inl e
     \<Longrightarrow> e = (if find_task i d = None then ErrNotFound else ErrInvalidTransition)"
  by (simp_all only: finalize_task_eq discard_simps update_or_facts)
    (drule (1) update_or_error, simp add: missing_or_after)

interpretation finalize: admin_op
  "\<lambda>(success, err) en i d. finalize_task en i success err d"
  "\<lambda>_ t. parked_status (t_status t)"
  "\<lambda>(success, err). finalize_row (if success then Completed else Failed)
     (if success then None else non_empty err)"
  "\<lambda>_ en _ _. fault en 0 = None" ErrInvalidTransition
  by unfold_locales
    (auto simp: finalize_task_facts(1,2) admin_rows_wf admin_rows_step terminal_status_def
      simp del: One_nat_def split: if_splits dest: finalize_task_facts(3))


subsection \<open>Properties of creation and listing\<close>

definition has_instructions :: "raw_json \<Rightarrow> bool" where
  "has_instructions p \<longleftrightarrow>
     (\<exists>j s. p = RawDoc j \<and> decode_instructions_ptr j = Some (Some s) \<and> trim_space s \<noteq> [])"

lemma validate_iff: "validate_create_input p = None \<longleftrightarrow> has_instructions p"
  by (auto simp: validate_create_input_def has_instructions_def
      split: raw_json.splits option.splits)

text \<open>C10: CreateTask accepts a task exactly when its payload is a JSON document whose
  instructions are a non-blank string and its numbers fit their columns. The created task is
  pending, unclaimed, with no attempt used and 3 attempts unless the caller asked for another
  positive number, GetTask returns it, and the tasks there were keep their rows; a rejected
  call changes nothing.\<close>

theorem create_task_spec:
  assumes "fault en 0 = None" and "fresh_id en \<notin> set (ids d)" and "fault en' k = None"
  shows "case create_task en inp d of
      (Inl e, d') \<Rightarrow> d' = d \<and>
        \<not> (has_instructions (nt_payload inp) \<and> int4 (nt_priority inp) \<and> nt_max_attempts inp < 2 ^ 31)
    | (Inr t, d') \<Rightarrow>
        has_instructions (nt_payload inp) \<and> int4 (nt_priority inp) \<and> nt_max_attempts inp < 2 ^ 31 \<and>
        get_task en' k (fresh_id en) d' = Inr t \<and>
        (\<forall>j. j \<noteq> fresh_id en \<longrightarrow> find_task j d' = find_task j d) \<and>
        t_id t = fresh_id en \<and> t_status t = Pending \<and> t_name t = nt_name inp \<and>
        t_priority t = nt_priority inp \<and> t_scheduled_for t = nt_scheduled_for inp \<and>
        t_attempt_count t = 0 \<and>
        t_max_attempts t = (if 0 < nt_max_attempts inp then nt_max_attempts inp else 3) \<and>
        t_claimed_by t = None \<and> t_created_at t = now_at en"
proof (cases "has_instructions (nt_payload inp)")
  case False
  then obtain why where "validate_create_input (nt_payload inp) = Some why"
    using validate_iff [of "nt_payload inp"] by (cases "validate_create_input (nt_payload inp)") auto
  with False show ?thesis by (simp add: create_task_def)
next
  case True
  have none: "find_key t_id (fresh_id en) (tasks d) = None"
    using assms(2) by (simp add: find_key_None_iff)
  from True have "validate_create_input (nt_payload inp) = None" by (simp add: validate_iff)
  with True assms none show ?thesis
    by (auto simp: create_task_def Let_def int4_def find_key_append new_row_def split: option.splits)
qed

definition sample_input :: new_task_input where
  "sample_input = \<lparr>nt_name = ''n'', nt_payload = RawDoc (JObj [(''instructions'', JStr ''go'')]),
     nt_priority = 1, nt_max_attempts = 0, nt_scheduled_for = None, nt_jira_url = None,
     nt_github_pr_url = None\<rparr>"

lemma sample_input_ok:
  "has_instructions (nt_payload sample_input)" "int4 (nt_priority sample_input)"
  "nt_max_attempts sample_input = 0"
proof -
  have "trim_space ''go'' = ''go''"
    by (simp add: trim_space_def space_seqs_def trim_seqs.simps)
  moreover have "instructions_key ''instructions''" by code_simp
  ultimately show "has_instructions (nt_payload sample_input)"
    by (simp add: sample_input_def has_instructions_def decode_instructions_ptr_def)
qed (simp_all add: sample_input_def int4_def)

lemma create_task_spec_witness:
  "\<exists>t. fst (create_task (calm 5 9) sample_input sample_db) = Inr t \<and> t_max_attempts t = 3"
proof -
  have "fresh_id (calm 5 9) \<notin> set (ids sample_db)"
    using sample_find(8) by (simp add: find_key_None_iff)
  then show ?thesis
    using create_task_spec [where en = "calm 5 9" and en' = "calm 5 9" and inp = sample_input
        and d = sample_db and k = 0] sample_input_ok
    by (cases "create_task (calm 5 9) sample_input sample_db") (auto split: sum.splits)
qed

lemma concat_pages:
  assumes "0 < n"
  shows "concat (map (\<lambda>k. take n (drop (k * n) xs)) [0..<m]) = take (m * n) xs"
  using take_add [of "_ * n" n xs] by (induction m) (simp_all add: add.commute)

lemma sorted_newest_first: "sorted_wrt (\<lambda>a b. t_created_at b \<le> t_created_at a) (newest_first rows)"
proof -
  have "sorted (map (\<lambda>t. - t_created_at t) (newest_first rows))"
    by (simp add: newest_first_def)
  then show ?thesis by (simp add: sorted_map)
qed

definition page_items :: "(store_error + task list \<times> int) \<Rightarrow> task list" where
  "page_items r = (case r of Inl e \<Rightarrow> [] | Inr (items, n) \<Rightarrow> items)"



subsection \<open>Properties of the operator's methods\<close>

text \<open>What a call did: it succeeded and the row of the task is now \<open>r\<close> (all other rows and the
  log being kept), or it failed with \<open>e\<close> and changed nothing.\<close>

definition replaced_row :: "uuid \<Rightarrow> task \<Rightarrow> (store_error + 'r) \<times> db \<Rightarrow> db \<Rightarrow> bool" where
  "replaced_row i r res d \<longleftrightarrow> (\<exists>x. fst res = Inr x) \<and> find_task i (snd res) = Some r \<and>
     (\<forall>j. j \<noteq> i \<longrightarrow> find_task j (snd res) = find_task j d) \<and> task_logs (snd res) = task_logs d"

lemma delete_outcome:
  assumes "distinct (ids d)" and "fault en 0 = None" and "fault en 1 = None"
  shows "if \<exists>t. find_task i d = Some t \<and> idle_status (t_status t)
     then fst (delete_task en i d) = Inr () \<and> find_task i (snd (delete_task en i d)) = None \<and>
       (\<forall>j. j \<noteq> i \<longrightarrow> find_task j (snd (delete_task en i d)) = find_task j d) \<and>
       task_logs (snd (delete_task en i d)) = filter (\<lambda>l. l_task_id l \<noteq> i) (task_logs d)
     else delete_task en i d =
       (Inl (if find_task i d = None then ErrNotFound else ErrNotDeletable), d)"
proof (cases "\<exists>t. find_task i d = Some t \<and> idle_status (t_status t)")
  case True
  then obtain t where t: "find_task i d = Some t" "idle_status (t_status t)" by blast
  then have "t \<in> set (tasks d)" "t_id t = i" by (auto dest: find_key_SomeD)
  with t(2) have "rows_affected (\<lambda>t. t_id t = i \<and> idle_status (t_status t)) (tasks d) \<noteq> 0"
    unfolding rows_affected_zero_iff by blast
  then have run: "delete_task en i d = (Inr (),
      d\<lparr>tasks := filter (\<lambda>t. \<not> (t_id t = i \<and> idle_status (t_status t))) (tasks d),
        task_logs := filter (\<lambda>l. l_task_id l \<noteq> i) (task_logs d)\<rparr>)"
    using assms(2) by (simp add: delete_task_def)
  have "find_task j (snd (delete_task en i d)) = (if j = i then None else find_task j d)" for j
    using t assms(1) find_key_SomeD [of t_id j "tasks d"] unfolding run
    by (cases "find_task j d") (auto simp: find_key_filter)
  with True show ?thesis by (simp add: run)
next
  case False
  then have "rows_affected (\<lambda>t. t_id t = i \<and> idle_status (t_status t)) (tasks d) = 0"
    using find_key_distinct [OF assms(1)] by (auto simp: rows_affected_zero_iff)
  then have "delete_task en i d = (Inl (missing_or en i d ErrNotDeletable), d)"
    using assms(2) by (simp add: delete_task_def)
  with False assms(3) show ?thesis
    by (auto simp: missing_or_def simp del: One_nat_def split: option.splits)
qed

context admin_op
begin

lemma outcome:
  assumes "distinct (ids d)" and "runs a en i d" and "fault en 1 = None"
  shows "case find_task i d of
      None \<Rightarrow> op a en i d = (Inl ErrNotFound, d)
    | Some t \<Rightarrow> if guard a t then replaced_row i (eff a (now_at en) t) (op a en i d) d
        else op a en i d = (Inl wrong_state, d)"
proof (cases "find_task i d")
  case None
  then show ?thesis using rejected [OF assms] by simp
next
  case (Some t)
  then show ?thesis
    using rejected [OF assms] accepted [OF assms(1,2) Some] other_rows_kept [of _ i a en d]
      keeps_logs [of a en i d]
    by (simp add: replaced_row_def)
qed

end

text \<open>C9: The operator's calls on a task, by its status. RequeueTask and DeleteTask need a task
  that is pending, completed or failed, UpdateTask a pending one, RequestReview one with an open
  PR, FinalizeTask one with an open PR or in review; in any other status each fails with its own
  error, for an unknown id with ErrNotFound, and then nothing changes. A requeue starts the task
  over (no lease, result, error, PR or attempt left, due at once); a finalization completes it
  or fails it; a deletion removes it together with its log.\<close>

theorem operator_outcomes:
  assumes "distinct (ids d)" and "\<forall>k. fault en k = None" and "update_runs inp en"
  shows "case find_task i d of
      None \<Rightarrow>
        requeue_task en i d = (Inl ErrNotFound, d) \<and> update_task en i inp d = (Inl ErrNotFound, d) \<and>
        request_review en i d = (Inl ErrNotFound, d) \<and>
        finalize_task en i ok err d = (Inl ErrNotFound, d) \<and> delete_task en i d = (Inl ErrNotFound, d)
    | Some t \<Rightarrow>
        (if t_status t \<in> {Pending, Completed, Failed}
         then replaced_row i (t\<lparr>t_status := Pending, t_claimed_by := None, t_claimed_at := None,
             t_last_heartbeat_at := None, t_completed_at := None, t_last_error := None,
             t_progress_note := None, t_github_pr_url := None, t_attempt_count := 0,
             t_scheduled_for := None, t_updated_at := now_at en\<rparr>) (requeue_task en i d) d
         else requeue_task en i d = (Inl ErrNotRequeueable, d)) \<and>
        (if t_status t = Pending
         then replaced_row i (update_row inp (now_at en) t) (update_task en i inp d) d
         else update_task en i inp d = (Inl ErrNotEditable, d)) \<and>
        (if t_status t = PROpened
         then replaced_row i (t\<lparr>t_status := ReviewRequested, t_updated_at := now_at en\<rparr>)
                (request_review en i d) d
         else request_review en i d = (Inl ErrInvalidTransition, d)) \<and>
        (if t_status t \<in> {PROpened, ReviewRequested}
         then replaced_row i
           (if ok then t\<lparr>t_status := Completed, t_completed_at := Some (now_at en),
                          t_updated_at := now_at en\<rparr>
            else t\<lparr>t_status := Failed, t_updated_at := now_at en,
                   t_last_error := (if err = [] then t_last_error t else Some err)\<rparr>)
           (finalize_task en i ok err d) d
         else finalize_task en i ok err d = (Inl ErrInvalidTransition, d)) \<and>
        (if t_status t \<in> {Pending, Completed, Failed}
         then fst (delete_task en i d) = Inr () \<and> find_task i (snd (delete_task en i d)) = None \<and>
           (\<forall>j. j \<noteq> i \<longrightarrow> find_task j (snd (delete_task en i d)) = find_task j d) \<and>
           task_logs (snd (delete_task en i d)) = filter (\<lambda>l. l_task_id l \<noteq> i) (task_logs d)
         else delete_task en i d = (Inl ErrNotDeletable, d))"
proof -
  have f: "fault en 0 = None" "fault en 1 = None" using assms(2) by simp_all
  note outcomes = requeue.outcome [OF assms(1) f, where i = i]
    edit.outcome [OF assms(1,3) f(2), where i = i]
    review.outcome [OF assms(1) f, where i = i]
    finalize.outcome [OF assms(1) f, where i = i and a = "(ok, err)"]
    delete_outcome [OF assms(1) f, where i = i]
  have final: "finalize_row (if ok then Completed else Failed) (if ok then None else non_empty err) n t =
      (if ok then t\<lparr>t_status := Completed, t_completed_at := Some n, t_updated_at := n\<rparr>
       else t\<lparr>t_status := Failed, t_updated_at := n,
              t_last_error := (if err = [] then t_last_error t else Some err)\<rparr>)" for n t
    by (simp add: row_defs non_empty_def)
  show ?thesis
  proof (cases "find_task i d")
    case None
    with outcomes show ?thesis by simp
  next
    case (Some t)
    show ?thesis
      using outcomes unfolding Some option.case prod.case final requeue_row_def review_row_def
      by (simp add: idle_status_def parked_status_def del: insert_iff)
  qed
qed

lemma operator_outcomes_witness:
  "finalize_task (calm 5 0) 3 True [] sample_db = (Inl ErrInvalidTransition, sample_db)"
proof -
  have "update_runs \<lparr>ut_name = [], ut_priority = 0, ut_max_attempts = 1, ut_scheduled_for = None,
      ut_payload = RawEmpty, ut_jira_url = None, ut_github_pr_url = None\<rparr> (calm 5 0)"
    by (simp add: update_runs_def int4_def)
  from operator_outcomes [OF db_wf_distinct [OF sample_db_wf] _ this, where i = 3 and ok = True
      and err = "[]"]
  show ?thesis by (simp add: sample_find sample_task_def)
qed

end
