(* ===== verification/Lifecycle.thy ===== *)
theory Lifecycle
  imports Queue Admin_Ops
begin

section \<open>The store as a state machine\<close>

text \<open>
  Every store method that changes the database is a command; \<open>exec\<close> runs one, \<open>reachable\<close> are
  the databases a run of commands can produce from the empty one. The lemmas give, for every
  command: the database stays well-formed, each task's status moves along the life cycle, and
  the log of a task only grows while the task exists. \<open>abs_step\<close> is the abstract machine (a map
  from ids to statuses) the store refines.
\<close>

datatype cmd =
    CreateTask new_task_input
  | ClaimTask string
  | Heartbeat string uuid
  | UpdateProgress string uuid string
  | SetJiraURL string uuid string
  | OpenPR string uuid string
  | ReportResult string uuid bool string
  | AppendTaskLog string uuid string
  | UpdateTask uuid update_task_input
  | UpdateTaskLinks uuid "string option" "string option"
  | DeleteTask uuid
  | RequeueTask uuid
  | RequestReview uuid
  | FinalizeTask uuid bool string
  | ReapStale int

fun exec :: "env \<Rightarrow> cmd \<Rightarrow> db \<Rightarrow> db" where
  "exec en (CreateTask inp) d = snd (create_task en inp d)"
| "exec en (ClaimTask w) d = snd (claim_task en w d)"
| "exec en (Heartbeat w i) d = snd (heartbeat en w i d)"
| "exec en (UpdateProgress w i note) d = snd (update_progress en w i note d)"
| "exec en (SetJiraURL w i url) d = snd (set_jira_url en w i url d)"
| "exec en (OpenPR w i url) d = snd (open_pr en w i url d)"
| "exec en (ReportResult w i ok err) d = snd (report_result en w i ok err d)"
| "exec en (AppendTaskLog w i msg) d = snd (append_task_log en w i msg d)"
| "exec en (UpdateTask i inp) d = snd (update_task en i inp d)"
| "exec en (UpdateTaskLinks i j p) d = snd (update_task_links en i j p d)"
| "exec en (DeleteTask i) d = snd (delete_task en i d)"
| "exec en (RequeueTask i) d = snd (requeue_task en i d)"
| "exec en (RequestReview i) d = snd (request_review en i d)"
| "exec en (FinalizeTask i ok err) d = snd (finalize_task en i ok err d)"
| "exec en (ReapStale v) d = snd (reap_stale en v d)"

fun run :: "(env \<times> cmd) list \<Rightarrow> db \<Rightarrow> db" where
  "run [] d = d"
| "run ((en, c) # cs) d = run cs (exec en c d)"

inductive reachable :: "db \<Rightarrow> bool" where
  start: "reachable empty_db"
| step: "reachable d \<Longrightarrow> reachable (exec en c d)"

lemma run_append: "run (xs @ ys) d = run ys (run xs d)"
  by (induction xs d rule: run.induct) auto

lemma reachable_run: "reachable d \<Longrightarrow> reachable (run cs d)"
  by (induction cs d rule: run.induct) (auto intro: reachable.step)

subsection \<open>The commands that are no row operation\<close>

lemma report_true_err: "report_result en w i True err d = report_result en w i True [] d"
  by (simp add: report_result_def)

text \<open>CreateTask appends a fresh pending row or does nothing.\<close>

lemma create_task_state:
  "snd (create_task en inp d) = d \<or>
   (\<exists>j m. nt_payload inp = RawDoc j \<and> validate_create_input (nt_payload inp) = None \<and>
      m = (if nt_max_attempts inp \<le> 0 then 3 else nt_max_attempts inp) \<and>
      int4 (nt_priority inp) \<and> int4 m \<and> fresh_id en \<notin> set (ids d) \<and>
      fst (create_task en inp d) = Inr (new_row en inp j m) \<and>
      snd (create_task en inp d) = d\<lparr>tasks := tasks d @ [new_row en inp j m]\<rparr>)"
  by (auto simp: create_task_def validate_create_input_def Let_def
      split: raw_json.splits option.splits if_splits)

lemma new_row_simps [simp]:
  "t_id (new_row en inp j m) = fresh_id en" "t_status (new_row en inp j m) = Pending"
  "t_attempt_count (new_row en inp j m) = 0" "t_max_attempts (new_row en inp j m) = m"
  by (simp_all add: new_row_def)

lemma new_row_wf: "int4 (nt_priority inp) \<Longrightarrow> int4 m \<Longrightarrow> task_wf (new_row en inp j m)"
  by (auto simp: new_row_def task_wf_defs int4_def)

lemma create_task_db_wf: "db_wf d \<Longrightarrow> db_wf (snd (create_task en inp d))"
  using create_task_state [of en inp d]
  by (auto simp: db_wf_def logs_wf_def new_row_wf)

text \<open>AppendTaskLog.\<close>

lemma append_commit_state:
  "snd (append_commit en i msg d) = d \<or>
   snd (append_commit en i msg d) = d\<lparr>log_seq := log_seq d + 1\<rparr> \<or>
   (\<exists>l. l = \<lparr>l_id = log_seq d, l_task_id = i, l_message = msg, l_created_at = now_at en\<rparr> \<and>
      i \<in> set (ids d) \<and> fst (append_commit en i msg d) = Inr l \<and>
      snd (append_commit en i msg d) = d\<lparr>log_seq := log_seq d + 1, task_logs := task_logs d @ [l],
        tasks := sql_update (\<lambda>t. t_id t = i) (heartbeat_row (now_at en)) (tasks d)\<rparr>)"
  by (simp add: append_commit_def Let_def split: option.splits)

lemma append_check_okD:
  "append_check en w i d = Inr u \<Longrightarrow> \<exists>t. find_task i d = Some t \<and> holds_claim w t"
  by (auto simp: append_check_def holds_claim_def active_status_def split: option.splits if_splits)

lemma logs_wf_append:
  assumes "logs_wf d" and "l_task_id l \<in> set (ids d)" and "l_id l = log_seq d"
    and "map t_id ts = ids d"
  shows "logs_wf (d\<lparr>log_seq := log_seq d + 1, task_logs := task_logs d @ [l], tasks := ts\<rparr>)"
proof -
  have "set (map t_id ts) = set (ids d)" using assms(4) by (rule arg_cong)
  with assms(1-3) show ?thesis by (auto simp: logs_wf_def sorted_wrt_append)
qed

lemma append_row_wf:
  assumes "db_wf d" and "find_task i d = Some t" and "holds_claim w t"
  shows "\<forall>t \<in> set (sql_update (\<lambda>t. t_id t = i) (heartbeat_row n) (tasks d)). task_wf t"
proof -
  have "heartbeat_row n t' = heartbeat_row n t" if "t' \<in> set (tasks d)" "t_id t' = i" for t'
    using that assms(1,2) find_key_distinct [of t_id "tasks d" t'] by (simp add: db_wf_def)
  moreover have "task_wf (heartbeat_row n t)"
    using assms db_wf_task heartbeat_row_wf holds_claim_active by blast
  ultimately show ?thesis
    using assms(1) by (auto simp: db_wf_def set_sql_update)
qed

lemma append_task_log_db_wf:
  assumes "db_wf d"
  shows "db_wf (snd (append_task_log en w i msg d))"
proof (cases "append_check en w i d")
  case (Inl e)
  with assms show ?thesis by (simp add: append_task_log_def)
next
  case (Inr u)
  then obtain t where t: "find_task i d = Some t" "holds_claim w t"
    using append_check_okD by blast
  have seq: "db_wf (d\<lparr>log_seq := log_seq d + 1\<rparr>)"
    using assms by (auto simp: db_wf_def logs_wf_def)
  have ids: "map t_id (sql_update (\<lambda>t. t_id t = i) (heartbeat_row n) (tasks d)) = ids d" for n
    by (rule map_sql_update) simp
  note rows = append_row_wf [OF assms t]
  from Inr append_commit_state [of en i msg d] assms seq show ?thesis
    by (auto simp: append_task_log_def db_wf_def ids rows simp del: set_map
        intro!: logs_wf_append)
qed

text \<open>DeleteTask.\<close>

lemma delete_task_state:
  "snd (delete_task en i d) = d \<or>
   (\<exists>t \<in> set (tasks d). t_id t = i \<and> idle_status (t_status t)) \<and>
   snd (delete_task en i d) =
     d\<lparr>tasks := filter (\<lambda>t. \<not> (t_id t = i \<and> idle_status (t_status t))) (tasks d),
       task_logs := filter (\<lambda>l. l_task_id l \<noteq> i) (task_logs d)\<rparr>"
  by (auto simp: delete_task_def rows_affected_zero_iff Let_def split: option.splits)

lemma sorted_wrt_filter_map: "sorted_wrt R (map f xs) \<Longrightarrow> sorted_wrt R (map f (filter p xs))"
  by (induction xs) auto

lemma delete_task_db_wf:
  assumes "db_wf d"
  shows "db_wf (snd (delete_task en i d))"
proof -
  have "distinct (map t_id (filter p (tasks d)))" for p
    using assms by (simp add: db_wf_def distinct_map_filter)
  then show ?thesis
    using assms delete_task_state [of en i d]
    by (auto simp: db_wf_def logs_wf_def sorted_wrt_filter_map) (fastforce simp: image_iff)
qed

subsection \<open>Every command keeps the database well-formed\<close>

lemmas row_op_db_wf =
  hb.keeps_db_wf
  progress.keeps_db_wf [where a = "(w, s)" for w s, unfolded prod.case]
  jira.keeps_db_wf [where a = "(w, url)" for w url, unfolded prod.case]
  pr.keeps_db_wf [where a = "(w, url)" for w url, unfolded prod.case]
  success.keeps_db_wf
  failure.keeps_db_wf [where a = "(w, err)" for w err, unfolded prod.case]
  edit.keeps_db_wf
  links.keeps_db_wf [where a = "(j, p)" for j p, unfolded prod.case]
  requeue.keeps_db_wf
  review.keeps_db_wf
  finalize.keeps_db_wf [where a = "(ok, err)" for ok err, unfolded prod.case]

lemma report_result_db_wf: "db_wf d \<Longrightarrow> db_wf (snd (report_result en w i ok err d))"
  by (cases ok) (simp_all add: report_true_err [of en w i err] row_op_db_wf)

lemma exec_db_wf: "db_wf d \<Longrightarrow> db_wf (exec en c d)"
  by (cases c)
    (simp_all add: row_op_db_wf report_result_db_wf create_task_db_wf claim_task_db_wf
      append_task_log_db_wf delete_task_db_wf reap_stale_db_wf)

lemma reachable_db_wf: "reachable d \<Longrightarrow> db_wf d"
  by (induction rule: reachable.induct) (auto simp: db_wf_empty exec_db_wf)

lemma run_db_wf: "db_wf d \<Longrightarrow> db_wf (run cs d)"
  by (induction cs d rule: run.induct) (auto simp: exec_db_wf)

subsection \<open>Properties\<close>

text \<open>C12: The log a task's readers see: ListTaskLogs returns the entries of the task in the order
  they were appended, at most \<open>limit\<close> of them when that is positive, and after a successful
  AppendTaskLog the same list with the new entry at its end.\<close>

theorem task_log_round_trip:
  assumes "db_wf d" and "fault en' k = None" and "row_fault en' k = None"
    and "append_task_log en w i msg d = (Inr entry, d')"
  shows "list_task_logs en' k i limit d = Inr
        ((if limit > 0 then take (nat limit) else id) (filter (\<lambda>l. l_task_id l = i) (task_logs d)))
      \<and> list_task_logs en' k i 0 d' = map_sum id (\<lambda>old. old @ [entry]) (list_task_logs en' k i 0 d)
      \<and> l_message entry = msg \<and> l_task_id entry = i"
proof -
  have read: "list_task_logs en' k i n x = Inr
      ((if n > 0 then take (nat n) else id) (filter (\<lambda>l. l_task_id l = i) (task_logs x)))"
    if "db_wf x" for n x
  proof -
    have "sorted_wrt (<) (map l_id (task_logs x))" using that by (simp add: db_wf_def logs_wf_def)
    then have "sorted (map l_id (task_logs x))"
      by (rule sorted_wrt_mono_rel [rotated]) simp
    then have "sort_key l_id (filter (\<lambda>l. l_task_id l = i) (task_logs x)) =
        filter (\<lambda>l. l_task_id l = i) (task_logs x)"
      by (intro sort_key_id_if_sorted sorted_filter)
    with assms(2,3) show ?thesis by (simp add: list_task_logs_def)
  qed
  have "db_wf d'" using append_task_log_db_wf [OF assms(1), of en w i msg] assms(4) by simp
  moreover have "task_logs d' = task_logs d @ [entry] \<and> l_message entry = msg \<and> l_task_id entry = i"
    using assms(4)
    by (auto simp: append_task_log_def append_commit_def Let_def split: sum.splits option.splits if_splits)
  ultimately show ?thesis using read assms(1) by simp
qed

lemma append_sample:
  "append_task_log (calm 5 0) ''w'' 3 ''hi'' sample_db =
     (Inr \<lparr>l_id = 1, l_task_id = 3, l_message = ''hi'', l_created_at = 5\<rparr>,
      sample_db\<lparr>log_seq := 2, task_logs := [\<lparr>l_id = 1, l_task_id = 3, l_message = ''hi'', l_created_at = 5\<rparr>],
        tasks := sql_update (\<lambda>t. t_id t = 3) (heartbeat_row 5) (tasks sample_db)\<rparr>)"
proof -
  have "3 \<in> set (ids sample_db)" by (simp add: sample_defs)
  then show ?thesis
    by (simp add: append_task_log_def append_check_def append_commit_def sample_find Let_def)
      (simp add: sample_defs active_status_def)
qed

lemma task_log_round_trip_witness:
  "list_task_logs (calm 6 0) 0 3 0 (snd (append_task_log (calm 5 0) ''w'' 3 ''hi'' sample_db)) =
     Inr [\<lparr>l_id = 1, l_task_id = 3, l_message = ''hi'', l_created_at = 5\<rparr>]"
  using task_log_round_trip [OF sample_db_wf _ _ append_sample, of "calm 6 0" 0 0]
  by (simp add: append_sample) (simp add: sample_db_def)

text \<open>C4: Every database the store can produce is well-formed: task ids are unique; an active task
  carries a complete lease, a pending or parked one none; exactly the completed tasks have a
  completion time; no task left pending without a claim; the log's ids increase and each entry
  belongs to an existing task.\<close>

theorem reachable_well_formed:
  assumes "reachable d"
  shows "distinct (ids d)
    \<and> (\<forall>t \<in> set (tasks d).
        (t_status t \<in> {Claimed, InProgress} \<longrightarrow>
           t_claimed_by t \<noteq> None \<and> t_claimed_at t \<noteq> None \<and> t_last_heartbeat_at t \<noteq> None) \<and>
        (t_status t \<in> {Pending, PROpened, ReviewRequested} \<longrightarrow>
           t_claimed_by t = None \<and> t_claimed_at t = None \<and> t_last_heartbeat_at t = None) \<and>
        (t_status t = Completed \<longleftrightarrow> t_completed_at t \<noteq> None) \<and>
        0 \<le> t_attempt_count t \<and> (t_status t \<noteq> Pending \<longrightarrow> 1 \<le> t_attempt_count t))
    \<and> sorted_wrt (<) (map l_id (task_logs d))
    \<and> (\<forall>l \<in> set (task_logs d). l_task_id l \<in> set (ids d))"
  using reachable_db_wf [OF assms]
  by (auto simp: db_wf_def logs_wf_def task_wf_defs)

definition sample_run :: "(env \<times> cmd) list" where
  "sample_run = [(calm 1 9, CreateTask sample_input), (calm 2 0, ClaimTask ''w''),
     (calm 3 0, Heartbeat ''w'' 9)]"

lemma sample_created:
  "create_task (calm n 9) sample_input empty_db =
     (Inr (new_row (calm n 9) sample_input (JObj [(''instructions'', JStr ''go'')]) 3),
      empty_db\<lparr>tasks := [new_row (calm n 9) sample_input (JObj [(''instructions'', JStr ''go'')]) 3]\<rparr>)"
proof -
  have "validate_create_input (nt_payload sample_input) = None"
    using sample_input_ok(1) by (simp add: validate_iff)
  then show ?thesis
    using sample_input_ok(2,3)
    by (simp add: create_task_def empty_db_def int4_def Let_def)
      (simp add: sample_input_def)
qed

lemma reachable_well_formed_witness: "distinct (ids (run sample_run empty_db))"
  using reachable_well_formed [OF reachable_run [OF reachable.start]] by blast

end
