(* ===== verification/Refinement.thy ===== *)
theory Refinement
  imports Lifecycle
begin

section \<open>The store refines the life cycle\<close>

text \<open>
  What one command does to every row, to the map from ids to statuses (\<open>abs_step\<close>, the abstract
  machine), to the log and to the attempt budget. The lemmas about single commands come from
  the contracts \<open>row_op\<close>, \<open>lease_op\<close> and \<open>admin_op\<close> through their interpretations; the
  properties at the end of the theory are about \<open>exec\<close>, \<open>run\<close> and \<open>reachable\<close>.
\<close>

subsection \<open>Rows\<close>

lemma claim_row_step: "t_status t = Pending \<Longrightarrow> row_step t (claim_row w n t)"
  by (simp add: row_defs row_step_def lifecycle_eq_def lifecycle_table)

lemma claim_task_row_steps:
  assumes "distinct (ids d)"
  shows "rel_option row_step (find_task j d) (find_task j (snd (claim_task en w d)))"
proof (cases "claim_candidate en (tasks d)")
  case None
  with assms show ?thesis
    by (simp add: claim_task_eq option.rel_refl split: option.splits)
next
  case (Some c)
  then have c: "c \<in> set (tasks d)" "t_status c = Pending"
    by (auto dest: claimq.pick_Some simp: eligible_def)
  then have "find_task (t_id c) d = Some c" using assms by (simp add: find_key_distinct)
  then have "rel_option row_step (find_task j d)
      (find_task j (d\<lparr>tasks := sql_update (\<lambda>t. t_id t = t_id c) (claim_row w n) (tasks d)\<rparr>))" for n
    using c by (cases "j = t_id c"; cases "find_task j d")
      (auto simp: find_key_sql_update claim_row_step dest: find_key_SomeD)
  with assms Some show ?thesis
    by (simp add: claim_task_eq option.rel_refl split: option.splits)
qed

lemma append_task_log_find:
  "find_task j (snd (append_task_log en w i msg d)) = find_task j d \<or>
   (j = i \<and> (\<exists>t. find_task i d = Some t \<and> holds_claim w t \<and>
      find_task j (snd (append_task_log en w i msg d)) = Some (heartbeat_row (now_at en) t)))"
proof (cases "append_check en w i d")
  case (Inl e)
  then show ?thesis by (simp add: append_task_log_def)
next
  case (Inr u)
  then obtain t where t: "find_task i d = Some t" "holds_claim w t"
    using append_check_okD by blast
  from Inr append_commit_state [of en i msg d] t show ?thesis
    by (cases "j = i"; cases "find_task j d")
      (auto simp: append_task_log_def find_key_sql_update dest: find_key_SomeD)
qed

text \<open>
  \<open>row_frame\<close> is the interface of a relation between a row and its successor that every SET
  list of the workers, the reaper and the parking workflow satisfies; then so does every
  command but the creation, the claim, the edit, the requeue and the deletion.
\<close>

fun operator_cmd :: "cmd \<Rightarrow> bool" where
  "operator_cmd (CreateTask inp) = True"
| "operator_cmd (ClaimTask w) = True"
| "operator_cmd (UpdateTask i inp) = True"
| "operator_cmd (RequeueTask i) = True"
| "operator_cmd (DeleteTask i) = True"
| "operator_cmd c = False"

locale row_frame =
  fixes Q :: "task \<Rightarrow> task \<Rightarrow> bool"
  assumes Q_refl: "Q t t"
    and Q_heartbeat: "active_status (t_status t) \<Longrightarrow> Q t (heartbeat_row n t)"
    and Q_progress: "active_status (t_status t) \<Longrightarrow> Q t (progress_row note n t)"
    and Q_jira: "active_status (t_status t) \<Longrightarrow> Q t (jira_row url n t)"
    and Q_open_pr: "t_status t = InProgress \<Longrightarrow> Q t (open_pr_row pr n t)"
    and Q_complete: "active_status (t_status t) \<Longrightarrow> Q t (complete_row n t)"
    and Q_retry: "active_status (t_status t) \<Longrightarrow> Q t (retry_row err n t)"
    and Q_links: "Q t (links_row j p n t)"
    and Q_review: "t_status t = PROpened \<Longrightarrow> Q t (review_row n t)"
    and Q_finalize: "parked_status (t_status t) \<Longrightarrow> terminal_status s \<Longrightarrow> Q t (finalize_row s e n t)"
begin

lemma heartbeat_frame: "rel_option Q (find_task j d) (find_task j (snd (heartbeat en w i d)))"
  by (rule hb.rows_rel) (simp_all add: Q_refl Q_heartbeat holds_claim_active)

lemma progress_frame:
  "rel_option Q (find_task j d) (find_task j (snd (update_progress en w i txt d)))"
  by (rule progress.rows_rel [where a = "(w, txt)", unfolded prod.case])
    (simp_all add: Q_refl Q_progress holds_claim_active)

lemma jira_frame: "rel_option Q (find_task j d) (find_task j (snd (set_jira_url en w i url d)))"
  by (rule jira.rows_rel [where a = "(w, url)", unfolded prod.case])
    (simp_all add: Q_refl Q_jira holds_claim_active)

lemma open_pr_frame: "rel_option Q (find_task j d) (find_task j (snd (open_pr en w i url d)))"
  by (rule pr.rows_rel [where a = "(w, url)", unfolded prod.case]) (simp_all add: Q_refl Q_open_pr)

lemma report_frame:
  "rel_option Q (find_task j d) (find_task j (snd (report_result en w i ok err d)))"
proof (cases ok)
  case True
  have "rel_option Q (find_task j d) (find_task j (snd (report_result en w i True [] d)))"
    by (rule success.rows_rel) (simp_all add: Q_refl Q_complete holds_claim_active)
  with True show ?thesis by (simp add: report_true_err [of en w i err])
next
  case False
  have "rel_option Q (find_task j d) (find_task j (snd (report_result en w i False err d)))"
    by (rule failure.rows_rel [where a = "(w, err)", unfolded prod.case])
      (simp_all add: Q_refl Q_retry holds_claim_active)
  with False show ?thesis by simp
qed

lemma append_frame:
  "rel_option Q (find_task j d) (find_task j (snd (append_task_log en w i msg d)))"
  using append_task_log_find [of j en w i msg d]
  by (auto simp: option.rel_refl Q_refl Q_heartbeat holds_claim_active)

lemma reap_frame: "rel_option Q (find_task j d) (find_task j (snd (reap_stale en v d)))"
  by (cases "find_task j d") (auto simp: reap_stale_find Q_refl Q_retry dest: stale_active)

lemma links_frame:
  "rel_option Q (find_task i d) (find_task i (snd (update_task_links en k j p d)))"
  by (rule links.rows_rel [where a = "(j, p)", unfolded prod.case]) (simp_all add: Q_refl Q_links)

lemma review_frame: "rel_option Q (find_task j d) (find_task j (snd (request_review en i d)))"
  by (rule review.rows_rel) (simp_all add: Q_refl Q_review)

lemma finalize_frame:
  "rel_option Q (find_task j d) (find_task j (snd (finalize_task en i ok err d)))"
  by (rule finalize.rows_rel [where a = "(ok, err)", unfolded prod.case])
    (simp_all add: Q_refl Q_finalize terminal_status_def)

lemma exec_frame:
  "\<not> operator_cmd c \<Longrightarrow> rel_option Q (find_task j d) (find_task j (exec en c d))"
  by (cases c)
    (simp_all add: heartbeat_frame progress_frame jira_frame open_pr_frame report_frame
      append_frame reap_frame links_frame review_frame finalize_frame)

end

interpretation steps: row_frame row_step
  by unfold_locales (auto simp: rows_step admin_rows_step)

lemma create_task_find:
  "find_task j (snd (create_task en inp d)) = find_task j d \<or>
   find_task j d = None \<and> j = fresh_id en \<and>
     (\<exists>p m. find_task j (snd (create_task en inp d)) = Some (new_row en inp p m) \<and>
        fst (create_task en inp d) = Inr (new_row en inp p m))"
proof (cases "snd (create_task en inp d) = d")
  case False
  then obtain p m where fresh: "fresh_id en \<notin> set (ids d)"
    and out: "fst (create_task en inp d) = Inr (new_row en inp p m)"
    and state: "snd (create_task en inp d) = d\<lparr>tasks := tasks d @ [new_row en inp p m]\<rparr>"
    using create_task_state [of en inp d] by blast
  show ?thesis
  proof (cases "j = fresh_id en")
    case True
    with fresh have "find_task j d = None" by (simp add: find_key_None_iff)
    with True out state show ?thesis by (auto simp: find_key_append)
  next
    case False
    with state show ?thesis by (simp add: find_key_append split: option.split)
  qed
qed simp

lemma delete_task_find:
  assumes "distinct (ids d)"
  shows "find_task j (snd (delete_task en i d)) = find_task j d \<or>
    (j = i \<and> find_task j (snd (delete_task en i d)) = None \<and>
     (\<exists>t. find_task j d = Some t \<and> idle_status (t_status t)))"
  using delete_task_state [of en i d] assms
  by (auto simp: find_key_filter split: option.splits if_splits dest: find_key_SomeD)

text \<open>One command and one row: unchanged or stepped, unless it is created or deleted.\<close>

definition creates :: "cmd \<Rightarrow> bool" where
  "creates c \<longleftrightarrow> (\<exists>inp. c = CreateTask inp)"

lemma exec_row:
  assumes "distinct (ids d)"
  shows "rel_option row_step (find_task j d) (find_task j (exec en c d)) \<or>
    (\<exists>inp t. c = CreateTask inp \<and> j = fresh_id en \<and> find_task j d = None \<and>
       find_task j (exec en c d) = Some t \<and> fst (create_task en inp d) = Inr t \<and>
       t_status t = Pending \<and> t_attempt_count t = 0) \<or>
    (\<exists>t. c = DeleteTask j \<and> find_task j d = Some t \<and> idle_status (t_status t) \<and>
       find_task j (exec en c d) = None)"
proof (cases c)
  case (CreateTask inp)
  then show ?thesis
    using create_task_find [of j en inp d] by (auto simp: option.rel_refl)
next
  case (DeleteTask i)
  then show ?thesis
    using delete_task_find [OF assms, of j en i] by (auto simp: option.rel_refl)
next
  case (UpdateTask i inp)
  then show ?thesis by (simp add: edit.row_steps)
next
  case (RequeueTask i)
  then show ?thesis by (simp add: requeue.row_steps)
qed (simp_all add: claim_task_row_steps [OF assms] steps.exec_frame [of c, simplified]
      steps.heartbeat_frame steps.progress_frame steps.jira_frame steps.open_pr_frame
      steps.report_frame steps.append_frame steps.reap_frame steps.links_frame steps.review_frame
      steps.finalize_frame)

subsection \<open>The abstract machine\<close>

definition status_map :: "db \<Rightarrow> uuid \<Rightarrow> task_status option" where
  "status_map d i = map_option t_status (find_task i d)"

definition abs_step :: "(uuid \<Rightarrow> task_status option) \<Rightarrow> (uuid \<Rightarrow> task_status option) \<Rightarrow> bool" where
  "abs_step m m' \<longleftrightarrow>
     (\<forall>i. case m i of
            None \<Rightarrow> m' i = None \<or> m' i = Some Pending
          | Some s \<Rightarrow> (case m' i of None \<Rightarrow> idle_status s | Some s' \<Rightarrow> lifecycle_eq s s'))"

lemma exec_abs_step: "distinct (ids d) \<Longrightarrow> abs_step (status_map d) (status_map (exec en c d))"
  unfolding abs_step_def
proof
  fix j assume "distinct (ids d)"
  then show "case status_map d j of
      None \<Rightarrow> status_map (exec en c d) j = None \<or> status_map (exec en c d) j = Some Pending
    | Some s \<Rightarrow> (case status_map (exec en c d) j of None \<Rightarrow> idle_status s | Some s' \<Rightarrow> lifecycle_eq s s')"
    using exec_row [of d j en c]
    by (auto simp: status_map_def option_rel_Some1 dest: row_step_edge split: option.splits)
qed

subsection \<open>The log\<close>

definition logs_of :: "uuid \<Rightarrow> db \<Rightarrow> task_log list" where
  "logs_of i d = filter (\<lambda>l. l_task_id l = i) (task_logs d)"

lemmas row_op_logs =
  hb.keeps_logs
  progress.keeps_logs [where a = "(w, s)" for w s, unfolded prod.case]
  jira.keeps_logs [where a = "(w, url)" for w url, unfolded prod.case]
  pr.keeps_logs [where a = "(w, url)" for w url, unfolded prod.case]
  success.keeps_logs
  failure.keeps_logs [where a = "(w, err)" for w err, unfolded prod.case]
  edit.keeps_logs
  links.keeps_logs [where a = "(j, p)" for j p, unfolded prod.case]
  requeue.keeps_logs
  review.keeps_logs
  finalize.keeps_logs [where a = "(ok, err)" for ok err, unfolded prod.case]

lemma report_logs: "task_logs (snd (report_result en w i ok err d)) = task_logs d"
  by (cases ok) (simp_all add: report_true_err [of en w i err] row_op_logs)

lemma claim_logs: "task_logs (snd (claim_task en w d)) = task_logs d"
  by (simp add: claim_task_def exec_update_def Let_def split: option.splits list.splits)

lemma append_task_log_logs:
  "task_logs (snd (append_task_log en w i msg d)) = task_logs d \<or>
   (\<exists>l t. fst (append_task_log en w i msg d) = Inr l \<and> l_task_id l = i \<and> l_message l = msg \<and>
      l_id l = log_seq d \<and> find_task i d = Some t \<and> holds_claim w t \<and>
      task_logs (snd (append_task_log en w i msg d)) = task_logs d @ [l])"
proof (cases "append_check en w i d")
  case (Inr u)
  then obtain t where "find_task i d = Some t" "holds_claim w t"
    using append_check_okD by blast
  with Inr append_commit_state [of en i msg d] show ?thesis
    by (auto simp: append_task_log_def)
qed (simp add: append_task_log_def)

lemma delete_logs:
  "task_logs (snd (delete_task en i d)) = task_logs d \<or>
   find_task i (snd (delete_task en i d)) = None \<or> \<not> distinct (ids d)"
  using delete_task_state [of en i d]
  by (auto simp: find_key_filter find_key_distinct split: option.splits dest: find_key_SomeD)

lemma exec_logs_prefix:
  assumes "distinct (ids d)" and "find_task i (exec en c d) \<noteq> None"
  shows "prefix (logs_of i d) (logs_of i (exec en c d))"
proof (cases c)
  case (AppendTaskLog w j msg)
  then show ?thesis
    using append_task_log_logs [of en w j msg d] by (auto simp: logs_of_def)
next
  case (DeleteTask j)
  show ?thesis
  proof (cases "j = i")
    case True
    with DeleteTask assms show ?thesis
      using delete_logs [of en i d] by (auto simp: logs_of_def)
  next
    case False
    with DeleteTask show ?thesis
      using delete_task_state [of en j d]
      by (auto simp: logs_of_def conj_commute cong: conj_cong)
  qed
next
  case (CreateTask inp)
  then show ?thesis
    using create_task_state [of en inp d] by (auto simp: logs_of_def)
qed (simp_all add: logs_of_def row_op_logs report_logs claim_logs reap_stale_state)

subsection \<open>The attempt budget\<close>

text \<open>
  A pending task has an attempt left, no task used more than its attempts. An edit that sets
  \<open>max_attempts\<close> to a value no larger than the attempts used breaks this, so \<open>respects_budget\<close>
  excludes it.
\<close>

definition in_budget :: "task \<Rightarrow> bool" where
  "in_budget t \<longleftrightarrow> 1 \<le> t_max_attempts t \<and>
     (if t_status t = Pending then t_attempt_count t < t_max_attempts t
      else t_attempt_count t \<le> t_max_attempts t)"

definition respects_budget :: "db \<Rightarrow> cmd \<Rightarrow> bool" where
  "respects_budget d c \<longleftrightarrow>
     (case c of
        UpdateTask i inp \<Rightarrow>
          (case find_task i d of
             None \<Rightarrow> True
           | Some t \<Rightarrow> 1 \<le> ut_max_attempts inp \<and> t_attempt_count t < ut_max_attempts inp)
      | _ \<Rightarrow> True)"

fun budget_run :: "(env \<times> cmd) list \<Rightarrow> db \<Rightarrow> bool" where
  "budget_run [] d = True"
| "budget_run ((en, c) # cs) d = (respects_budget d c \<and> budget_run cs (exec en c d))"

definition keeps_budget :: "task \<Rightarrow> task \<Rightarrow> bool" where
  "keeps_budget t t' \<longleftrightarrow> (in_budget t \<longrightarrow> in_budget t')"

interpretation budget: row_frame keeps_budget
  by unfold_locales
    (auto simp: keeps_budget_def in_budget_def row_defs exhausted_def status_class_defs
      split: if_splits)

lemma claim_in_budget: "in_budget t \<Longrightarrow> t_status t = Pending \<Longrightarrow> in_budget (claim_row w n t)"
  by (simp add: in_budget_def row_defs)

lemma claim_budget:
  assumes "distinct (ids d)" and "\<forall>t \<in> set (tasks d). in_budget t"
  shows "\<forall>t \<in> set (tasks (snd (claim_task en w d))). in_budget t"
proof (cases "claim_candidate en (tasks d)")
  case None
  with assms show ?thesis by (simp add: claim_task_eq split: option.splits)
next
  case (Some c)
  then have c: "c \<in> set (tasks d)" "t_status c = Pending"
    by (auto dest: claimq.pick_Some simp: eligible_def)
  then have "find_task (t_id c) d = Some c" using assms(1) by (simp add: find_key_distinct)
  moreover have "in_budget (claim_row w (now_at en) c)" using c assms(2) by (simp add: claim_in_budget)
  ultimately have "\<forall>t \<in> set (sql_update (\<lambda>t. t_id t = t_id c) (claim_row w (now_at en)) (tasks d)).
      in_budget t"
    using assms by (intro ball_sql_update_key) auto
  with assms Some show ?thesis by (simp add: claim_task_eq split: option.splits)
qed

lemma frame_in_budget:
  assumes "db_wf d" and "\<forall>t \<in> set (tasks d). in_budget t" and "\<not> operator_cmd c"
  shows "\<forall>t \<in> set (tasks (exec en c d)). in_budget t"
proof -
  have "find_task j (exec en c d) = Some t' \<longrightarrow> in_budget t'" for j t'
    using budget.exec_frame [OF assms(3), of j d en] assms(2) find_key_SomeD [of t_id j "tasks d"]
    by (cases "find_task j d") (auto simp: option_rel_Some2 keeps_budget_def)
  then show ?thesis
    by (subst find_key_ball [of t_id]) (auto intro: db_wf_distinct exec_db_wf [OF assms(1)])
qed

lemma exec_in_budget:
  assumes "db_wf d" and "respects_budget d c" and "\<forall>t \<in> set (tasks d). in_budget t"
  shows "\<forall>t \<in> set (tasks (exec en c d)). in_budget t"
proof (cases c)
  case (CreateTask inp)
  then show ?thesis
    using assms(3) create_task_state [of en inp d] by (auto simp: in_budget_def)
next
  case (ClaimTask w)
  then show ?thesis using claim_budget [OF db_wf_distinct [OF assms(1)] assms(3)] by simp
next
  case (UpdateTask i inp)
  have "\<forall>t \<in> set (tasks (snd (update_task en i inp d))). in_budget t"
    using assms(2,3) UpdateTask
    by (intro edit.rows_all)
      (auto simp: respects_budget_def in_budget_def row_defs
        find_key_distinct [OF db_wf_distinct [OF assms(1)]])
  with UpdateTask show ?thesis by simp
next
  case (RequeueTask i)
  have "\<forall>t \<in> set (tasks (snd (requeue_task en i d))). in_budget t"
    using assms(3) by (intro requeue.rows_all) (auto simp: in_budget_def row_defs)
  with RequeueTask show ?thesis by simp
next
  case (DeleteTask i)
  then show ?thesis using assms(3) delete_task_state [of en i d] by auto
qed (use frame_in_budget [OF assms(1,3), of c en] in simp_all)

lemma run_in_budget:
  assumes "db_wf d" and "budget_run cs d" and "\<forall>t \<in> set (tasks d). in_budget t"
  shows "\<forall>t \<in> set (tasks (run cs d)). in_budget t"
  using assms
proof (induction cs d rule: run.induct)
  case (2 en c cs d)
  from "2.prems" have "\<forall>t \<in> set (tasks (exec en c d)). in_budget t"
    by (intro exec_in_budget) auto
  with "2.IH" [OF exec_db_wf [OF "2.prems"(1)]] "2.prems"(2) show ?case by simp
qed simp

subsection \<open>Claims handed out\<close>

text \<open>\<open>handed_out\<close> is the task a command's ClaimTask returned; \<open>claims\<close> counts, along a run, how
  often that was the task \<open>i\<close>.\<close>

definition handed_out :: "env \<Rightarrow> cmd \<Rightarrow> db \<Rightarrow> uuid option" where
  "handed_out en c d =
     (case c of
        ClaimTask w \<Rightarrow> (case fst (claim_task en w d) of Inr (Some t) \<Rightarrow> Some (t_id t) | _ \<Rightarrow> None)
      | _ \<Rightarrow> None)"

fun claims :: "uuid \<Rightarrow> (env \<times> cmd) list \<Rightarrow> db \<Rightarrow> nat" where
  "claims i [] d = 0"
| "claims i ((en, c) # cs) d =
     (if handed_out en c d = Some i then 1 else 0) + claims i cs (exec en c d)"

text \<open>Commands by which an operator changes the task's budget or removes the task.\<close>

fun resets :: "uuid \<Rightarrow> cmd \<Rightarrow> bool" where
  "resets i (UpdateTask j inp) = (j = i)"
| "resets i (RequeueTask j) = (j = i)"
| "resets i (DeleteTask j) = (j = i)"
| "resets i c = False"

definition same_attempts :: "task \<Rightarrow> task \<Rightarrow> bool" where
  "same_attempts t t' \<longleftrightarrow>
     t_attempt_count t' = t_attempt_count t \<and> t_max_attempts t' = t_max_attempts t"

interpretation attempts: row_frame same_attempts
  by unfold_locales (simp_all add: same_attempts_def row_defs)

lemma claim_attempts:
  assumes "distinct (ids d)" and "find_task i d = Some t"
  shows "\<exists>t'. find_task i (snd (claim_task en w d)) = Some t' \<and>
    t_max_attempts t' = t_max_attempts t \<and>
    t_attempt_count t' = t_attempt_count t +
      (if handed_out en (ClaimTask w) d = Some i then 1 else 0)"
proof (cases "claim_candidate en (tasks d)")
  case None
  with assms show ?thesis by (auto simp: claim_task_eq handed_out_def split: option.splits)
next
  case (Some c)
  then have c: "c \<in> set (tasks d)" by (blast dest: claimq.pick_Some)
  then have fc: "find_task (t_id c) d = Some c" using assms(1) by (simp add: find_key_distinct)
  show ?thesis
  proof (cases "i = t_id c")
    case True
    with assms fc have "t = c" by simp
    with True Some assms show ?thesis
      by (auto simp: claim_task_eq handed_out_def find_key_sql_update row_defs split: option.splits)
  next
    case False
    with Some assms show ?thesis
      by (auto simp: claim_task_eq handed_out_def find_key_sql_update dest: find_key_SomeD
          split: option.splits)
  qed
qed

lemma exec_attempts:
  assumes "distinct (ids d)" and "find_task i d = Some t" and "\<not> resets i c"
  shows "\<exists>t'. find_task i (exec en c d) = Some t' \<and> t_max_attempts t' = t_max_attempts t \<and>
    t_attempt_count t' = t_attempt_count t + (if handed_out en c d = Some i then 1 else 0)"
proof (cases "\<exists>w. c = ClaimTask w")
  case True
  then obtain w where "c = ClaimTask w" ..
  then show ?thesis using claim_attempts [OF assms(1,2), of en w] by simp
next
  case False
  then have none: "handed_out en c d = None" by (simp add: handed_out_def split: cmd.splits)
  have "rel_option same_attempts (find_task i d) (find_task i (exec en c d))"
  proof (cases "operator_cmd c")
    case True
    then show ?thesis
    proof (cases c)
      case (CreateTask inp)
      then show ?thesis
        using assms(2) create_task_find [of i en inp d] by (auto simp: attempts.Q_refl)
    next
      case (UpdateTask j inp)
      with assms(2,3) show ?thesis by (simp add: edit.other_rows_kept attempts.Q_refl)
    next
      case (RequeueTask j)
      with assms(2,3) show ?thesis by (simp add: requeue.other_rows_kept attempts.Q_refl)
    next
      case (DeleteTask j)
      with assms(2,3) show ?thesis
        using delete_task_find [OF assms(1), of i en j] by (auto simp: attempts.Q_refl)
    qed (use \<open>\<nexists>w. c = ClaimTask w\<close> in simp_all)
  next
    case False
    then show ?thesis by (rule attempts.exec_frame)
  qed
  with assms(2) none show ?thesis by (auto simp: option_rel_Some1 same_attempts_def)
qed

lemma run_attempts:
  assumes "db_wf d" and "find_task i d = Some t" and "\<forall>(en, c) \<in> set cs. \<not> resets i c"
  shows "\<exists>t'. find_task i (run cs d) = Some t' \<and> t_max_attempts t' = t_max_attempts t \<and>
    t_attempt_count t' = t_attempt_count t + int (claims i cs d)"
  using assms
proof (induction cs d arbitrary: t rule: run.induct)
  case (1 d)
  then show ?case by simp
next
  case (2 en c cs d)
  have dist: "distinct (ids d)" using "2.prems"(1) by (rule db_wf_distinct)
  from exec_attempts [OF dist "2.prems"(2), of c en] "2.prems"(3)
  obtain t' where t': "find_task i (exec en c d) = Some t'" "t_max_attempts t' = t_max_attempts t"
    "t_attempt_count t' = t_attempt_count t + (if handed_out en c d = Some i then 1 else 0)"
    by auto
  from "2.IH" [OF exec_db_wf [OF "2.prems"(1)] t'(1)] "2.prems"(3) t'(2,3) show ?case by auto
qed


subsection \<open>Properties\<close>

text \<open>C3: The store refines the abstract life cycle: whatever one store call does, with whatever
  arguments and database errors, each task's status stays or moves along one edge of the
  life-cycle graph, a task appears only as pending, and disappears only when it was pending,
  completed or failed.\<close>

theorem store_refines_lifecycle:
  assumes "reachable d"
  shows "abs_step (status_map d) (status_map (exec en c d))"
  by (rule exec_abs_step) (rule db_wf_distinct [OF reachable_db_wf [OF assms]])

lemma store_refines_lifecycle_witness:
  "abs_step (status_map (run sample_run empty_db))
     (status_map (exec (calm 9 0) (ReportResult ''w'' 9 True []) (run sample_run empty_db)))"
  by (rule store_refines_lifecycle) (rule reachable_run [OF reachable.start])



text \<open>The task exists after every call of a run.\<close>

fun exists_along :: "uuid \<Rightarrow> (env \<times> cmd) list \<Rightarrow> db \<Rightarrow> bool" where
  "exists_along i [] d = True"
| "exists_along i ((en, c) # cs) d =
     (find_task i (exec en c d) \<noteq> None \<and> exists_along i cs (exec en c d))"

text \<open>C11: The log is append-only: along any run of calls during which the task exists, what its
  log held at the start is a prefix of what it holds in the end.\<close>

theorem log_append_only:
  assumes "reachable d" and "exists_along i cs d"
  shows "prefix (logs_of i d) (logs_of i (run cs d))"
  using assms
proof (induction cs d rule: run.induct)
  case (2 en c cs d)
  have "prefix (logs_of i d) (logs_of i (exec en c d))"
    using "2.prems" by (intro exec_logs_prefix db_wf_distinct reachable_db_wf) auto
  moreover have "prefix (logs_of i (exec en c d)) (logs_of i (run cs (exec en c d)))"
    using "2.prems" by (intro "2.IH" reachable.step) auto
  ultimately show ?case by (auto intro: prefix_order.order_trans)
qed simp

lemma log_append_only_witness:
  "prefix (logs_of 9 empty_db) (logs_of 9 (run [(calm 1 9, CreateTask sample_input)] empty_db))"
proof (rule log_append_only [OF reachable.start])
  show "exists_along 9 [(calm 1 9, CreateTask sample_input)] empty_db"
    using sample_input_ok create_task_spec [where en = "calm 1 9" and en' = "calm 1 9" and k = 0
        and inp = sample_input and d = empty_db]
    by (cases "create_task (calm 1 9) sample_input empty_db")
      (auto simp: empty_db_def split: sum.splits option.splits)
qed

end
