(* ===== verification/Views.thy ===== *)
theory Views
  imports Refinement
begin

section \<open>The store's views: workers, dashboard, agent detail\<close>

text \<open>
  workers.go, dashboard.go and agent_detail.go. A worker exists when a row names it in
  \<open>claimed_by\<close>; \<open>worker_info\<close> is the aggregation of the rows of one group. The insertion sort and
  the reversal loop are translated with their index arithmetic and proved equal to a stable sort
  by \<open>claim_key\<close> and to \<open>rev\<close>. Text columns are ordered by bytes (the C collation). \<open>go_now\<close> is
  the Go process's clock, a \<open>time.Duration\<close> is in nanoseconds, times in microseconds.
\<close>

subsection \<open>Queries\<close>

text \<open>A SELECT whose rows are read to the end, with the check of \<open>rows.Err()\<close>.\<close>

definition query :: "env \<Rightarrow> nat \<Rightarrow> 'r list \<Rightarrow> store_error + 'r list" where
  "query en k rows =
     (case fault en k of
        Some e \<Rightarrow> Inl (DbError e)
      | None \<Rightarrow> (case fetch en k rows of (out, None) \<Rightarrow> Inr out | (_, Some e) \<Rightarrow> Inl (DbError e)))"

lemma query_ok [simp]: "fault en k = None \<Longrightarrow> row_fault en k = None \<Longrightarrow> query en k rows = Inr rows"
  by (simp add: query_def)

text \<open>\<open>MAX(..)\<close>: the largest of the values that are not null.\<close>

fun sql_max :: "time option list \<Rightarrow> time option" where
  "sql_max [] = None"
| "sql_max (None # xs) = sql_max xs"
| "sql_max (Some x # xs) = (case sql_max xs of None \<Rightarrow> Some x | Some y \<Rightarrow> Some (max x y))"

fun coalesce :: "'a option list \<Rightarrow> 'a option" where
  "coalesce [] = None"
| "coalesce (None # xs) = coalesce xs"
| "coalesce (Some x # xs) = Some x"

subsection \<open>ListWorkers\<close>

record worker_info =
  wi_id :: string
  wi_active :: int
  wi_completed :: int
  wi_failed :: int
  wi_last_seen :: "time option"

definition rows_of :: "string \<Rightarrow> db \<Rightarrow> task list" where
  "rows_of w d = filter (\<lambda>t. t_claimed_by t = Some w) (tasks d)"

definition count_rows :: "(task \<Rightarrow> bool) \<Rightarrow> task list \<Rightarrow> int" where
  "count_rows p rows = int (length (filter p rows))"

definition aggregate :: "string \<Rightarrow> task list \<Rightarrow> worker_info" where
  "aggregate w rows =
     \<lparr>wi_id = w,
      wi_active = count_rows (\<lambda>t. active_status (t_status t)) rows,
      wi_completed = count_rows (\<lambda>t. t_status t = Completed) rows,
      wi_failed = count_rows (\<lambda>t. t_status t = Failed) rows,
      wi_last_seen = sql_max
        (map (\<lambda>t. coalesce [t_last_heartbeat_at t, t_claimed_at t, t_completed_at t]) rows)\<rparr>"

definition worker_ids :: "db \<Rightarrow> string list" where
  "worker_ids d = remdups (map (\<lambda>t. the (t_claimed_by t))
     (filter (\<lambda>t. t_claimed_by t \<noteq> None) (tasks d)))"

text \<open>\<open>ORDER BY last_seen_at DESC NULLS LAST, claimed_by ASC\<close>\<close>

definition worker_rank :: "worker_info \<Rightarrow> (nat \<times> int) \<times> string" where
  "worker_rank w =
     (case wi_last_seen w of None \<Rightarrow> (1, 0) | Some t \<Rightarrow> (0, - t), wi_id w)"

definition list_workers :: "env \<Rightarrow> nat \<Rightarrow> db \<Rightarrow> store_error + worker_info list" where
  "list_workers en k d =
     query en k (sort_key worker_rank (map (\<lambda>w. aggregate w (rows_of w d)) (worker_ids d)))"

subsection \<open>Dashboard\<close>

definition less_queue :: "task \<Rightarrow> task \<Rightarrow> bool" where
  "less_queue a b =
     (if t_priority a \<noteq> t_priority b then t_priority a > t_priority b
      else t_created_at a < t_created_at b)"

text \<open>The inner loop of the insertion sort, from index j downwards.\<close>

fun swap_back :: "nat \<Rightarrow> task list \<Rightarrow> task list" where
  "swap_back 0 ts = ts"
| "swap_back (Suc j) ts =
     (if less_queue (ts ! Suc j) (ts ! j)
      then swap_back j (ts[Suc j := ts ! j, j := ts ! Suc j]) else ts)"

definition sort_queue_for_dashboard :: "task list \<Rightarrow> task list" where
  "sort_queue_for_dashboard ts = fold swap_back [1..<length ts] ts"

text \<open>The loop \<open>for i, j := 0, len(out)-1; i < j; i, j = i+1, j-1\<close>.\<close>

function reverse_loop :: "nat \<Rightarrow> nat \<Rightarrow> 'a list \<Rightarrow> 'a list" where
  "reverse_loop i j xs =
     (if i < j then reverse_loop (i + 1) (j - 1) (xs[i := xs ! j, j := xs ! i]) else xs)"
  by pat_completeness auto
termination by (relation "measure (\<lambda>(i, j, xs). j - i)") auto

declare reverse_loop.simps [simp del]

definition recent_task_logs ::
  "env \<Rightarrow> nat \<Rightarrow> uuid \<Rightarrow> int \<Rightarrow> db \<Rightarrow> store_error + task_log list" where
  "recent_task_logs en k i n d =
     (case query en k (take (nat n)
             (sort_key (\<lambda>l. - l_id l) (filter (\<lambda>l. l_task_id l = i) (task_logs d)))) of
        Inl e \<Rightarrow> Inl e
      | Inr out \<Rightarrow> Inr (reverse_loop 0 (length out - 1) out))"

definition newest_claim :: "task \<Rightarrow> nat \<times> int" where
  "newest_claim t = (case t_claimed_at t of None \<Rightarrow> (1, 0) | Some c \<Rightarrow> (0, - c))"

fun first_per_worker :: "task list \<Rightarrow> (string \<rightharpoonup> task) \<Rightarrow> (string \<rightharpoonup> task)" where
  "first_per_worker [] m = m"
| "first_per_worker (t # ts) m =
     first_per_worker ts
       (case t_claimed_by t of
          None \<Rightarrow> m
        | Some w \<Rightarrow> (case m w of None \<Rightarrow> m(w \<mapsto> t) | Some _ \<Rightarrow> m))"

definition active_tasks_by_worker :: "env \<Rightarrow> nat \<Rightarrow> db \<Rightarrow> store_error + (string \<rightharpoonup> task)" where
  "active_tasks_by_worker en k d =
     (case query en k (sort_key newest_claim
             (filter (\<lambda>t. t_claimed_by t \<noteq> None \<and> active_status (t_status t)) (tasks d))) of
        Inl e \<Rightarrow> Inl e
      | Inr rows \<Rightarrow> Inr (first_per_worker rows Map.empty))"

text \<open>\<open>now.Sub(lastSeen) > staleAfter\<close>, in nanoseconds.\<close>

definition is_stale_worker :: "time \<Rightarrow> time option \<Rightarrow> int \<Rightarrow> bool" where
  "is_stale_worker now last_seen stale_after =
     (case last_seen of None \<Rightarrow> True | Some l \<Rightarrow> (now - l) * 1000 > stale_after)"

record dashboard_worker =
  dw_info :: worker_info
  dw_current :: "task option"
  dw_logs :: "task_log list"

record dashboard =
  db_queue :: "task list"
  db_workers :: "dashboard_worker list"
  db_generated :: time

text \<open>The loop over the workers; the k-th statement is the next log query.\<close>

fun dashboard_rows ::
  "env \<Rightarrow> nat \<Rightarrow> time \<Rightarrow> int \<Rightarrow> int \<Rightarrow> (string \<rightharpoonup> task) \<Rightarrow> worker_info list \<Rightarrow> db
     \<Rightarrow> store_error + dashboard_worker list" where
  "dashboard_rows en k now n stale_after current [] d = Inr []"
| "dashboard_rows en k now n stale_after current (w # ws) d =
     (if stale_after > 0 \<and> is_stale_worker now (wi_last_seen w) stale_after
      then dashboard_rows en k now n stale_after current ws d
      else
        (case (case current (wi_id w) of
                 None \<Rightarrow> Inr (\<lparr>dw_info = w, dw_current = None, dw_logs = []\<rparr>, k)
               | Some t \<Rightarrow>
                   if n > 0 then
                     (case recent_task_logs en k (t_id t) n d of
                        Inl e \<Rightarrow> Inl e
                      | Inr ls \<Rightarrow> Inr (\<lparr>dw_info = w, dw_current = Some t, dw_logs = ls\<rparr>, k + 1))
                   else Inr (\<lparr>dw_info = w, dw_current = Some t, dw_logs = []\<rparr>, k)) of
           Inl e \<Rightarrow> Inl e
         | Inr (row, k') \<Rightarrow>
             (case dashboard_rows en k' now n stale_after current ws d of
                Inl e \<Rightarrow> Inl e
              | Inr rows \<Rightarrow> Inr (row # rows))))"

definition get_dashboard :: "env \<Rightarrow> time \<Rightarrow> int \<Rightarrow> int \<Rightarrow> db \<Rightarrow> store_error + dashboard" where
  "get_dashboard en go_now n stale_after d =
     (case list_tasks en \<lparr>f_status = Some (status_string Pending), f_limit = 200, f_offset = 0\<rparr> d of
        Inl e \<Rightarrow> Inl e
      | Inr (items, _) \<Rightarrow>
     (case list_workers en 2 d of
        Inl e \<Rightarrow> Inl e
      | Inr workers \<Rightarrow>
     (case active_tasks_by_worker en 3 d of
        Inl e \<Rightarrow> Inl e
      | Inr current \<Rightarrow>
     (case dashboard_rows en 4 go_now n stale_after current workers d of
        Inl e \<Rightarrow> Inl e
      | Inr rows \<Rightarrow>
          Inr \<lparr>db_queue = sort_queue_for_dashboard items, db_workers = rows,
               db_generated = go_now\<rparr>))))"

subsection \<open>Agent detail\<close>

definition worker_info_of :: "env \<Rightarrow> nat \<Rightarrow> string \<Rightarrow> db \<Rightarrow> store_error + worker_info" where
  "worker_info_of en k w d =
     (case fault en k of
        Some e \<Rightarrow> Inl (DbError e)
      | None \<Rightarrow>
          if rows_of w d = [] then Inl ErrAgentNotFound else Inr (aggregate w (rows_of w d)))"

definition worker_current_task :: "env \<Rightarrow> nat \<Rightarrow> string \<Rightarrow> db \<Rightarrow> store_error + task option" where
  "worker_current_task en k w d =
     (case fault en k of
        Some e \<Rightarrow> Inl (DbError e)
      | None \<Rightarrow>
          (case sort_key newest_claim
                  (filter (\<lambda>t. active_status (t_status t)) (rows_of w d)) of
             [] \<Rightarrow> Inr None
           | t # _ \<Rightarrow> Inr (Some t)))"

definition last_activity :: "task \<Rightarrow> time" where
  "last_activity t =
     max (case t_completed_at t of None \<Rightarrow> 0 | Some c \<Rightarrow> c)
         (case t_claimed_at t of None \<Rightarrow> 0 | Some c \<Rightarrow> c)"

definition worker_recent_tasks ::
  "env \<Rightarrow> nat \<Rightarrow> string \<Rightarrow> int \<Rightarrow> db \<Rightarrow> store_error + (task \<times> time) list" where
  "worker_recent_tasks en k w limit d =
     query en k (take (nat limit)
       (map (\<lambda>t. (t, last_activity t)) (sort_key (\<lambda>t. - last_activity t) (rows_of w d))))"

text \<open>The join of task_logs with tasks: a log line and the name of its task.\<close>

definition joined_logs :: "string \<Rightarrow> db \<Rightarrow> (task_log \<times> string) list" where
  "joined_logs w d = concat (map
     (\<lambda>l. map (\<lambda>t. (l, t_name t)) (filter (\<lambda>t. t_id t = l_task_id l) (rows_of w d))) (task_logs d))"

definition worker_log_tail ::
  "env \<Rightarrow> nat \<Rightarrow> string \<Rightarrow> int \<Rightarrow> db \<Rightarrow> store_error + (task_log \<times> string) list" where
  "worker_log_tail en k w limit d =
     (case query en k (take (nat limit) (sort_key (\<lambda>e. - l_id (fst e)) (joined_logs w d))) of
        Inl e \<Rightarrow> Inl e
      | Inr out \<Rightarrow> Inr (reverse_loop 0 (length out - 1) out))"

record agent_detail =
  ad_info :: worker_info
  ad_current :: "task option"
  ad_recent :: "(task \<times> time) list"
  ad_logs :: "(task_log \<times> string) list"
  ad_generated :: time

definition get_agent_detail ::
  "env \<Rightarrow> time \<Rightarrow> string \<Rightarrow> int \<Rightarrow> int \<Rightarrow> db \<Rightarrow> store_error + agent_detail" where
  "get_agent_detail en go_now w recent_limit log_limit d =
     (let recent_limit = (if recent_limit \<le> 0 then 10 else recent_limit);
          log_limit = (if log_limit \<le> 0 then 500 else log_limit) in
      case worker_info_of en 0 w d of
        Inl e \<Rightarrow> Inl e
      | Inr info \<Rightarrow>
     (case worker_current_task en 1 w d of
        Inl e \<Rightarrow> Inl e
      | Inr current \<Rightarrow>
     (case worker_recent_tasks en 2 w recent_limit d of
        Inl e \<Rightarrow> Inl e
      | Inr recent \<Rightarrow>
     (case worker_log_tail en 3 w log_limit d of
        Inl e \<Rightarrow> Inl e
      | Inr ls \<Rightarrow>
          Inr \<lparr>ad_info = info, ad_current = current, ad_recent = recent, ad_logs = ls,
               ad_generated = go_now\<rparr>))))"

subsection \<open>The insertion sort is a stable sort in the order of the claims\<close>

lemma less_queue_iff: "less_queue a b \<longleftrightarrow> claim_key a < claim_key b"
  by (auto simp: less_queue_def claim_key_def)

text \<open>The inner loop on a reversed sorted prefix.\<close>

fun ins_back :: "task \<Rightarrow> task list \<Rightarrow> task list" where
  "ins_back x [] = [x]"
| "ins_back x (y # ys) = (if claim_key x < claim_key y then y # ins_back x ys else x # y # ys)"

lemma length_ins_back [simp]: "length (ins_back x ys) = Suc (length ys)"
  by (induction ys) auto

lemma mset_ins_back [simp]: "mset (ins_back x ys) = add_mset x (mset ys)"
  by (induction ys) auto

lemma set_ins_back [simp]: "set (ins_back x ys) = insert x (set ys)"
  by (induction ys) auto

lemma sorted_ins_back:
  "sorted_wrt (\<lambda>a b. claim_key b \<le> claim_key a) ys \<Longrightarrow>
     sorted_wrt (\<lambda>a b. claim_key b \<le> claim_key a) (ins_back x ys)"
  by (induction ys) (auto intro: less_imp_le order_trans)

lemma filter_ins_back:
  "filter (\<lambda>y. k = claim_key y) (ins_back x ys) =
     (if k = claim_key x then x # filter (\<lambda>y. k = claim_key y) ys
      else filter (\<lambda>y. k = claim_key y) ys)"
  by (induction ys) auto

lemma swap_back_ins_back:
  "swap_back (length pre) (rev pre @ x # rest) = rev (ins_back x pre) @ rest"
proof (induction pre arbitrary: rest)
  case Nil
  then show ?case by simp
next
  case (Cons y ys)
  have nths: "(rev ys @ y # x # rest) ! Suc (length ys) = x" "(rev ys @ y # x # rest) ! length ys = y"
    by (simp_all add: nth_append)
  have "(rev ys @ y # x # rest)[Suc (length ys) := y, length ys := x] = rev ys @ x # y # rest"
    by (simp add: list_update_append)
  with nths Cons.IH [of "y # rest"] show ?case
    by (simp add: less_queue_iff)
qed

lemma outer_loop:
  "k \<le> length ts \<Longrightarrow>
     fold swap_back [1..<k] ts = rev (fold ins_back (take k ts) []) @ drop k ts"
proof (induction k)
  case 0
  then show ?case by simp
next
  case (Suc k)
  have len: "length (fold ins_back xs ys) = length xs + length ys" for xs ys
    by (induction xs arbitrary: ys) auto
  have hd: "drop k ts = ts ! k # drop (Suc k) ts" using Suc.prems by (simp add: Cons_nth_drop_Suc)
  have step: "swap_back k (rev (fold ins_back (take k ts) []) @ drop k ts) =
      rev (fold ins_back (take (Suc k) ts) []) @ drop (Suc k) ts"
    using swap_back_ins_back [of "fold ins_back (take k ts) []" "ts ! k" "drop (Suc k) ts"] Suc.prems
    by (simp add: hd len take_Suc_conv_app_nth)
  show ?case
  proof (cases "k = 0")
    case True
    with Suc.prems show ?thesis by (cases ts) simp_all
  next
    case False
    with Suc step show ?thesis by simp
  qed
qed

lemma sort_queue_eq: "sort_queue_for_dashboard ts = sort_key claim_key ts"
proof -
  have "mset (fold ins_back xs ys) = mset xs + mset ys" for xs ys
    by (induction xs arbitrary: ys) auto
  moreover have "filter (\<lambda>y. k = claim_key y) (fold ins_back xs ys) =
      rev (filter (\<lambda>y. k = claim_key y) xs) @ filter (\<lambda>y. k = claim_key y) ys" for k xs ys
    by (induction xs arbitrary: ys) (auto simp: filter_ins_back)
  moreover have "sorted_wrt (\<lambda>a b. claim_key b \<le> claim_key a) ys \<Longrightarrow>
      sorted_wrt (\<lambda>a b. claim_key b \<le> claim_key a) (fold ins_back xs ys)" for xs ys
    by (induction xs arbitrary: ys) (auto simp: sorted_ins_back)
  ultimately have "sort_key claim_key ts = rev (fold ins_back ts [])"
    by (intro properties_for_sort_key) (auto simp: rev_filter [symmetric] sorted_wrt_rev sorted_map)
  then show ?thesis using outer_loop [of "length ts" ts] by (simp add: sort_queue_for_dashboard_def)
qed

subsection \<open>The reversal loop\<close>

lemma reverse_loop_nth:
  "j < length xs \<Longrightarrow> length (reverse_loop i j xs) = length xs \<and>
     (\<forall>k < length xs. reverse_loop i j xs ! k = (if i \<le> k \<and> k \<le> j then xs ! (i + j - k) else xs ! k))"
proof (induction i j xs rule: reverse_loop.induct)
  case (1 i j xs)
  show ?case
  proof (cases "i < j")
    case True
    let ?ys = "xs[i := xs ! j, j := xs ! i]"
    from "1.IH" [OF True] "1.prems" have
      ih: "length (reverse_loop (i + 1) (j - 1) ?ys) = length xs"
      "\<And>k. k < length xs \<Longrightarrow> reverse_loop (i + 1) (j - 1) ?ys ! k =
         (if i + 1 \<le> k \<and> k \<le> j - 1 then ?ys ! (i + 1 + (j - 1) - k) else ?ys ! k)"
      by simp_all
    have "?ys ! k = (if k = i then xs ! j else if k = j then xs ! i else xs ! k)"
      if "k < length xs" for k
      using that True "1.prems" by (auto simp: nth_list_update)
    moreover have "i + 1 + (j - 1) - k = i + j - k" for k using True by simp
    ultimately show ?thesis
      using ih True "1.prems" by (subst (1 2) reverse_loop.simps) auto
  next
    case False
    then have "i + j - k = k" if "i \<le> k" "k \<le> j" for k using that by simp
    with False show ?thesis by (subst (1 2) reverse_loop.simps) auto
  qed
qed

lemma reverse_loop_rev: "reverse_loop 0 (length xs - 1) xs = rev xs"
proof (cases "xs = []")
  case True
  then show ?thesis by (simp add: reverse_loop.simps)
next
  case False
  then have "length xs - 1 < length xs" by simp
  from reverse_loop_nth [OF this, of 0] show ?thesis
    by (intro nth_equalityI) (auto simp: rev_nth)
qed

subsection \<open>Properties\<close>

text \<open>C19: The dashboard's insertion sort terminates in the order in which tasks are claimed: it
  permutes the queue so that priorities descend and, for equal priorities, creation times
  ascend, and it keeps the order of tasks equal in both.\<close>

theorem dashboard_sort_correct:
  "mset (sort_queue_for_dashboard ts) = mset ts \<and>
   sorted_wrt (\<lambda>a b. t_priority b < t_priority a \<or>
     (t_priority a = t_priority b \<and> t_created_at a \<le> t_created_at b)) (sort_queue_for_dashboard ts) \<and>
   (\<forall>p c. filter (\<lambda>t. t_priority t = p \<and> t_created_at t = c) (sort_queue_for_dashboard ts) =
      filter (\<lambda>t. t_priority t = p \<and> t_created_at t = c) ts)"
proof (intro conjI allI)
  have "sorted (map claim_key (sort_key claim_key ts))" by simp
  then show "sorted_wrt (\<lambda>a b. t_priority b < t_priority a \<or>
     (t_priority a = t_priority b \<and> t_created_at a \<le> t_created_at b)) (sort_queue_for_dashboard ts)"
    unfolding sort_queue_eq sorted_map
    by (rule sorted_wrt_mono_rel [rotated]) (auto simp: claim_key_def)
  fix p c
  have "filter (\<lambda>t. t_priority t = p \<and> t_created_at t = c) xs = filter (\<lambda>t. claim_key t = (- p, c)) xs" for xs
    by (rule filter_cong) (auto simp: claim_key_def)
  then show "filter (\<lambda>t. t_priority t = p \<and> t_created_at t = c) (sort_queue_for_dashboard ts) =
      filter (\<lambda>t. t_priority t = p \<and> t_created_at t = c) ts"
    by (simp add: sort_queue_eq sort_key_stable)
qed (simp add: sort_queue_eq)

text \<open>C20: The dashboard's queue predicts the claims: with at most 200 pending tasks it shows all of
  them in the order of their claims, so that when all are due and none is locked a ClaimTask
  takes a task that ties with its head, or nothing exactly when the dashboard's queue is empty.\<close>

theorem dashboard_predicts_claim:
  assumes "db_wf d" and "fault en 0 = None" and "fault en 1 = None" and "row_fault en 0 = None"
    and "length (filter (\<lambda>t. t_status t = Pending) (tasks d)) \<le> 200"
    and "\<forall>t \<in> set (tasks d). t_status t = Pending \<longrightarrow> eligible (now_at en) t"
    and "locked_rows en = []" and "\<forall>t \<in> set (tasks d). t_attempt_count t < 2 ^ 31 - 1"
    and "get_dashboard en go_now n stale_after d = Inr dash"
  shows "mset (db_queue dash) = filter_mset (\<lambda>t. t_status t = Pending) (mset (tasks d)) \<and>
    (case fst (claim_task en w d) of
        Inl e \<Rightarrow> False
      | Inr None \<Rightarrow> db_queue dash = []
      | Inr (Some t) \<Rightarrow> db_queue dash \<noteq> [] \<and>
          t_priority t = t_priority (hd (db_queue dash)) \<and>
          t_created_at t = t_created_at (hd (db_queue dash)))"
proof -
  let ?pending = "filter (\<lambda>t. t_status t = Pending) (tasks d)"
  have "list_tasks en \<lparr>f_status = Some (status_string Pending), f_limit = 200, f_offset = 0\<rparr> d =
      Inr (newest_first ?pending, int (length ?pending))"
    using assms(2-5)
    by (simp add: list_tasks_def clamp_limit_def page_def where_status_def newest_first_def Let_def
        del: One_nat_def status_string.simps)
  then have queue: "db_queue dash = sort_key claim_key (newest_first ?pending)"
    using assms(9)
    by (auto simp: get_dashboard_def sort_queue_eq simp del: status_string.simps split: sum.splits)
  then have elems: "mset (db_queue dash) = mset ?pending"
    by (simp add: newest_first_def)
  then have set: "set (db_queue dash) = set ?pending" by (rule mset_eq_setD)
  have ok: "t \<in> set (tasks d) \<Longrightarrow>
      eligible (now_at en) t \<and> t_id t \<notin> set (locked_rows en) \<longleftrightarrow> t_status t = Pending" for t
    using assms(6,7) by (auto simp: eligible_def)
  have "case fst (claim_task en w d) of
        Inl e \<Rightarrow> False
      | Inr None \<Rightarrow> db_queue dash = []
      | Inr (Some t) \<Rightarrow> db_queue dash \<noteq> [] \<and>
          t_priority t = t_priority (hd (db_queue dash)) \<and>
          t_created_at t = t_created_at (hd (db_queue dash))"
  proof (cases "claim_candidate en (tasks d)")
    case None
    then have "?pending = []" using ok claimq.pick_None [of en "tasks d"] by (auto simp: filter_empty_conv)
    with None set assms(1,2) show ?thesis by (simp add: claim_task_eq db_wf_distinct)
  next
    case (Some c)
    then have c: "c \<in> set ?pending" using ok by (auto dest: claimq.pick_Some)
    then obtain h q where hq: "db_queue dash = h # q" using set by (cases "db_queue dash") auto
    have "h \<in> set ?pending" using set hq by auto
    then have "claim_key c \<le> claim_key h"
      using claimq.pick_best [OF Some, of h] ok by auto
    moreover have "claim_key h \<le> claim_key c"
    proof (rule sort_key_hd_least [where f = claim_key])
      show "sort_key claim_key (newest_first ?pending) = h # q" using queue hq by simp
      show "c \<in> set (newest_first ?pending)" using c by (simp add: newest_first_def)
    qed
    ultimately have "claim_key c = claim_key h" by simp
    moreover have "int4 (t_attempt_count c + 1)"
      using assms(1,8) c by (auto simp: db_wf_def task_wf_def int4_def)
    ultimately show ?thesis
      using Some hq assms(1,2) by (simp add: claim_task_eq db_wf_distinct claim_key_def row_defs)
  qed
  with elems show ?thesis by (simp add: mset_filter)
qed

lemma dashboard_sample:
  "\<exists>dash. get_dashboard (calm 1000 0) 1000 0 0 sample_db = Inr dash"
proof -
  have rows: "\<exists>rows. dashboard_rows (calm 1000 0) k 1000 0 0 m ws d = Inr rows" for k m ws d
  proof (induction ws arbitrary: k)
    case (Cons w ws)
    from Cons.IH [of k] show ?case by (auto split: option.splits)
  qed simp
  obtain items n where items: "list_tasks (calm 1000 0)
      \<lparr>f_status = Some (status_string Pending), f_limit = 200, f_offset = 0\<rparr> sample_db = Inr (items, n)"
    by (simp add: list_tasks_def where_status_def Let_def del: status_string.simps)
  obtain ws where ws: "list_workers (calm 1000 0) 2 sample_db = Inr ws"
    by (simp add: list_workers_def)
  obtain m where m: "active_tasks_by_worker (calm 1000 0) 3 sample_db = Inr m"
    by (simp add: active_tasks_by_worker_def)
  obtain rs where "dashboard_rows (calm 1000 0) 4 1000 0 0 m ws sample_db = Inr rs" using rows by blast
  with items ws m show ?thesis by (simp add: get_dashboard_def del: status_string.simps)
qed

lemma dashboard_predicts_claim_witness:
  "\<exists>dash. get_dashboard (calm 1000 0) 1000 0 0 sample_db = Inr dash \<and> length (db_queue dash) = 1"
proof -
  obtain dash where dash: "get_dashboard (calm 1000 0) 1000 0 0 sample_db = Inr dash"
    using dashboard_sample by blast
  have one: "filter (\<lambda>t. t_status t = Pending) (tasks sample_db) = [sample_task 1 Pending]"
    by (simp add: sample_defs)
  have "\<forall>t \<in> set (tasks sample_db). t_status t = Pending \<longrightarrow> eligible (now_at (calm 1000 0)) t"
    by (simp add: sample_defs eligible_def)
  then have "mset (db_queue dash) = filter_mset (\<lambda>t. t_status t = Pending) (mset (tasks sample_db))"
    using dashboard_predicts_claim [OF sample_db_wf _ _ _ _ _ _ sample_attempts_bounds(1) dash]
    by (simp add: one)
  then have "mset (db_queue dash) = mset [sample_task 1 Pending]" by (simp only: mset_filter [symmetric] one)
  then have "length (db_queue dash) = 1" by (metis mset_eq_length length_Cons list.size(3) One_nat_def)
  with dash show ?thesis by blast
qed

text \<open>The workers of the tasks table.\<close>

lemma set_worker_ids: "set (worker_ids d) = {w. \<exists>t \<in> set (tasks d). t_claimed_by t = Some w}"
  by (force simp: worker_ids_def image_iff)

lemma rows_of_empty_iff: "rows_of w d = [] \<longleftrightarrow> w \<notin> set (worker_ids d)"
  by (auto simp: rows_of_def set_worker_ids filter_empty_conv)

lemma aggregate_id [simp]: "wi_id (aggregate w rows) = w"
  by (simp add: aggregate_def)

lemma list_workers_eq:
  assumes "fault en k = None" and "row_fault en k = None"
  obtains ws where "list_workers en k d = Inr ws"
    and "mset ws = mset (map (\<lambda>w. aggregate w (rows_of w d)) (worker_ids d))"
    and "sorted (map worker_rank ws)"
  using assms by (simp add: list_workers_def)

lemma sum_list_int: "(\<Sum>x \<leftarrow> xs. int (f x)) = int (\<Sum>x \<leftarrow> xs. f x)"
  by (induction xs) simp_all

lemma worker_active_sum:
  "(\<Sum>w \<leftarrow> worker_ids d. count_rows p (rows_of w d)) =
     int (length (filter (\<lambda>t. t_claimed_by t \<noteq> None \<and> p t) (tasks d)))"
proof -
  let ?owned = "filter (\<lambda>t. t_claimed_by t \<noteq> None) (tasks d)" and ?f = "\<lambda>t. the (t_claimed_by t)"
  let ?rows = "filter p ?owned"
  have eq: "count_rows p (rows_of w d) = int (length (filter (\<lambda>t. ?f t = w) ?rows))" for w
    unfolding count_rows_def rows_of_def filter_filter
    by (rule arg_cong [where f = "\<lambda>xs. int (length xs)"], rule filter_cong) auto
  have "(\<Sum>w \<leftarrow> worker_ids d. count_rows p (rows_of w d)) =
      int (\<Sum>w \<leftarrow> worker_ids d. length (filter (\<lambda>t. ?f t = w) ?rows))"
    by (simp only: eq sum_list_int)
  also have "\<dots> = int (\<Sum>w \<in> set (worker_ids d). length (filter (\<lambda>t. ?f t = w) ?rows))"
    by (simp add: worker_ids_def sum_list_distinct_conv_sum_set)
  also have "\<dots> = int (length ?rows)"
  proof (rule arg_cong [where f = int], rule length_group_sum)
    show "finite (set (worker_ids d))" by simp
  qed (auto simp: set_worker_ids)
  finally show ?thesis by (simp add: conj_commute)
qed

text \<open>ListWorkers gives every worker that some task names in claimed_by exactly once, with the
  numbers of its active, completed and failed tasks, the most recently seen first and ties by
  id; on a well-formed database the active counts add up to the number of active tasks.\<close>

lemma list_workers_spec:
  assumes "db_wf d" and "fault en k = None" and "row_fault en k = None"
  shows "\<exists>ws. list_workers en k d = Inr ws \<and> distinct (map wi_id ws) \<and>
      (\<forall>w. w \<in> set (map wi_id ws) \<longleftrightarrow> (\<exists>t \<in> set (tasks d). t_claimed_by t = Some w)) \<and>
      (\<forall>i \<in> set ws.
        wi_active i = int (length (filter (\<lambda>t. t_claimed_by t = Some (wi_id i) \<and>
          t_status t \<in> {Claimed, InProgress}) (tasks d))) \<and>
        wi_completed i = int (length (filter (\<lambda>t. t_claimed_by t = Some (wi_id i) \<and>
          t_status t = Completed) (tasks d))) \<and>
        wi_failed i = int (length (filter (\<lambda>t. t_claimed_by t = Some (wi_id i) \<and>
          t_status t = Failed) (tasks d)))) \<and>
      sorted_wrt (\<lambda>a b. case (wi_last_seen a, wi_last_seen b) of
          (None, Some _) \<Rightarrow> False | (Some _, None) \<Rightarrow> True
        | (None, None) \<Rightarrow> wi_id a \<le> wi_id b
        | (Some s, Some t) \<Rightarrow> t < s \<or> (t = s \<and> wi_id a \<le> wi_id b)) ws \<and>
      (\<Sum>i \<leftarrow> ws. wi_active i) =
        int (length (filter (\<lambda>t. t_status t \<in> {Claimed, InProgress}) (tasks d)))"
proof -
  obtain ws where ws: "list_workers en k d = Inr ws"
    and elems: "mset ws = mset (map (\<lambda>w. aggregate w (rows_of w d)) (worker_ids d))"
    and sorted: "sorted (map worker_rank ws)"
    using list_workers_eq [OF assms(2,3)] .
  have "mset (map wi_id ws) = mset (worker_ids d)"
    using arg_cong [OF elems, of "image_mset wi_id"] by (simp add: comp_def flip: mset_map)
  from mset_eq_setD [OF this] mset_eq_imp_distinct_iff [OF this]
  have ids: "set (map wi_id ws) = set (worker_ids d)" "distinct (map wi_id ws)"
    by (simp_all add: worker_ids_def)
  have info: "i = aggregate (wi_id i) (rows_of (wi_id i) d)" if "i \<in> set ws" for i
    using that mset_eq_setD [OF elems] by auto
  have "(\<Sum>i \<leftarrow> ws. wi_active i) = sum_mset (image_mset wi_active (mset ws))"
    by (simp add: sum_mset_sum_list flip: mset_map)
  also have "\<dots> = (\<Sum>w \<leftarrow> worker_ids d. count_rows (\<lambda>t. active_status (t_status t)) (rows_of w d))"
    unfolding elems by (simp add: sum_mset_sum_list aggregate_def comp_def flip: mset_map)
  also have "\<dots> = int (length (filter (\<lambda>t. t_status t \<in> {Claimed, InProgress}) (tasks d)))"
    unfolding worker_active_sum using assms(1)
    by (intro arg_cong [where f = "\<lambda>xs. int (length xs)"] filter_cong)
      (auto simp: db_wf_def task_wf_defs)
  finally have sum: "(\<Sum>i \<leftarrow> ws. wi_active i) =
      int (length (filter (\<lambda>t. t_status t \<in> {Claimed, InProgress}) (tasks d)))" .
  have counts: "wi_active i = int (length (filter (\<lambda>t. t_claimed_by t = Some (wi_id i) \<and>
          t_status t \<in> {Claimed, InProgress}) (tasks d))) \<and>
        wi_completed i = int (length (filter (\<lambda>t. t_claimed_by t = Some (wi_id i) \<and>
          t_status t = Completed) (tasks d))) \<and>
        wi_failed i = int (length (filter (\<lambda>t. t_claimed_by t = Some (wi_id i) \<and>
          t_status t = Failed) (tasks d)))" if "i \<in> set ws" for i
    using arg_cong [OF info [OF that], of wi_active] arg_cong [OF info [OF that], of wi_completed]
      arg_cong [OF info [OF that], of wi_failed]
    by (simp add: aggregate_def count_rows_def rows_of_def active_status_def conj_commute)
  have order: "sorted_wrt (\<lambda>a b. case (wi_last_seen a, wi_last_seen b) of
          (None, Some _) \<Rightarrow> False | (Some _, None) \<Rightarrow> True
        | (None, None) \<Rightarrow> wi_id a \<le> wi_id b
        | (Some s, Some t) \<Rightarrow> t < s \<or> (t = s \<and> wi_id a \<le> wi_id b)) ws"
    using sorted unfolding sorted_map
    by (rule sorted_wrt_mono_rel [rotated])
      (auto simp: worker_rank_def split: option.splits)
  show ?thesis
    using ws ids counts order sum by (intro exI [of _ ws]) (auto simp: set_worker_ids)
qed

text \<open>GetAgentDetail finds exactly the workers that ListWorkers lists, with the same numbers;
  the current task it shows is an active task of the worker, the last one claimed, and there is
  one exactly when the worker's active count is positive; its recent tasks are tasks of the
  worker, the latest activity first.\<close>

lemma agent_detail_spec:
  assumes "\<forall>k. fault en k = None \<and> row_fault en k = None"
  shows "case get_agent_detail en now w m n d of
      Inl e \<Rightarrow> e = ErrAgentNotFound \<and> (\<forall>t \<in> set (tasks d). t_claimed_by t \<noteq> Some w)
    | Inr a \<Rightarrow>
        (\<exists>ws. list_workers en k d = Inr ws \<and> ad_info a \<in> set ws \<and> wi_id (ad_info a) = w) \<and>
        (ad_current a = None \<longleftrightarrow> wi_active (ad_info a) = 0) \<and>
        (\<forall>t. ad_current a = Some t \<longrightarrow>
          t \<in> set (tasks d) \<and> t_claimed_by t = Some w \<and> t_status t \<in> {Claimed, InProgress} \<and>
          (\<forall>u \<in> set (tasks d). t_claimed_by u = Some w \<longrightarrow> t_status u \<in> {Claimed, InProgress} \<longrightarrow>
             newest_claim t \<le> newest_claim u)) \<and>
        (\<forall>(t, l) \<in> set (ad_recent a). t \<in> set (tasks d) \<and> t_claimed_by t = Some w \<and>
          l = last_activity t) \<and>
        sorted_wrt (\<lambda>x y. snd y \<le> snd x) (ad_recent a) \<and>
        length (ad_recent a) \<le> nat (if m \<le> 0 then 10 else m)"
proof (cases "rows_of w d = []")
  case True
  with assms show ?thesis
    by (simp add: get_agent_detail_def worker_info_of_def Let_def rows_of_def filter_empty_conv)
next
  case False
  let ?active = "filter (\<lambda>t. active_status (t_status t)) (rows_of w d)"
  let ?m = "if m \<le> 0 then 10 else m" and ?n = "if n \<le> 0 then 500 else n"
  let ?recent = "take (nat ?m) (map (\<lambda>t. (t, last_activity t)) (sort_key (\<lambda>t. - last_activity t) (rows_of w d)))"
  let ?cur = "case sort_key newest_claim ?active of [] \<Rightarrow> None | t # _ \<Rightarrow> Some t"
  have cur: "worker_current_task en 1 w d = Inr ?cur"
    using assms by (simp add: worker_current_task_def split: list.split)
  obtain ls where ls: "worker_log_tail en 3 w ?n d = Inr ls"
    using assms by (simp add: worker_log_tail_def)
  have info: "worker_info_of en 0 w d = Inr (aggregate w (rows_of w d))"
    using assms False by (simp add: worker_info_of_def)
  have recent: "worker_recent_tasks en 2 w ?m d = Inr ?recent"
    using assms by (simp add: worker_recent_tasks_def)
  have run: "get_agent_detail en now w m n d = Inr \<lparr>ad_info = aggregate w (rows_of w d),
      ad_current = ?cur, ad_recent = ?recent, ad_logs = ls, ad_generated = now\<rparr>"
    unfolding get_agent_detail_def Let_def info cur recent ls by simp
  obtain ws where ws: "list_workers en k d = Inr ws"
      "mset ws = mset (map (\<lambda>w. aggregate w (rows_of w d)) (worker_ids d))"
    using assms list_workers_eq [of en k d] by metis
  have mem: "aggregate w (rows_of w d) \<in> set ws"
    using False mset_eq_setD [OF ws(2)] by (auto simp: rows_of_empty_iff)
  have none: "?cur = None \<longleftrightarrow> ?active = []"
    using sort_key_eq_Nil_iff [of newest_claim ?active]
    by (cases "sort_key newest_claim ?active") (simp_all del: sort_key_eq_Nil_iff)
  have some: "t \<in> set ?active \<and> (\<forall>u \<in> set ?active. newest_claim t \<le> newest_claim u)" if "?cur = Some t" for t
  proof -
    from that obtain q where q: "sort_key newest_claim ?active = t # q"
      by (cases "sort_key newest_claim ?active") auto
    then have "t \<in> set (sort_key newest_claim ?active)" by simp
    then show ?thesis using sort_key_hd_least [OF q] by simp
  qed
  have "sorted (map (\<lambda>t. - last_activity t) (sort_key (\<lambda>t. - last_activity t) (rows_of w d)))" by simp
  then have "sorted_wrt (\<lambda>x y. snd y \<le> snd x)
      (map (\<lambda>t. (t, last_activity t)) (sort_key (\<lambda>t. - last_activity t) (rows_of w d)))"
    by (simp add: sorted_wrt_map sorted_map)
  then have sorted: "sorted_wrt (\<lambda>x y. snd y \<le> snd x) ?recent" by (rule sorted_wrt_take)
  have members: "\<forall>(t, l) \<in> set ?recent. t \<in> set (tasks d) \<and> t_claimed_by t = Some w \<and> l = last_activity t"
    by (auto simp: rows_of_def dest!: in_set_takeD)
  have active: "wi_active (aggregate w (rows_of w d)) = 0 \<longleftrightarrow> ?active = []"
    by (simp add: aggregate_def count_rows_def)
  have elem: "u \<in> set ?active \<longleftrightarrow> u \<in> set (tasks d) \<and> t_claimed_by u = Some w \<and>
      t_status u \<in> {Claimed, InProgress}" for u
    by (auto simp: rows_of_def active_status_def)
  have short: "length ?recent \<le> nat ?m" by simp
  show ?thesis
    unfolding run sum.case agent_detail.simps
  proof (intro conjI allI impI)
    show "\<exists>ws. list_workers en k d = Inr ws \<and> aggregate w (rows_of w d) \<in> set ws \<and>
        wi_id (aggregate w (rows_of w d)) = w"
      using ws(1) mem by simp
    show "?cur = None \<longleftrightarrow> wi_active (aggregate w (rows_of w d)) = 0" using none active by simp
    fix t assume "?cur = Some t"
    from some [OF this] show "t \<in> set (tasks d)" and "t_claimed_by t = Some w"
      and "t_status t \<in> {Claimed, InProgress}"
      and "\<forall>u \<in> set (tasks d). t_claimed_by u = Some w \<longrightarrow> t_status u \<in> {Claimed, InProgress} \<longrightarrow>
             newest_claim t \<le> newest_claim u"
      using elem by blast+
  qed (rule members sorted short)+
qed

text \<open>The log tail of the dashboard: the last n entries of the task, oldest first; the reversal
  loop undoes the descending order of the query.\<close>

lemma recent_task_logs_spec:
  assumes "db_wf d" and "fault en k = None" and "row_fault en k = None" and "0 < n"
  shows "\<exists>earlier out. recent_task_logs en k i n d = Inr out \<and>
    filter (\<lambda>l. l_task_id l = i) (task_logs d) = earlier @ out \<and>
    (if earlier = [] then length out \<le> nat n else length out = nat n)"
proof -
  let ?log = "filter (\<lambda>l. l_task_id l = i) (task_logs d)"
  have "sorted_wrt (<) (map l_id (task_logs d))" using assms(1) by (simp add: db_wf_def logs_wf_def)
  then have sorted: "sorted_wrt (<) (map l_id ?log)" by (rule sorted_wrt_filter_map)
  have "sort_key (\<lambda>l. - l_id l) ?log = rev ?log"
  proof (rule sort_key_inj_key_eq)
    have "distinct (map l_id ?log)" using sorted strict_sorted_iff by blast
    then show "inj_on (\<lambda>l. - l_id l) (set ?log)" by (auto simp: distinct_map inj_on_def)
    show "sorted (map (\<lambda>l. - l_id l) (rev ?log))"
      using sorted unfolding sorted_map sorted_wrt_map sorted_wrt_rev
      by (rule sorted_wrt_mono_rel [rotated]) simp
  qed simp
  then have "recent_task_logs en k i n d = Inr (rev (take (nat n) (rev ?log)))"
    by (simp only: recent_task_logs_def query_ok [OF assms(2,3)] sum.case reverse_loop_rev)
  then have "recent_task_logs en k i n d = Inr (drop (length ?log - nat n) ?log)"
    by (simp add: take_rev)
  moreover have "take (length ?log - nat n) ?log = [] \<or> length (drop (length ?log - nat n) ?log) = nat n"
    by (cases "nat n < length ?log") simp_all
  moreover have "length (drop (length ?log - nat n) ?log) \<le> nat n" by simp
  ultimately show ?thesis
    by (metis append_take_drop_id)
qed

lemma recent_task_logs_spec_witness:
  "\<exists>out. recent_task_logs (calm 5 0) 0 3 20 sample_db = Inr out \<and> length out \<le> 20"
  using recent_task_logs_spec [OF sample_db_wf, of "calm 5 0" 0 20 3] by (auto split: if_splits)

end
