(* ===== verification/Go_Text.thy ===== *)
theory Go_Text
  imports Prelude "HOL-Library.Char_ord"
begin

section \<open>Text functions of Go's standard library\<close>

text \<open>
  What the front ends use of strconv and strings on byte strings: \<open>strconv.Itoa\<close> (also the verb
  %d of fmt), \<open>strconv.Atoi\<close>, \<open>strings.Cut\<close> and \<open>strings.TrimSuffix\<close>. An \<open>int\<close> has 64 bits.
\<close>

subsection \<open>Decimal integers\<close>

definition digit :: "nat \<Rightarrow> char" where
  "digit n = char_of (48 + n)"

definition digit_val :: "char \<Rightarrow> nat option" where
  "digit_val c = (let n = of_char c in if 48 \<le> n \<and> n \<le> 57 then Some (n - 48) else None)"

fun nat_digits :: "nat \<Rightarrow> string" where
  "nat_digits n = (if n < 10 then [digit n] else nat_digits (n div 10) @ [digit (n mod 10)])"

declare nat_digits.simps [simp del]

definition itoa :: "int \<Rightarrow> string" where
  "itoa i = (if i < 0 then CHR ''-'' # nat_digits (nat (- i)) else nat_digits (nat i))"

fun digits_val :: "string \<Rightarrow> nat \<Rightarrow> nat option" where
  "digits_val [] acc = Some acc"
| "digits_val (c # cs) acc =
     (case digit_val c of None \<Rightarrow> None | Some d \<Rightarrow> digits_val cs (acc * 10 + d))"

definition go_int :: "int \<Rightarrow> bool" where
  "go_int i \<longleftrightarrow> - (2 ^ 63) \<le> i \<and> i < 2 ^ 63"

text \<open>Arithmetic on an \<open>int\<close> wraps.\<close>

definition to_int64 :: "int \<Rightarrow> int" where
  "to_int64 i = (i + 2 ^ 63) mod 2 ^ 64 - 2 ^ 63"

lemma to_int64_id: "go_int i \<Longrightarrow> to_int64 i = i"
  by (simp add: to_int64_def go_int_def)

definition split_sign :: "string \<Rightarrow> bool \<times> string" where
  "split_sign s =
     (case s of
        [] \<Rightarrow> (False, [])
      | c # r \<Rightarrow> if c = CHR ''-'' then (True, r) else if c = CHR ''+'' then (False, r) else (False, s))"

definition atoi :: "string \<Rightarrow> int option" where
  "atoi s =
     (case split_sign s of (neg, body) \<Rightarrow>
        if body = [] then None
        else case digits_val body 0 of
          None \<Rightarrow> None
        | Some n \<Rightarrow>
            let i = (if neg then - int n else int n) in if go_int i then Some i else None)"

lemma digit_val_digit [simp]: "n < 10 \<Longrightarrow> digit_val (digit n) = Some n"
  by (simp add: digit_val_def digit_def of_char_of take_bit_eq_mod Let_def)

lemma digits_val_append:
  "digits_val (xs @ ys) acc =
     (case digits_val xs acc of None \<Rightarrow> None | Some n \<Rightarrow> digits_val ys n)"
  by (induction xs arbitrary: acc) (auto split: option.splits)

lemma digits_val_nat_digits: "\<exists>k. \<forall>acc. digits_val (nat_digits n) acc = Some (acc * 10 ^ k + n)"
proof (induction n rule: nat_digits.induct)
  case (1 n)
  show ?case
  proof (cases "n < 10")
    case True
    then show ?thesis by (intro exI [of _ 1]) (simp add: nat_digits.simps [of n])
  next
    case False
    with 1 obtain k where "\<forall>acc. digits_val (nat_digits (n div 10)) acc = Some (acc * 10 ^ k + n div 10)"
      by blast
    with False show ?thesis
      by (intro exI [of _ "Suc k"])
        (simp add: nat_digits.simps [of n] digits_val_append algebra_simps)
  qed
qed

lemma nat_digits_head: "\<exists>d ds. nat_digits n = digit d # ds \<and> d < 10"
proof (induction n rule: nat_digits.induct)
  case (1 n)
  then show ?case
    by (cases "n < 10") (auto simp: nat_digits.simps [of n])
qed

lemma digit_not_sign: "d < 10 \<Longrightarrow> digit d \<noteq> CHR ''-'' \<and> digit d \<noteq> CHR ''+''"
  using digit_val_digit [of d] by (auto simp: digit_val_def Let_def)

lemma atoi_itoa: "go_int i \<Longrightarrow> atoi (itoa i) = Some i"
proof -
  assume i: "go_int i"
  define n where "n = nat \<bar>i\<bar>"
  obtain d ds where head: "nat_digits n = digit d # ds" "d < 10" using nat_digits_head by blast
  have val: "digits_val (digit d # ds) 0 = Some n"
    using digits_val_nat_digits [of n] head(1) by (metis add_0 mult_0)
  show ?thesis
  proof (cases "i < 0")
    case True
    then have "itoa i = CHR ''-'' # digit d # ds" using head by (simp add: itoa_def n_def)
    with val True i show ?thesis by (simp add: atoi_def split_sign_def Let_def n_def del: digits_val.simps)
  next
    case False
    then have "itoa i = digit d # ds" using head by (simp add: itoa_def n_def)
    with val False i digit_not_sign [OF head(2)] show ?thesis
      by (simp add: atoi_def split_sign_def Let_def n_def del: digits_val.simps)
  qed
qed

lemma itoa_nonempty [simp]: "itoa i \<noteq> []"
  using nat_digits_head [of "nat i"] by (auto simp: itoa_def)

subsection \<open>Strings\<close>

text \<open>\<open>strings.Cut(s, "/")\<close> at a one-byte separator: what is before and after its first occurrence.\<close>

definition cut_at :: "char \<Rightarrow> string \<Rightarrow> string \<times> string" where
  "cut_at c s = (takeWhile (\<lambda>x. x \<noteq> c) s, drop 1 (dropWhile (\<lambda>x. x \<noteq> c) s))"

definition trim_suffix :: "string \<Rightarrow> string \<Rightarrow> string" where
  "trim_suffix s p = rev (trim_prefix (rev s) (rev p))"

lemma cut_at_append: "c \<notin> set a \<Longrightarrow> cut_at c (a @ c # b) = (a, b)"
proof -
  assume c: "c \<notin> set a"
  then have "\<And>x. x \<in> set a \<Longrightarrow> x \<noteq> c" by auto
  then show ?thesis
    by (simp add: cut_at_def takeWhile_append2 dropWhile_append2)
qed

lemma cut_at_none: "c \<notin> set a \<Longrightarrow> cut_at c a = (a, [])"
proof -
  assume "c \<notin> set a"
  then have "\<forall>x \<in> set a. x \<noteq> c" by auto
  then have all: "dropWhile (\<lambda>x. x \<noteq> c) a = []" "takeWhile (\<lambda>x. x \<noteq> c) a = a"
    by (simp_all only: dropWhile_eq_Nil_conv takeWhile_eq_all_conv)
  show ?thesis unfolding cut_at_def all by simp
qed

text \<open>A dash between spaces, in messages.\<close>

definition em_dash :: string where
  "em_dash = [CHR '' '', CHR 0xE2, CHR 0x80, CHR 0x94, CHR '' '']"

end
