(* ===== verification/Store_Sql.thy ===== *)
theory Store_Sql
  imports Admin_Ops Go_Text
begin

section \<open>The text of the page query\<close>

text \<open>
  ListTasks of store/tasks.go is the only method that puts its SQL together at run time: the WHERE
  clause is optional, so the placeholders of LIMIT and OFFSET move. \<open>page_query\<close> is the text with its
  arguments, as that code builds them, where the hand-written itoa panics (\<open>None\<close>) beyond one digit.
  \<open>Admin_Ops.list_tasks\<close> is what the query means.
\<close>

definition task_columns :: "string list" where
  "task_columns =
     [''id'', ''name'', ''payload'', ''priority'', ''status'', ''scheduled_for'',
      ''attempt_count'', ''max_attempts'', ''claimed_by'', ''claimed_at'', ''last_heartbeat_at'',
      ''completed_at'', ''last_error'', ''progress_note'', ''jira_url'', ''github_pr_url'',
      ''created_at'', ''updated_at'']"

definition store_itoa :: "int \<Rightarrow> string option" where
  "store_itoa i = (if i < 0 \<or> 9 < i then None else Some [char_of (48 + nat i)])"

datatype sql_arg = TextArg string | IntArg int

datatype sql_word = Columns "string list" | Sql string

definition page_query :: "list_filter \<Rightarrow> (sql_word list \<times> sql_arg list) option" where
  "page_query f =
     (let limit = clamp_limit (f_limit f);
          clause = (case f_status f of None \<Rightarrow> [] | Some _ \<Rightarrow> ''WHERE status = $1'');
          args = (case f_status f of None \<Rightarrow> [] | Some st \<Rightarrow> [TextArg st]);
          args = args @ [IntArg limit];
          limit_idx = int (length args);
          args = args @ [IntArg (f_offset f)];
          offset_idx = int (length args)
      in case (store_itoa limit_idx, store_itoa offset_idx) of
           (Some l, Some k) \<Rightarrow>
             Some ([Sql ''SELECT '', Columns task_columns, Sql '' FROM tasks '', Sql clause,
               Sql '' ORDER BY created_at DESC LIMIT $'', Sql l, Sql '' OFFSET $'', Sql k], args)
         | _ \<Rightarrow> None)"

text \<open>The panic is not reachable, and every placeholder names its argument.\<close>

definition nth_arg :: "sql_arg list \<Rightarrow> string \<Rightarrow> sql_arg option" where
  "nth_arg args digits =
     (case atoi digits of
        None \<Rightarrow> None
      | Some i \<Rightarrow> if 1 \<le> i \<and> nat i \<le> length args then Some (args ! (nat i - 1)) else None)"

lemma page_query_placeholders:
  "\<exists>clause l k args. page_query f =
      Some ([Sql ''SELECT '', Columns task_columns, Sql '' FROM tasks '', Sql clause,
        Sql '' ORDER BY created_at DESC LIMIT $'', Sql l, Sql '' OFFSET $'', Sql k], args) \<and>
    nth_arg args l = Some (IntArg (clamp_limit (f_limit f))) \<and> nth_arg args k = Some (IntArg (f_offset f)) \<and>
    (case f_status f of None \<Rightarrow> clause = [] | Some st \<Rightarrow> nth_arg args ''1'' = Some (TextArg st))"
proof -
  have "atoi [char_of (49 :: nat)] = Some 1" "atoi [char_of (50 :: nat)] = Some 2"
    "atoi [char_of (51 :: nat)] = Some 3" "atoi ''1'' = Some 1"
    by code_simp+
  then show ?thesis
    by (cases "f_status f") (simp_all add: page_query_def store_itoa_def nth_arg_def Let_def)
qed

end
