(* ===== verification/Grpc_Worker.thy ===== *)
theory Grpc_Worker
  imports Refinement
begin

section \<open>The workers' RPCs, the metrics and the reaper's loop\<close>

text \<open>
  grpcserver/server.go, metrics/metrics.go and reaper/reaper.go. \<open>sys\<close> is mastermind: the
  database and the Prometheus collectors; a handler returns a gRPC status or its response, and
  the new system. A request is the arguments of the handler; an unset protobuf field is the
  field's zero value. github.com/google/uuid is not part of the sources: \<open>uuid.Parse\<close> is the
  argument \<open>parse\<close>, \<open>UUID.String\<close> the argument \<open>show_id\<close>. Of a formatted status message the
  model keeps the constant prefix, the text of the wrapped error is left out.
\<close>

datatype code =
  InvalidArgument | NotFound | FailedPrecondition | Internal | Unimplemented | Unauthenticated
  | Unavailable

type_synonym rpc_error = "code \<times> string"

subsection \<open>Metrics\<close>

record metrics =
  claims_success :: int
  claims_empty :: int
  claims_error :: int
  completed_total :: int
  failed_reported :: int
  failed_reaped :: int
  reaped_total :: int
  pending_gauge :: int
  claim_observations :: int

definition zero_metrics :: metrics where
  "zero_metrics = \<lparr>claims_success = 0, claims_empty = 0, claims_error = 0, completed_total = 0,
     failed_reported = 0, failed_reaped = 0, reaped_total = 0, pending_gauge = 0,
     claim_observations = 0\<rparr>"

record sys =
  sys_db :: db
  sys_metrics :: metrics

named_theorems rpc_defs \<open>definitions of the gRPC handlers\<close>

subsection \<open>Handlers\<close>

record wire_task =
  w_id :: string
  w_name :: string
  w_payload :: json

definition rpc_claim ::
  "(uuid \<Rightarrow> string) \<Rightarrow> env \<Rightarrow> string \<Rightarrow> sys \<Rightarrow> (rpc_error + wire_task) \<times> sys" where
  [rpc_defs]: "rpc_claim show_id en w s =
     (if w = [] then (Inl (InvalidArgument, ''worker_id is required''), s)
      else
        let (res, d') = claim_task en w (sys_db s);
            ms = (sys_metrics s)\<lparr>claim_observations := claim_observations (sys_metrics s) + 1\<rparr>
        in case res of
             Inl e \<Rightarrow> (Inl (Internal, ''claim: ''),
               \<lparr>sys_db = d', sys_metrics = ms\<lparr>claims_error := claims_error ms + 1\<rparr>\<rparr>)
           | Inr None \<Rightarrow> (Inl (NotFound, ''no tasks available''),
               \<lparr>sys_db = d', sys_metrics = ms\<lparr>claims_empty := claims_empty ms + 1\<rparr>\<rparr>)
           | Inr (Some t) \<Rightarrow>
               (Inr \<lparr>w_id = show_id (t_id t), w_name = t_name t, w_payload = t_payload t\<rparr>,
                \<lparr>sys_db = d', sys_metrics = ms\<lparr>claims_success := claims_success ms + 1\<rparr>\<rparr>))"

definition not_owner :: rpc_error where
  "not_owner = (FailedPrecondition, ''not the current owner of this task'')"

definition bad_task_id :: rpc_error where
  "bad_task_id = (InvalidArgument, ''task_id must be a UUID'')"

definition no_worker_id :: rpc_error where
  "no_worker_id = (InvalidArgument, ''worker_id is required'')"

text \<open>The reply to a store call without a value: \<open>classify\<close> maps the store's errors.\<close>

definition reply ::
  "(store_error \<Rightarrow> rpc_error) \<Rightarrow> sys \<Rightarrow> (store_error + 'a) \<times> db \<Rightarrow> (rpc_error + 'a) \<times> sys" where
  "reply classify s res = (map_sum classify id (fst res), s\<lparr>sys_db := snd res\<rparr>)"

definition owner_or_internal :: "string \<Rightarrow> store_error \<Rightarrow> rpc_error" where
  "owner_or_internal what e = (if e = ErrNotOwner then not_owner else (Internal, what))"

definition rpc_heartbeat ::
  "(string \<Rightarrow> uuid option) \<Rightarrow> env \<Rightarrow> string \<Rightarrow> string \<Rightarrow> sys \<Rightarrow> (rpc_error + unit) \<times> sys" where
  [rpc_defs]: "rpc_heartbeat parse en w tid s =
     (case parse tid of
        None \<Rightarrow> (Inl bad_task_id, s)
      | Some i \<Rightarrow> reply (owner_or_internal ''heartbeat: '') s (heartbeat en w i (sys_db s)))"

definition task_not_found :: "string \<Rightarrow> rpc_error" where
  "task_not_found tid = (NotFound, ''task '' @ tid @ '' not found'')"

definition rpc_append_log ::
  "(string \<Rightarrow> uuid option) \<Rightarrow> (uuid \<Rightarrow> string) \<Rightarrow> env \<Rightarrow> string \<Rightarrow> string \<Rightarrow> string \<Rightarrow> sys
     \<Rightarrow> (rpc_error + int) \<times> sys" where
  [rpc_defs]: "rpc_append_log parse show_id en w tid msg s =
     (if w = [] then (Inl no_worker_id, s)
      else if msg = [] then (Inl (InvalidArgument, ''message is required''), s)
      else case parse tid of
        None \<Rightarrow> (Inl bad_task_id, s)
      | Some i \<Rightarrow>
          (case reply
              (\<lambda>e. if e = ErrNotFound then task_not_found (show_id i)
                   else owner_or_internal ''append_log: '' e)
              s (append_task_log en w i msg (sys_db s)) of
             (Inl e, s') \<Rightarrow> (Inl e, s')
           | (Inr entry, s') \<Rightarrow> (Inr (l_id entry), s')))"

definition rpc_update_progress ::
  "(string \<Rightarrow> uuid option) \<Rightarrow> env \<Rightarrow> string \<Rightarrow> string \<Rightarrow> string \<Rightarrow> sys
     \<Rightarrow> (rpc_error + unit) \<times> sys" where
  [rpc_defs]: "rpc_update_progress parse en w tid txt s =
     (if w = [] then (Inl no_worker_id, s)
      else case parse tid of
        None \<Rightarrow> (Inl bad_task_id, s)
      | Some i \<Rightarrow>
          reply (owner_or_internal ''update_progress: '') s
            (update_progress en w i txt (sys_db s)))"

datatype outcome = NoOutcome | OutcomeSuccess | OutcomeFailure string

definition rpc_report_result ::
  "(string \<Rightarrow> uuid option) \<Rightarrow> env \<Rightarrow> string \<Rightarrow> string \<Rightarrow> outcome \<Rightarrow> sys
     \<Rightarrow> (rpc_error + unit) \<times> sys" where
  [rpc_defs]: "rpc_report_result parse en w tid out s =
     (case parse tid of
        None \<Rightarrow> (Inl bad_task_id, s)
      | Some i \<Rightarrow>
          (case out of
             NoOutcome \<Rightarrow>
               (Inl (InvalidArgument, ''outcome is required (success or failure)''), s)
           | _ \<Rightarrow>
               let success = (out = OutcomeSuccess);
                   err = (case out of OutcomeFailure m \<Rightarrow> m | _ \<Rightarrow> [])
               in (case reply (owner_or_internal ''report: '') s
                         (report_result en w i success err (sys_db s)) of
                     (Inl e, s') \<Rightarrow> (Inl e, s')
                   | (Inr terminal, s') \<Rightarrow>
                       let ms = sys_metrics s' in
                       (Inr (), s'\<lparr>sys_metrics :=
                          (if success then ms\<lparr>completed_total := completed_total ms + 1\<rparr>
                           else if terminal then ms\<lparr>failed_reported := failed_reported ms + 1\<rparr>
                           else ms)\<rparr>))))"

definition rpc_set_jira_url ::
  "(string \<Rightarrow> uuid option) \<Rightarrow> env \<Rightarrow> string \<Rightarrow> string \<Rightarrow> string \<Rightarrow> sys
     \<Rightarrow> (rpc_error + unit) \<times> sys" where
  [rpc_defs]: "rpc_set_jira_url parse en w tid url s =
     (if w = [] then (Inl no_worker_id, s)
      else case parse tid of
        None \<Rightarrow> (Inl bad_task_id, s)
      | Some i \<Rightarrow>
          reply (owner_or_internal ''set_jira_url: '') s (set_jira_url en w i url (sys_db s)))"

definition no_pr_url :: rpc_error where
  "no_pr_url = (InvalidArgument, ''github_pr_url is required'')"

definition rpc_open_pr ::
  "(string \<Rightarrow> uuid option) \<Rightarrow> env \<Rightarrow> string \<Rightarrow> string \<Rightarrow> string \<Rightarrow> sys
     \<Rightarrow> (rpc_error + unit) \<times> sys" where
  [rpc_defs]: "rpc_open_pr parse en w tid url s =
     (if w = [] then (Inl no_worker_id, s)
      else if url = [] then (Inl no_pr_url, s)
      else case parse tid of
        None \<Rightarrow> (Inl bad_task_id, s)
      | Some i \<Rightarrow>
          reply
            (\<lambda>e. if e = ErrNotOwner
                 then (FailedPrecondition, ''not the current owner of this task or task not in_progress'')
                 else if e = ErrEmptyPRURL then no_pr_url
                 else (Internal, ''open_pr: ''))
            s (open_pr en w i url (sys_db s)))"

subsection \<open>The reaper and the pending gauge\<close>

text \<open>One tick of \<open>Reaper.Run\<close>; the log lines are not modelled.\<close>

definition reaper_tick :: "env \<Rightarrow> int \<Rightarrow> sys \<Rightarrow> sys" where
  "reaper_tick en visibility s =
     (case reap_stale en visibility (sys_db s) of
        (Inl e, d') \<Rightarrow> s\<lparr>sys_db := d'\<rparr>
      | (Inr out, d') \<Rightarrow>
          let n = requeued out + reaped_failed out; ms = sys_metrics s in
          if n > 0
          then \<lparr>sys_db = d',
                sys_metrics =
                  (let ms = ms\<lparr>reaped_total := reaped_total ms + n\<rparr> in
                   if reaped_failed out > 0
                   then ms\<lparr>failed_reaped := failed_reaped ms + reaped_failed out\<rparr> else ms)\<rparr>
          else s\<lparr>sys_db := d'\<rparr>)"

text \<open>\<open>Reaper.Run\<close>: the ticks until the context is cancelled, each with its own environment.\<close>

fun reaper_run :: "env list \<Rightarrow> int \<Rightarrow> sys \<Rightarrow> sys" where
  "reaper_run [] visibility s = s"
| "reaper_run (en # ens) visibility s = reaper_run ens visibility (reaper_tick en visibility s)"

text \<open>One tick of \<open>samplePending\<close> (cmd/mastermind/main.go).\<close>

definition sample_pending :: "env \<Rightarrow> sys \<Rightarrow> sys" where
  "sample_pending en s =
     (case count_pending en (sys_db s) of
        Inl e \<Rightarrow> s
      | Inr n \<Rightarrow> s\<lparr>sys_metrics := (sys_metrics s)\<lparr>pending_gauge := n\<rparr>\<rparr>)"

subsection \<open>Properties\<close>

lemma reply_simps [simp]:
  "fst (reply c s (Inl e, d)) = Inl (c e)" "fst (reply c s (Inr r, d)) = Inr r"
  "snd (reply c s (x, d)) = s\<lparr>sys_db := d\<rparr>"
  by (simp_all add: reply_def)

text \<open>C14: What a worker sees after it lost its claim (or never had it): every RPC on the task
  answers FAILED_PRECONDITION, except a log line for a deleted task, which answers NOT_FOUND,
  and mastermind's database and metrics stay as they are.\<close>

theorem lost_claim_rpcs:
  assumes "distinct (ids (sys_db s))" and "\<forall>k. fault en k = None" and "w \<noteq> []" and "msg \<noteq> []"
    and "url \<noteq> []" and "parse tid = Some i" and "out \<noteq> NoOutcome"
    and "\<forall>t. find_task i (sys_db s) = Some t \<longrightarrow>
      \<not> (t_claimed_by t = Some w \<and> t_status t \<in> {Claimed, InProgress})"
  shows "rpc_heartbeat parse en w tid s = (Inl not_owner, s)
    \<and> rpc_update_progress parse en w tid text s = (Inl not_owner, s)
    \<and> rpc_set_jira_url parse en w tid jira s = (Inl not_owner, s)
    \<and> rpc_report_result parse en w tid out s = (Inl not_owner, s)
    \<and> (\<exists>m. rpc_open_pr parse en w tid url s = (Inl (FailedPrecondition, m), s))
    \<and> rpc_append_log parse shw en w tid msg s =
        (Inl (if find_task i (sys_db s) = None then task_not_found (shw i) else not_owner), s)"
proof -
  note fenced = lease_ops_unheld [OF assms(1,2,5,8)]
  show ?thesis
    using assms(3-7) by (cases out) (simp_all add: fenced rpc_defs reply_def owner_or_internal_def)
qed

lemma lost_claim_rpcs_witness:
  "rpc_heartbeat (\<lambda>_. Some 3) (calm 5 0) ''other'' ''id'' \<lparr>sys_db = sample_db, sys_metrics = zero_metrics\<rparr> =
     (Inl not_owner, \<lparr>sys_db = sample_db, sys_metrics = zero_metrics\<rparr>)"
  using lost_claim_rpcs [where s = "\<lparr>sys_db = sample_db, sys_metrics = zero_metrics\<rparr>"
      and en = "calm 5 0" and w = "''other''" and msg = "''m''" and url = "''u''" and i = 3
      and parse = "\<lambda>_. Some 3" and out = OutcomeSuccess and tid = "''id''"]
    db_wf_distinct [OF sample_db_wf]
  by (simp add: sample_find sample_task_def active_status_def)

text \<open>How many tasks have a status.\<close>

definition status_count :: "task_status \<Rightarrow> db \<Rightarrow> int" where
  "status_count st d = int (length (filter (\<lambda>t. t_status t = st) (tasks d)))"

lemma status_count_update:
  "status_count st (d\<lparr>tasks := sql_update p f (tasks d)\<rparr>) = status_count st d
     - int (length (filter (\<lambda>t. p t \<and> t_status t = st) (tasks d)))
     + int (length (filter (\<lambda>t. p t \<and> t_status (f t) = st) (tasks d)))"
proof -
  have "length (filter (\<lambda>t. t_status t = st) (sql_update p f rows))
      + length (filter (\<lambda>t. p t \<and> t_status t = st) rows) =
      length (filter (\<lambda>t. t_status t = st) rows)
      + length (filter (\<lambda>t. p t \<and> t_status (f t) = st) rows)" for rows
    by (induction rows) (auto simp: sql_update_Cons)
  then show ?thesis by (simp add: status_count_def algebra_simps flip: of_nat_add)
qed

lemma status_count_update_one:
  assumes "distinct (ids d)" and "find_task i d = Some t" and "p t"
    and "\<And>u. p u \<Longrightarrow> t_id u = i"
  shows "status_count st (d\<lparr>tasks := sql_update p f (tasks d)\<rparr>) = status_count st d
     - (if t_status t = st then 1 else 0) + (if t_status (f t) = st then 1 else 0)"
proof -
  have t: "t \<in> set (tasks d)" "t_id t = i" using assms(2) by (auto dest: find_key_SomeD)
  have "filter (\<lambda>u. p u \<and> q u) (tasks d) = (if q t then [t] else [])" for q
  proof -
    have "filter (\<lambda>u. p u \<and> q u) (tasks d) = filter (\<lambda>u. t_id u = i \<and> (p u \<and> q u)) (tasks d)"
      using assms(4) by (intro filter_cong) auto
    then show ?thesis using filter_key [OF assms(1) t] assms(3) by simp
  qed
  then show ?thesis by (simp add: status_count_update)
qed

lemma held_count:
  assumes "distinct (ids d)" and "find_task i d = Some t" and "holds_claim w t"
    and "\<not> active_status st"
  shows "status_count st (d\<lparr>tasks := sql_update (\<lambda>t. t_id t = i \<and> holds_claim w t) f (tasks d)\<rparr>) =
    status_count st d + (if t_status (f t) = st then 1 else 0)"
proof -
  have "t_id t = i" and "t_status t \<noteq> st"
    using assms by (auto dest: find_key_SomeD holds_claim_active)
  with assms(3) show ?thesis
    by (subst status_count_update_one [OF assms(1,2)]) simp_all
qed

lemma report_error_unchanged:
  assumes "report_result en w i ok err d = (Inl e, d')"
  shows "d' = d"
proof (cases ok)
  case True
  then have "report_result en w i True [] d = (Inl e, d')"
    using assms by (simp add: report_true_err [of en w i err])
  then show ?thesis using success.failed_unchanged [where a = w and en = en and i = i and d = d] by simp
next
  case False
  then show ?thesis
    using assms failure.failed_unchanged [where a = "(w, err)" and en = en and i = i and d = d] by simp
qed

lemma report_counts:
  assumes "distinct (ids d)" and "report_result en w i ok err d = (Inr b, d')"
  shows "status_count Completed d' = status_count Completed d + (if ok then 1 else 0)"
    and "status_count Failed d' = status_count Failed d + (if \<not> ok \<and> b then 1 else 0)"
proof -
  have "status_count Completed d' = status_count Completed d + (if ok then 1 else 0) \<and>
    status_count Failed d' = status_count Failed d + (if \<not> ok \<and> b then 1 else 0)"
  proof (cases ok)
    case True
    then have run: "report_result en w i True [] d = (Inr b, d')"
      using assms(2) by (simp add: report_true_err [of en w i err])
    with success.success_held [OF assms(1), where a = w and en = en and i = i]
    obtain t where t: "find_task i d = Some t" "holds_claim w t" by auto
    have "fault en 0 = None" using run success.op_ok [where a = w and en = en and i = i and d = d] by auto
    with run success.op_state [where a = w and en = en and i = i and d = d]
    have "d' = d\<lparr>tasks := sql_update (\<lambda>t. t_id t = i \<and> holds_claim w t) (complete_row (now_at en)) (tasks d)\<rparr>"
      by simp
    with t True show ?thesis
      by (simp add: held_count [OF assms(1) t] active_status_def row_defs)
  next
    case False
    then have run: "report_result en w i False err d = (Inr b, d')" using assms(2) by simp
    with failure.success_held [OF assms(1), where a = "(w, err)" and en = en and i = i]
    obtain t where t: "find_task i d = Some t" "holds_claim w t" by auto
    have runs: "retry_runs w en i d" using run failure.op_ok [where a = "(w, err)" and en = en and i = i and d = d] by auto
    with t have "retry_in_range t" and "fault en 0 = None"
      by (auto simp: retry_runs_def list_all_iff dest: find_key_SomeD)
    then have b: "b = exhausted t" using report_failure_held [OF assms(1) t, of en err] run by simp
    from runs run failure.op_state [where a = "(w, err)" and en = en and i = i and d = d]
    have "d' = d\<lparr>tasks := sql_update (\<lambda>t. t_id t = i \<and> holds_claim w t) (retry_row err (now_at en)) (tasks d)\<rparr>"
      by simp
    with t False b show ?thesis
      by (simp add: held_count [OF assms(1) t] active_status_def row_defs)
  qed
  then show "status_count Completed d' = status_count Completed d + (if ok then 1 else 0)"
    and "status_count Failed d' = status_count Failed d + (if \<not> ok \<and> b then 1 else 0)" by auto
qed

text \<open>The counters of results are exact: whatever a ReportResult RPC does (errors included),
  tasks_completed_total grows by the number of tasks that became completed and
  tasks_failed_total with reason "reported" by the number that became failed; a retry counts as
  neither, and no other collector changes.\<close>

lemma report_counters:
  assumes "distinct (ids (sys_db s))" and "rpc_report_result parse en w tid out s = (r, s')"
  shows "sys_metrics s' = (sys_metrics s)
    \<lparr>completed_total := completed_total (sys_metrics s) +
       (status_count Completed (sys_db s') - status_count Completed (sys_db s)),
     failed_reported := failed_reported (sys_metrics s) +
       (status_count Failed (sys_db s') - status_count Failed (sys_db s))\<rparr>"
proof (cases "parse tid")
  case None
  with assms(2) show ?thesis by (auto simp: rpc_report_result_def)
next
  case (Some i)
  show ?thesis
  proof (cases "out = NoOutcome")
    case True
    with assms(2) Some show ?thesis by (auto simp: rpc_report_result_def)
  next
    case False
    define ok err where "ok = (out = OutcomeSuccess)"
      and "err = (case out of OutcomeFailure m \<Rightarrow> m | _ \<Rightarrow> [])"
    obtain x d' where run: "report_result en w i ok err (sys_db s) = (x, d')" by force
    have rpc: "rpc_report_result parse en w tid out s =
        (case x of
           Inl e \<Rightarrow> (Inl (owner_or_internal ''report: '' e), s\<lparr>sys_db := d'\<rparr>)
         | Inr terminal \<Rightarrow>
             (Inr (), s\<lparr>sys_db := d', sys_metrics :=
                (if ok then (sys_metrics s)\<lparr>completed_total := completed_total (sys_metrics s) + 1\<rparr>
                 else if terminal
                 then (sys_metrics s)\<lparr>failed_reported := failed_reported (sys_metrics s) + 1\<rparr>
                 else sys_metrics s)\<rparr>))"
      using Some False run
      by (cases out; cases x) (simp_all add: rpc_report_result_def ok_def err_def reply_def Let_def)
    show ?thesis
    proof (cases x)
      case (Inl e)
      with run report_error_unchanged have "d' = sys_db s" by blast
      with rpc Inl assms(2) show ?thesis by auto
    next
      case (Inr b)
      with report_counts [OF assms(1) run [unfolded Inr]] rpc assms(2) show ?thesis
        by (cases ok; cases b) auto
    qed
  qed
qed

lemma reap_counts:
  assumes "row_fault en 0 = None" and "reap_stale en v d = (Inr out, d')"
  shows "requeued out + reaped_failed out =
      (status_count Claimed d + status_count InProgress d) -
      (status_count Claimed d' + status_count InProgress d')"
    and "reaped_failed out = status_count Failed d' - status_count Failed d"
    and "0 \<le> reaped_failed out" and "0 \<le> requeued out"
proof -
  let ?p = "stale (now_at en) (microseconds v)" and ?f = "retry_row lease_expired (now_at en)"
  have out: "requeued out = int (length (filter (\<lambda>t. ?p t \<and> \<not> exhausted t) (tasks d)))"
      "reaped_failed out = int (length (filter (\<lambda>t. ?p t \<and> exhausted t) (tasks d)))"
    and d': "d' = d\<lparr>tasks := sql_update ?p ?f (tasks d)\<rparr>"
    using assms reap_stale_counts [of en v d out] reap_stale_state [of en v d]
    by (auto simp: reap_runs_def)
  have st: "t_status (?f t) = (if exhausted t then Failed else Pending)" for t
    by (simp add: row_defs)
  have fails: "?p t \<and> t_status (?f t) = Failed \<longleftrightarrow> ?p t \<and> exhausted t" for t
    by (simp add: st)
  have active: "?p t \<longleftrightarrow> ?p t \<and> t_status t = Claimed \<or> ?p t \<and> t_status t = InProgress" for t
    by (auto simp: stale_def active_status_def)
  have split: "length (filter ?p rows) = length (filter (\<lambda>t. ?p t \<and> t_status t = Claimed) rows)
      + length (filter (\<lambda>t. ?p t \<and> t_status t = InProgress) rows)"
    "length (filter ?p rows) = length (filter (\<lambda>t. ?p t \<and> exhausted t) rows)
      + length (filter (\<lambda>t. ?p t \<and> \<not> exhausted t) rows)" for rows
    using active by (induction rows) auto
  have none: "filter (\<lambda>t. ?p t \<and> t_status t = Failed) rows = []" for rows
    by (auto simp: filter_empty_conv stale_def active_status_def)
  show "requeued out + reaped_failed out =
      (status_count Claimed d + status_count InProgress d) -
      (status_count Claimed d' + status_count InProgress d')"
    using split [of "tasks d"] by (simp add: d' out status_count_update st)
  show "reaped_failed out = status_count Failed d' - status_count Failed d"
    by (simp add: d' out status_count_update fails none)
  show "0 \<le> reaped_failed out" and "0 \<le> requeued out" by (simp_all add: out)
qed

lemma reaper_tick_exact:
  assumes "row_fault en 0 = None"
  shows "let s' = reaper_tick en v s in
      reaped_total (sys_metrics s') - reaped_total (sys_metrics s) =
        (status_count Claimed (sys_db s) + status_count InProgress (sys_db s)) -
        (status_count Claimed (sys_db s') + status_count InProgress (sys_db s')) \<and>
      failed_reaped (sys_metrics s') - failed_reaped (sys_metrics s) =
        status_count Failed (sys_db s') - status_count Failed (sys_db s)"
proof (cases "reap_stale en v (sys_db s)")
  case (Pair r d')
  show ?thesis
  proof (cases r)
    case (Inl e)
    with Pair reap_error_unchanged [OF assms] have "d' = sys_db s" by blast
    with Pair Inl show ?thesis by (simp add: reaper_tick_def)
  next
    case (Inr out)
    with reap_counts [OF assms, of v "sys_db s" out d'] Pair show ?thesis
      by (auto simp: reaper_tick_def Let_def)
  qed
qed

text \<open>The reaper's counters are exact: over any number of ticks tasks_reaped_total grows by the
  leases it ended (the tasks that stop being active) and tasks_failed_total with reason "reaped"
  by the tasks it failed.\<close>

lemma reaper_counters:
  assumes "\<forall>en \<in> set ens. row_fault en 0 = None"
  shows "let s' = reaper_run ens v s in
      reaped_total (sys_metrics s') - reaped_total (sys_metrics s) =
        (status_count Claimed (sys_db s) + status_count InProgress (sys_db s)) -
        (status_count Claimed (sys_db s') + status_count InProgress (sys_db s')) \<and>
      failed_reaped (sys_metrics s') - failed_reaped (sys_metrics s) =
        status_count Failed (sys_db s') - status_count Failed (sys_db s)"
  using assms
proof (induction ens arbitrary: s)
  case Nil
  then show ?case by simp
next
  case (Cons en ens)
  have "let s' = reaper_tick en v s in
      reaped_total (sys_metrics s') - reaped_total (sys_metrics s) =
        (status_count Claimed (sys_db s) + status_count InProgress (sys_db s)) -
        (status_count Claimed (sys_db s') + status_count InProgress (sys_db s')) \<and>
      failed_reaped (sys_metrics s') - failed_reaped (sys_metrics s) =
        status_count Failed (sys_db s') - status_count Failed (sys_db s)"
    using Cons.prems by (intro reaper_tick_exact) simp
  with Cons.IH [of "reaper_tick en v s"] Cons.prems show ?case
    by (simp add: Let_def)
qed

text \<open>C15: The counters are exact. Whatever a ReportResult RPC does (errors included),
  tasks_completed_total grows by the number of tasks that became completed and tasks_failed_total
  with reason "reported" by the number that became failed; a retry counts as neither, and no other
  collector changes. Over any number of ticks of the reaper tasks_reaped_total grows by the leases
  it ended (the tasks that stop being active) and tasks_failed_total with reason "reaped" by the
  tasks it failed.\<close>

theorem counters_exact:
  assumes "distinct (ids (sys_db s))" and "rpc_report_result parse en w tid out s = (r, s')"
    and "\<forall>en \<in> set ens. row_fault en 0 = None" and "reaper_run ens v s = s''"
  shows "sys_metrics s' = (sys_metrics s)
      \<lparr>completed_total := completed_total (sys_metrics s) +
         (status_count Completed (sys_db s') - status_count Completed (sys_db s)),
       failed_reported := failed_reported (sys_metrics s) +
         (status_count Failed (sys_db s') - status_count Failed (sys_db s))\<rparr> \<and>
    reaped_total (sys_metrics s'') - reaped_total (sys_metrics s) =
      (status_count Claimed (sys_db s) + status_count InProgress (sys_db s)) -
      (status_count Claimed (sys_db s'') + status_count InProgress (sys_db s'')) \<and>
    failed_reaped (sys_metrics s'') - failed_reaped (sys_metrics s) =
      status_count Failed (sys_db s'') - status_count Failed (sys_db s)"
  using report_counters [OF assms(1,2)] reaper_counters [OF assms(3), of v s] assms(4)
  by (simp add: Let_def)

lemma counters_exact_witness:
  "completed_total (sys_metrics (snd (rpc_report_result (\<lambda>_. Some 3) (calm 5 0) ''w'' ''id''
     OutcomeSuccess \<lparr>sys_db = sample_db, sys_metrics = zero_metrics\<rparr>))) =
   status_count Completed (sys_db (snd (rpc_report_result (\<lambda>_. Some 3) (calm 5 0) ''w'' ''id''
     OutcomeSuccess \<lparr>sys_db = sample_db, sys_metrics = zero_metrics\<rparr>))) - 1"
proof -
  let ?s = "\<lparr>sys_db = sample_db, sys_metrics = zero_metrics\<rparr>"
  have "distinct (ids (sys_db ?s))" using db_wf_distinct [OF sample_db_wf] by simp
  moreover have "status_count Completed sample_db = 1"
    by (simp add: status_count_def sample_defs)
  ultimately show ?thesis
    using counters_exact [of ?s "\<lambda>_. Some 3" "calm 5 0" "''w''" "''id''" OutcomeSuccess,
        OF _ surjective_pairing _ HOL.refl, of "[calm 9000000 0]"]
    by (simp add: zero_metrics_def)
qed

end
