(* ===== verification/Auth.thy ===== *)
theory Auth
  imports Grpc_Worker
begin

section \<open>Authentication\<close>

text \<open>
  auth/grpc.go, auth/http.go and the policy table of cmd/mastermind/main.go. \<open>metadata\<close> is what
  \<open>metadata.FromIncomingContext\<close> gives: absent, or the values of each (lower-case) key. A handler
  is a function of the system; an interceptor runs it or answers a status without running it.
  \<open>subtle.ConstantTimeCompare\<close> is equality of the bytes. \<open>interceptor\<close> is the contract of both
  gRPC interceptors: the handler runs exactly for the accepted calls, any other call is refused
  and leaves the system unchanged.
\<close>

type_synonym metadata = "(string \<Rightarrow> string list) option"

type_synonym 'r handler = "sys \<Rightarrow> (rpc_error + 'r) \<times> sys"

subsection \<open>Interceptors\<close>

definition authorization :: string where
  "authorization = ''authorization''"

definition bearer_prefix :: string where
  "bearer_prefix = ''Bearer ''"

definition bearer_interceptor :: "string \<Rightarrow> metadata \<Rightarrow> 'r handler \<Rightarrow> 'r handler" where
  "bearer_interceptor expected md handler s =
     (case md of
        None \<Rightarrow> (Inl (Unauthenticated, ''missing metadata''), s)
      | Some m \<Rightarrow>
          (case m authorization of
             [] \<Rightarrow> (Inl (Unauthenticated, ''missing authorization header''), s)
           | v # _ \<Rightarrow>
               if trim_prefix v bearer_prefix \<noteq> expected
               then (Inl (Unauthenticated, ''invalid token''), s)
               else handler s))"

definition per_method_interceptor ::
  "(string \<Rightarrow> string option) \<Rightarrow> string \<Rightarrow> metadata \<Rightarrow> 'r handler \<Rightarrow> 'r handler" where
  "per_method_interceptor policy full_method md handler s =
     (case policy full_method of
        None \<Rightarrow> (Inl (Unimplemented, ''method '' @ full_method @ '' has no auth policy''), s)
      | Some expected \<Rightarrow>
     (case md of
        None \<Rightarrow> (Inl (Unauthenticated, ''missing metadata''), s)
      | Some m \<Rightarrow>
          (case m authorization of
             [] \<Rightarrow> (Inl (Unauthenticated, ''missing authorization header''), s)
           | v # _ \<Rightarrow>
               if trim_prefix v bearer_prefix \<noteq> expected
               then (Inl (Unauthenticated, ''invalid token''), s)
               else handler s)))"

text \<open>The per-RPC credentials of a client.\<close>

definition bearer_metadata :: "string \<Rightarrow> metadata" where
  "bearer_metadata token =
     Some (\<lambda>k. if k = authorization then [bearer_prefix @ token] else [])"

text \<open>The middleware of the pages; \<open>refusal\<close> is its 401 response.\<close>

definition basic_auth ::
  "'r \<Rightarrow> string \<Rightarrow> string \<Rightarrow> (string \<times> string) option \<Rightarrow> ('s \<Rightarrow> 'r \<times> 's) \<Rightarrow> 's \<Rightarrow> 'r \<times> 's" where
  "basic_auth refusal user password credentials next_handler s =
     (case credentials of
        None \<Rightarrow> (refusal, s)
      | Some (u, p) \<Rightarrow> if u \<noteq> user \<or> p \<noteq> password then (refusal, s) else next_handler s)"

subsection \<open>The policy of mastermind\<close>

definition task_service :: "string \<Rightarrow> string" where
  "task_service m = ''/elpulpo.tasks.v1.TaskService/'' @ m"

definition admin_service :: "string \<Rightarrow> string" where
  "admin_service m = ''/elpulpo.tasks.v1.AdminService/'' @ m"

definition worker_methods :: "string list" where
  "worker_methods = [''ClaimTask'', ''Heartbeat'', ''ReportResult'', ''UpdateProgress'',
     ''AppendLog'', ''SetJiraURL'', ''OpenPR'']"

definition admin_methods :: "string list" where
  "admin_methods = [''CreateTask'', ''GetTask'', ''ListTasks'', ''ListTaskLogs'', ''CancelTask'',
     ''RetryTask'', ''ListWorkers'', ''RequestReview'', ''FinalizeTask'']"

definition auth_policy :: "string \<Rightarrow> string \<Rightarrow> string \<Rightarrow> string option" where
  "auth_policy worker_token admin_token = map_of
     (map (\<lambda>m. (task_service m, worker_token)) worker_methods @
      map (\<lambda>m. (admin_service m, admin_token)) admin_methods)"

subsection \<open>The contract of an interceptor\<close>

locale interceptor =
  fixes guarded :: "metadata \<Rightarrow> 'r handler \<Rightarrow> 'r handler"
    and accepts :: "metadata \<Rightarrow> bool"
  assumes accepted: "accepts md \<Longrightarrow> guarded md handler s = handler s"
    and refused: "\<not> accepts md \<Longrightarrow>
      \<exists>c m. guarded md handler s = (Inl (c, m), s) \<and> c \<in> {Unauthenticated, Unimplemented}"
begin

lemma refused_state: "\<not> accepts md \<Longrightarrow> snd (guarded md handler s) = s"
  using refused [of md handler s] by auto

text \<open>A guarded handler keeps what the handler keeps.\<close>

lemma keeps:
  assumes "P s" and "accepts md \<Longrightarrow> P (snd (handler s))"
  shows "P (snd (guarded md handler s))"
  using assms by (cases "accepts md") (simp_all add: accepted refused_state)

lemma effect_accepted: "snd (guarded md handler s) \<noteq> s \<Longrightarrow> accepts md"
  using refused_state by blast

end

text \<open>The first value of the authorization key, with or without the prefix, is the token.\<close>

definition presents :: "metadata \<Rightarrow> string \<Rightarrow> bool" where
  "presents md token \<longleftrightarrow>
     (\<exists>m v vs. md = Some m \<and> m authorization = v # vs \<and> trim_prefix v bearer_prefix = token)"

interpretation bearer: interceptor "bearer_interceptor expected" "\<lambda>md. presents md expected"
  for expected
  by unfold_locales
    (auto simp: bearer_interceptor_def presents_def split: option.splits list.splits)

interpretation per_method: interceptor "per_method_interceptor policy full_method"
  "\<lambda>md. \<exists>token. policy full_method = Some token \<and> presents md token" for policy full_method
  by unfold_locales
    (auto simp: per_method_interceptor_def presents_def split: option.splits list.splits)

lemma bearer_metadata_presents [simp]: "presents (bearer_metadata token) expected \<longleftrightarrow> token = expected"
  by (simp add: presents_def bearer_metadata_def)

lemma policy_methods:
  "auth_policy wt at (task_service m) = (if m \<in> set worker_methods then Some wt else None)"
  "auth_policy wt at (admin_service m) = (if m \<in> set admin_methods then Some at else None)"
proof -
  have ne: "task_service x \<noteq> admin_service y" for x y
    by (simp add: task_service_def admin_service_def)
  have inj: "inj task_service" "inj admin_service"
    by (auto simp: inj_def task_service_def admin_service_def)
  have none: "map_of (map (\<lambda>m. (task_service m, v)) ms) (admin_service k) = None"
    "map_of (map (\<lambda>m. (admin_service m, v)) ms) (task_service k) = None" for ms v k
    using ne ne [symmetric] by (auto simp: map_of_eq_None_iff)
  have found: "map_of (map (\<lambda>m. (f m, v)) ms) (f k) = (if k \<in> set ms then Some v else None)"
    if "inj f" for f :: "string \<Rightarrow> string" and ms v k
    using that by (induction ms) (auto dest: injD)
  show "auth_policy wt at (task_service m) = (if m \<in> set worker_methods then Some wt else None)"
    by (simp add: auth_policy_def map_add_def none found [OF inj(1)])
  show "auth_policy wt at (admin_service m) = (if m \<in> set admin_methods then Some at else None)"
    by (simp add: auth_policy_def map_add_def none found [OF inj(2)])
qed

end
