(* ===== verification/Grpc_Admin.thy ===== *)
theory Grpc_Admin
  imports Grpc_Worker Views
begin

section \<open>The operators' RPCs\<close>

text \<open>
  grpcserver/admin.go. \<open>task_detail\<close> is the protobuf TaskDetail, where a NULL text column is the
  empty string. Limits, offsets and counts of the protocol are int32 values; the conversions
  \<open>int32(..)\<close> of the responses are \<open>to_int32\<close>. GetTask after RequestReview and FinalizeTask is a
  second transaction: its statement is the third of the handler's environment.
\<close>

subsection \<open>Responses\<close>

record task_detail =
  td_id :: string
  td_name :: string
  td_payload :: json
  td_priority :: int
  td_status :: string
  td_scheduled_for :: "time option"
  td_attempt_count :: int
  td_max_attempts :: int
  td_claimed_by :: string
  td_claimed_at :: "time option"
  td_last_heartbeat_at :: "time option"
  td_completed_at :: "time option"
  td_last_error :: string
  td_jira_url :: string
  td_github_pr_url :: string
  td_created_at :: time
  td_updated_at :: time

definition or_empty :: "string option \<Rightarrow> string" where
  "or_empty s = (case s of None \<Rightarrow> [] | Some x \<Rightarrow> x)"

definition to_task_detail :: "(uuid \<Rightarrow> string) \<Rightarrow> task \<Rightarrow> task_detail" where
  "to_task_detail show_id t =
     \<lparr>td_id = show_id (t_id t), td_name = t_name t, td_payload = t_payload t,
      td_priority = to_int32 (t_priority t), td_status = status_string (t_status t),
      td_scheduled_for = t_scheduled_for t,
      td_attempt_count = to_int32 (t_attempt_count t),
      td_max_attempts = to_int32 (t_max_attempts t),
      td_claimed_by = or_empty (t_claimed_by t), td_claimed_at = t_claimed_at t,
      td_last_heartbeat_at = t_last_heartbeat_at t, td_completed_at = t_completed_at t,
      td_last_error = or_empty (t_last_error t), td_jira_url = or_empty (t_jira_url t),
      td_github_pr_url = or_empty (t_github_pr_url t),
      td_created_at = t_created_at t, td_updated_at = t_updated_at t\<rparr>"

record wire_log =
  wl_id :: int
  wl_task_id :: string
  wl_message :: string
  wl_created_at :: time

record wire_worker =
  ww_id :: string
  ww_active :: int
  ww_completed :: int
  ww_failed :: int
  ww_last_seen :: "time option"

subsection \<open>Handlers\<close>

definition max_name_len :: nat where
  "max_name_len = 200"

definition bad_id :: rpc_error where
  "bad_id = (InvalidArgument, ''id must be a UUID'')"

definition missing_or_code :: "string \<Rightarrow> store_error \<Rightarrow> string \<Rightarrow> string \<Rightarrow> store_error \<Rightarrow> rpc_error" where
  "missing_or_code tid wrong msg what e =
     (if e = ErrNotFound then task_not_found tid
      else if e = wrong then (FailedPrecondition, msg)
      else (Internal, what))"

record create_request =
  cr_name :: string
  cr_payload :: raw_json
  cr_priority :: int
  cr_max_attempts :: int
  cr_scheduled_for :: "time option"
  cr_jira_url :: string
  cr_github_pr_url :: string

definition create_input :: "create_request \<Rightarrow> new_task_input" where
  "create_input req =
     \<lparr>nt_name = cr_name req, nt_payload = cr_payload req, nt_priority = cr_priority req,
      nt_max_attempts = cr_max_attempts req, nt_scheduled_for = cr_scheduled_for req,
      nt_jira_url = non_empty (cr_jira_url req),
      nt_github_pr_url = non_empty (cr_github_pr_url req)\<rparr>"

definition rpc_create_task ::
  "(uuid \<Rightarrow> string) \<Rightarrow> env \<Rightarrow> create_request \<Rightarrow> sys \<Rightarrow> (rpc_error + task_detail) \<times> sys" where
  [rpc_defs]: "rpc_create_task show_id en req s =
     (if cr_name req = [] then (Inl (InvalidArgument, ''name is required''), s)
      else if length (cr_name req) > max_name_len
      then (Inl (InvalidArgument, ''name too long (max 200)''), s)
      else if cr_max_attempts req < 0 \<or> cr_max_attempts req > 50
      then (Inl (InvalidArgument, ''max_attempts must be 0 (default) or 1..50''), s)
      else case cr_payload req of
        RawBad _ \<Rightarrow> (Inl (InvalidArgument, ''payload is not valid JSON: ''), s)
      | _ \<Rightarrow>
          (case reply
              (\<lambda>e. case e of
                     ErrInvalidInput why \<Rightarrow> (InvalidArgument, invalid_input_text why)
                   | _ \<Rightarrow> (Internal, ''create: ''))
              s (create_task en (create_input req) (sys_db s)) of
             (Inl e, s') \<Rightarrow> (Inl e, s')
           | (Inr t, s') \<Rightarrow> (Inr (to_task_detail show_id t), s')))"

definition get_or_status :: "string \<Rightarrow> store_error \<Rightarrow> rpc_error" where
  "get_or_status tid e = (if e = ErrNotFound then task_not_found tid else (Internal, ''get: ''))"

definition rpc_get_task ::
  "(string \<Rightarrow> uuid option) \<Rightarrow> (uuid \<Rightarrow> string) \<Rightarrow> env \<Rightarrow> string \<Rightarrow> sys
     \<Rightarrow> (rpc_error + task_detail) \<times> sys" where
  [rpc_defs]: "rpc_get_task parse show_id en tid s =
     (case parse tid of
        None \<Rightarrow> (Inl bad_id, s)
      | Some i \<Rightarrow>
          (case get_task en 0 i (sys_db s) of
             Inl e \<Rightarrow> (Inl (get_or_status (show_id i) e), s)
           | Inr t \<Rightarrow> (Inr (to_task_detail show_id t), s)))"

definition rpc_list_task_logs ::
  "(string \<Rightarrow> uuid option) \<Rightarrow> (uuid \<Rightarrow> string) \<Rightarrow> env \<Rightarrow> string \<Rightarrow> int \<Rightarrow> sys
     \<Rightarrow> (rpc_error + wire_log list) \<times> sys" where
  [rpc_defs]: "rpc_list_task_logs parse show_id en tid limit s =
     (case parse tid of
        None \<Rightarrow> (Inl bad_id, s)
      | Some i \<Rightarrow>
          if limit < 0 \<or> limit > 10000
          then (Inl (InvalidArgument, ''limit must be 0..10000''), s)
          else (case get_task en 0 i (sys_db s) of
             Inl e \<Rightarrow> (Inl (get_or_status (show_id i) e), s)
           | Inr t \<Rightarrow>
               (case list_task_logs en 1 i limit (sys_db s) of
                  Inl e \<Rightarrow> (Inl (Internal, ''list_task_logs: ''), s)
                | Inr entries \<Rightarrow>
                    (Inr (map (\<lambda>l. \<lparr>wl_id = l_id l, wl_task_id = show_id (l_task_id l),
                                  wl_message = l_message l, wl_created_at = l_created_at l\<rparr>) entries),
                     s))))"

definition rpc_cancel_task ::
  "(string \<Rightarrow> uuid option) \<Rightarrow> (uuid \<Rightarrow> string) \<Rightarrow> env \<Rightarrow> string \<Rightarrow> sys \<Rightarrow> (rpc_error + unit) \<times> sys" where
  [rpc_defs]: "rpc_cancel_task parse show_id en tid s =
     (case parse tid of
        None \<Rightarrow> (Inl bad_id, s)
      | Some i \<Rightarrow>
          reply
            (missing_or_code (show_id i) ErrNotDeletable
              ''cannot cancel an active or parked task (claimed, in_progress, pr_opened, or review_requested)''
              ''cancel: '')
            s (delete_task en i (sys_db s)))"

definition rpc_retry_task ::
  "(string \<Rightarrow> uuid option) \<Rightarrow> (uuid \<Rightarrow> string) \<Rightarrow> env \<Rightarrow> string \<Rightarrow> sys
     \<Rightarrow> (rpc_error + task_detail) \<times> sys" where
  [rpc_defs]: "rpc_retry_task parse show_id en tid s =
     (case parse tid of
        None \<Rightarrow> (Inl bad_id, s)
      | Some i \<Rightarrow>
          (case reply
              (missing_or_code (show_id i) ErrNotRequeueable
                ''cannot retry an active or parked task; finalize parked tasks first (claimed, in_progress, pr_opened, or review_requested)''
                ''retry: '')
              s (requeue_task en i (sys_db s)) of
             (Inl e, s') \<Rightarrow> (Inl e, s')
           | (Inr t, s') \<Rightarrow> (Inr (to_task_detail show_id t), s')))"

definition rpc_list_workers :: "env \<Rightarrow> sys \<Rightarrow> (rpc_error + wire_worker list) \<times> sys" where
  [rpc_defs]: "rpc_list_workers en s =
     (case list_workers en 0 (sys_db s) of
        Inl e \<Rightarrow> (Inl (Internal, ''list_workers: ''), s)
      | Inr ws \<Rightarrow>
          (Inr (map (\<lambda>w. \<lparr>ww_id = wi_id w, ww_active = to_int32 (wi_active w),
                        ww_completed = to_int32 (wi_completed w), ww_failed = to_int32 (wi_failed w),
                        ww_last_seen = wi_last_seen w\<rparr>) ws), s))"

text \<open>The task as it is after a successful transition.\<close>

definition detail_after ::
  "(uuid \<Rightarrow> string) \<Rightarrow> string \<Rightarrow> env \<Rightarrow> uuid \<Rightarrow> (rpc_error + unit) \<times> sys
     \<Rightarrow> (rpc_error + task_detail) \<times> sys" where
  "detail_after show_id what en i res =
     (case res of
        (Inl e, s') \<Rightarrow> (Inl e, s')
      | (Inr _, s') \<Rightarrow>
          (case get_task en 2 i (sys_db s') of
             Inl e \<Rightarrow> (Inl (Internal, what), s')
           | Inr t \<Rightarrow> (Inr (to_task_detail show_id t), s')))"

definition rpc_request_review ::
  "(string \<Rightarrow> uuid option) \<Rightarrow> (uuid \<Rightarrow> string) \<Rightarrow> env \<Rightarrow> string \<Rightarrow> sys
     \<Rightarrow> (rpc_error + task_detail) \<times> sys" where
  [rpc_defs]: "rpc_request_review parse show_id en tid s =
     (case parse tid of
        None \<Rightarrow> (Inl bad_id, s)
      | Some i \<Rightarrow>
          detail_after show_id ''get after request_review: '' en i
            (reply
              (missing_or_code (show_id i) ErrInvalidTransition ''task is not in pr_opened'' ''request_review: '')
              s (request_review en i (sys_db s))))"

definition rpc_finalize_task ::
  "(string \<Rightarrow> uuid option) \<Rightarrow> (uuid \<Rightarrow> string) \<Rightarrow> env \<Rightarrow> string \<Rightarrow> outcome \<Rightarrow> sys
     \<Rightarrow> (rpc_error + task_detail) \<times> sys" where
  [rpc_defs]: "rpc_finalize_task parse show_id en tid out s =
     (case parse tid of
        None \<Rightarrow> (Inl bad_id, s)
      | Some i \<Rightarrow>
          (case out of
             NoOutcome \<Rightarrow>
               (Inl (InvalidArgument, ''outcome is required (success or failure)''), s)
           | _ \<Rightarrow>
               let success = (out = OutcomeSuccess);
                   err = (case out of OutcomeFailure m \<Rightarrow> m | _ \<Rightarrow> [])
               in detail_after show_id ''get after finalize: '' en i
                    (reply
                      (missing_or_code (show_id i) ErrInvalidTransition
                        ''task is not in pr_opened or review_requested'' ''finalize: '')
                      s (finalize_task en i success err (sys_db s)))))"

definition rpc_list_tasks ::
  "(uuid \<Rightarrow> string) \<Rightarrow> env \<Rightarrow> string \<Rightarrow> int \<Rightarrow> int \<Rightarrow> sys
     \<Rightarrow> (rpc_error + task_detail list \<times> int) \<times> sys" where
  [rpc_defs]: "rpc_list_tasks show_id en st limit offset s =
     (if limit < 0 \<or> limit > 500 then (Inl (InvalidArgument, ''limit must be 0..500''), s)
      else if offset < 0 then (Inl (InvalidArgument, ''offset must be non-negative''), s)
      else if st \<noteq> [] \<and> parse_status st = None
      then (Inl (InvalidArgument, ''unknown status ''), s)
      else
        (case list_tasks en \<lparr>f_status = non_empty st, f_limit = limit, f_offset = offset\<rparr> (sys_db s) of
           Inl e \<Rightarrow> (Inl (Internal, ''list: ''), s)
         | Inr (items, n) \<Rightarrow> (Inr (map (to_task_detail show_id) items, to_int32 n), s)))"

end
