(* ===== verification/Mastermind.thy ===== *)
theory Mastermind
  imports Auth Grpc_Admin
begin

section \<open>Mastermind's gRPC server\<close>

text \<open>
  The server that cmd/mastermind/main.go assembles: every RPC of the two services behind the
  per-method interceptor (\<open>serve\<close>).
  \<open>dispatch_exec\<close> is the simulation: an RPC changes the database by at most one store command,
  so mastermind only ever produces databases the store machine of \<open>Lifecycle\<close> can reach.
\<close>

datatype request =
    ReqClaimTask string
  | ReqHeartbeat string string
  | ReqReportResult string string outcome
  | ReqUpdateProgress string string string
  | ReqAppendLog string string string
  | ReqSetJiraURL string string string
  | ReqOpenPR string string string
  | ReqCreateTask create_request
  | ReqGetTask string
  | ReqListTasks string int int
  | ReqListTaskLogs string int
  | ReqCancelTask string
  | ReqRetryTask string
  | ReqListWorkers
  | ReqRequestReview string
  | ReqFinalizeTask string outcome

datatype response =
    RespTask wire_task
  | RespEmpty
  | RespLogId int
  | RespDetail task_detail
  | RespDetails "task_detail list" int
  | RespLogs "wire_log list"
  | RespWorkers "wire_worker list"

fun full_method :: "request \<Rightarrow> string" where
  "full_method (ReqClaimTask w) = task_service ''ClaimTask''"
| "full_method (ReqHeartbeat w i) = task_service ''Heartbeat''"
| "full_method (ReqReportResult w i out) = task_service ''ReportResult''"
| "full_method (ReqUpdateProgress w i txt) = task_service ''UpdateProgress''"
| "full_method (ReqAppendLog w i msg) = task_service ''AppendLog''"
| "full_method (ReqSetJiraURL w i url) = task_service ''SetJiraURL''"
| "full_method (ReqOpenPR w i url) = task_service ''OpenPR''"
| "full_method (ReqCreateTask req) = admin_service ''CreateTask''"
| "full_method (ReqGetTask i) = admin_service ''GetTask''"
| "full_method (ReqListTasks st limit offset) = admin_service ''ListTasks''"
| "full_method (ReqListTaskLogs i limit) = admin_service ''ListTaskLogs''"
| "full_method (ReqCancelTask i) = admin_service ''CancelTask''"
| "full_method (ReqRetryTask i) = admin_service ''RetryTask''"
| "full_method ReqListWorkers = admin_service ''ListWorkers''"
| "full_method (ReqRequestReview i) = admin_service ''RequestReview''"
| "full_method (ReqFinalizeTask i out) = admin_service ''FinalizeTask''"

fun worker_request :: "request \<Rightarrow> bool" where
  "worker_request (ReqClaimTask w) = True"
| "worker_request (ReqHeartbeat w i) = True"
| "worker_request (ReqReportResult w i out) = True"
| "worker_request (ReqUpdateProgress w i txt) = True"
| "worker_request (ReqAppendLog w i msg) = True"
| "worker_request (ReqSetJiraURL w i url) = True"
| "worker_request (ReqOpenPR w i url) = True"
| "worker_request req = False"

definition as :: "('a \<Rightarrow> response) \<Rightarrow> (rpc_error + 'a) \<times> sys \<Rightarrow> (rpc_error + response) \<times> sys" where
  "as f res = (map_sum id f (fst res), snd res)"

fun dispatch ::
  "(string \<Rightarrow> uuid option) \<Rightarrow> (uuid \<Rightarrow> string) \<Rightarrow> env \<Rightarrow> request \<Rightarrow> response handler" where
  "dispatch parse shw en (ReqClaimTask w) s = as RespTask (rpc_claim shw en w s)"
| "dispatch parse shw en (ReqHeartbeat w i) s = as (\<lambda>_. RespEmpty) (rpc_heartbeat parse en w i s)"
| "dispatch parse shw en (ReqReportResult w i out) s =
     as (\<lambda>_. RespEmpty) (rpc_report_result parse en w i out s)"
| "dispatch parse shw en (ReqUpdateProgress w i txt) s =
     as (\<lambda>_. RespEmpty) (rpc_update_progress parse en w i txt s)"
| "dispatch parse shw en (ReqAppendLog w i msg) s = as RespLogId (rpc_append_log parse shw en w i msg s)"
| "dispatch parse shw en (ReqSetJiraURL w i url) s =
     as (\<lambda>_. RespEmpty) (rpc_set_jira_url parse en w i url s)"
| "dispatch parse shw en (ReqOpenPR w i url) s = as (\<lambda>_. RespEmpty) (rpc_open_pr parse en w i url s)"
| "dispatch parse shw en (ReqCreateTask req) s = as RespDetail (rpc_create_task shw en req s)"
| "dispatch parse shw en (ReqGetTask i) s = as RespDetail (rpc_get_task parse shw en i s)"
| "dispatch parse shw en (ReqListTasks st limit offset) s =
     as (\<lambda>(items, n). RespDetails items n) (rpc_list_tasks shw en st limit offset s)"
| "dispatch parse shw en (ReqListTaskLogs i limit) s =
     as RespLogs (rpc_list_task_logs parse shw en i limit s)"
| "dispatch parse shw en (ReqCancelTask i) s = as (\<lambda>_. RespEmpty) (rpc_cancel_task parse shw en i s)"
| "dispatch parse shw en (ReqRetryTask i) s = as RespDetail (rpc_retry_task parse shw en i s)"
| "dispatch parse shw en ReqListWorkers s = as RespWorkers (rpc_list_workers en s)"
| "dispatch parse shw en (ReqRequestReview i) s =
     as RespDetail (rpc_request_review parse shw en i s)"
| "dispatch parse shw en (ReqFinalizeTask i out) s =
     as RespDetail (rpc_finalize_task parse shw en i out s)"

definition serve ::
  "string \<Rightarrow> string \<Rightarrow> (string \<Rightarrow> uuid option) \<Rightarrow> (uuid \<Rightarrow> string) \<Rightarrow> env \<Rightarrow> metadata \<Rightarrow> request
     \<Rightarrow> response handler" where
  "serve worker_token admin_token parse shw en md req =
     per_method_interceptor (auth_policy worker_token admin_token) (full_method req) md
       (dispatch parse shw en req)"

subsection \<open>An RPC is at most one store command\<close>

definition at_most_one_cmd :: "env \<Rightarrow> db \<Rightarrow> db \<Rightarrow> bool" where
  "at_most_one_cmd en d d' \<longleftrightarrow> d' = d \<or> (\<exists>c. d' = exec en c d)"

lemma at_most_one_cmdI:
  "at_most_one_cmd en d d" "at_most_one_cmd en d (exec en c d)"
  by (auto simp: at_most_one_cmd_def)

lemmas exec_rev = exec.simps [symmetric]

lemma reply_db [simp]: "sys_db (snd (reply c s res)) = snd res"
  by (simp add: reply_def)

lemma reply_case_db:
  "(case reply c s res of (Inl e, s') \<Rightarrow> (Inl e, s') | (Inr x, s') \<Rightarrow> (Inr (f x), s')) =
     (map_sum c f (fst res), s\<lparr>sys_db := snd res\<rparr>)"
  by (cases "fst res") (simp_all add: reply_def)

lemma detail_after_db [simp]: "sys_db (snd (detail_after shw msg en i res)) = sys_db (snd res)"
  by (cases res; cases "fst res") (simp_all add: detail_after_def split: sum.split)

lemma as_db [simp]: "sys_db (snd (as f res)) = sys_db (snd res)"
  by (simp add: as_def)

lemma dispatch_exec: "at_most_one_cmd en (sys_db s) (sys_db (snd (dispatch parse shw en req s)))"
proof (cases req)
  case (ReqClaimTask w)
  show ?thesis
  proof (cases "w = []")
    case False
    have "sys_db (snd (rpc_claim shw en w s)) = exec en (ClaimTask w) (sys_db s)"
      using False by (simp add: rpc_claim_def Let_def split: prod.split sum.split option.split)
    with ReqClaimTask show ?thesis by (simp add: at_most_one_cmdI del: exec.simps)
  qed (simp add: ReqClaimTask rpc_claim_def at_most_one_cmdI)
next
  case (ReqReportResult w i out)
  show ?thesis
  proof (cases "parse i = None \<or> out = NoOutcome")
    case True
    with ReqReportResult show ?thesis
      by (cases "parse i") (auto simp: rpc_report_result_def at_most_one_cmdI)
  next
    case False
    then obtain u where u: "parse i = Some u" "out \<noteq> NoOutcome" by auto
    have "sys_db (snd (rpc_report_result parse en w i out s)) =
        exec en (ReportResult w u (out = OutcomeSuccess)
          (case out of OutcomeFailure m \<Rightarrow> m | _ \<Rightarrow> [])) (sys_db s)"
      using u
      by (cases out) (simp_all add: rpc_report_result_def reply_def Let_def split: prod.split sum.split)
    with ReqReportResult show ?thesis by (simp add: at_most_one_cmdI del: exec.simps)
  qed
next
  case (ReqCreateTask cr)
  have "at_most_one_cmd en (sys_db s) (sys_db (snd (rpc_create_task shw en cr s)))"
    unfolding rpc_create_task_def reply_case_db
    by (auto simp: at_most_one_cmdI exec_rev simp del: exec.simps split: raw_json.split)
  with ReqCreateTask show ?thesis by simp
next
  case (ReqAppendLog w i msg)
  then show ?thesis
    by (simp add: rpc_append_log_def reply_case_db at_most_one_cmdI exec_rev del: exec.simps
        split: option.split)
next
  case (ReqFinalizeTask i out)
  then show ?thesis
    by (cases out)
      (simp_all add: rpc_finalize_task_def at_most_one_cmdI exec_rev Let_def del: exec.simps
        split: option.split)
qed (simp_all add: rpc_defs reply_case_db at_most_one_cmdI exec_rev del: exec.simps
    split: option.split sum.split prod.split)

subsection \<open>Runs of mastermind\<close>

text \<open>Mastermind's configuration and the library functions it runs with.\<close>

record config =
  worker_token :: string
  admin_token :: string
  visibility :: int
  parse_uuid :: "string \<Rightarrow> uuid option"
  show_uuid :: "uuid \<Rightarrow> string"

definition serves :: "config \<Rightarrow> env \<Rightarrow> metadata \<Rightarrow> request \<Rightarrow> response handler" where
  "serves cfg = serve (worker_token cfg) (admin_token cfg) (parse_uuid cfg) (show_uuid cfg)"

lemma serve_cases:
  "serves cfg en md req s = dispatch (parse_uuid cfg) (show_uuid cfg) en req s \<or>
   (\<exists>c m. serves cfg en md req s = (Inl (c, m), s) \<and> c \<in> {Unauthenticated, Unimplemented})"
proof -
  let ?h = "dispatch (parse_uuid cfg) (show_uuid cfg) en req"
  let ?p = "auth_policy (worker_token cfg) (admin_token cfg)" and ?m = "full_method req"
  show ?thesis
    unfolding serves_def serve_def
    using per_method.accepted [of ?p ?m md ?h s] per_method.refused [of ?p ?m md ?h s]
    by (cases "\<exists>token. ?p ?m = Some token \<and> presents md token") simp_all
qed

lemma serves_exec: "at_most_one_cmd en (sys_db s) (sys_db (snd (serves cfg en md req s)))"
  using serve_cases [of cfg en md req s] dispatch_exec
  by (elim disjE exE conjE) (simp_all add: at_most_one_cmdI)

lemma reaper_tick_db: "sys_db (reaper_tick en v s) = exec en (ReapStale v) (sys_db s)"
  by (simp add: reaper_tick_def Let_def split: prod.split sum.split)

lemma sample_pending_db [simp]: "sys_db (sample_pending en s) = sys_db s"
  by (simp add: sample_pending_def split: sum.split)

definition sample_config :: config where
  "sample_config = \<lparr>worker_token = ''wt'', admin_token = ''at'', visibility = 30000000000,
     parse_uuid = (\<lambda>s. if s = ''nine'' then Some 9 else None), show_uuid = (\<lambda>_. ''nine'')\<rparr>"

definition number_config :: config where
  "number_config = sample_config\<lparr>show_uuid := (\<lambda>i. replicate (unat i) CHR ''1''),
     parse_uuid := (\<lambda>x. Some (of_nat (length x)))\<rparr>"

lemma number_config_round_trip: "\<forall>i. parse_uuid number_config (show_uuid number_config i) = Some i"
  by (simp add: number_config_def)

subsection \<open>Authorization\<close>

lemma full_method_policy:
  "auth_policy wt at (full_method req) = Some (if worker_request req then wt else at)"
  by (cases req) (simp_all add: policy_methods worker_methods_def admin_methods_def)

lemma serves_presents:
  "presents md (if worker_request req then worker_token cfg else admin_token cfg) \<Longrightarrow>
     serves cfg en md req s = dispatch (parse_uuid cfg) (show_uuid cfg) en req s"
  unfolding serves_def serve_def by (intro per_method.accepted) (simp add: full_method_policy)

lemma serves_refused:
  assumes "\<not> presents md (if worker_request req then worker_token cfg else admin_token cfg)"
  shows "\<exists>m. serves cfg en md req s = (Inl (Unauthenticated, m), s)"
  using assms
  unfolding serves_def serve_def per_method_interceptor_def full_method_policy presents_def
  by (cases md; cases "the md authorization") auto

text \<open>C17: Only an authorized caller has any effect or learns anything: a request runs exactly when
  it presents the token of its service (the worker token for the TaskService, the admin token
  for the AdminService), as a client with the right BearerCredentials does; any other request is
  answered UNAUTHENTICATED and leaves mastermind unchanged.\<close>

theorem requests_authorized:
  "(if presents md (if worker_request req then worker_token cfg else admin_token cfg)
    then serves cfg en md req s = dispatch (parse_uuid cfg) (show_uuid cfg) en req s
    else \<exists>m. serves cfg en md req s = (Inl (Unauthenticated, m), s)) \<and>
   presents (bearer_metadata token) (if worker_request req then worker_token cfg else admin_token cfg)
     = (token = (if worker_request req then worker_token cfg else admin_token cfg))"
  using serves_presents [of md req cfg en s] serves_refused [of md req cfg en s] by simp

text \<open>The store commands leave the database as it is when they fail.\<close>

lemma claim_error_unchanged:
  assumes "distinct (ids d)" and "fst (claim_task en w d) = Inl e \<or> fst (claim_task en w d) = Inr None"
  shows "snd (claim_task en w d) = d"
  using assms by (auto simp: claim_task_eq split: option.splits if_splits)

lemma append_error_unchanged:
  assumes "fst (append_task_log en w i msg d) = Inl e" and "\<forall>m. e \<noteq> DbError m"
  shows "snd (append_task_log en w i msg d) = d"
  using assms
  by (auto simp: append_task_log_def append_commit_def Let_def split: sum.splits option.splits if_splits)

lemma create_error_unchanged:
  "fst (create_task en inp d) = Inl e \<Longrightarrow> snd (create_task en inp d) = d"
  using create_task_state [of en inp d] by auto

lemma delete_error_unchanged:
  "fst (delete_task en i d) = Inl e \<Longrightarrow> snd (delete_task en i d) = d"
  by (auto simp: delete_task_def Let_def split: option.splits if_splits)

lemmas row_op_errors_unchanged =
  hb.failed_unchanged
  progress.failed_unchanged [where a = "(w, s)" for w s, unfolded prod.case]
  jira.failed_unchanged [where a = "(w, url)" for w url, unfolded prod.case]
  pr.failed_unchanged [where a = "(w, url)" for w url, unfolded prod.case]
  requeue.failed_unchanged
  review.failed_unchanged
  finalize.failed_unchanged [where a = "(ok, err)" for ok err, unfolded prod.case]

lemma reply_Inl_iff [simp]:
  "fst (reply c s res) = Inl x \<longleftrightarrow> (\<exists>e. fst res = Inl e \<and> x = c e)"
  by (cases "fst res") (auto simp: reply_def)

lemma as_Inl_iff [simp]: "fst (as f res) = Inl x \<longleftrightarrow> fst res = Inl x"
  by (cases "fst res") (auto simp: as_def)

lemma reply_failed_unchanged:
  assumes "fst (reply c s res) = Inl x" and "\<And>e. fst res = Inl e \<Longrightarrow> snd res = sys_db s"
  shows "sys_db (snd (reply c s res)) = sys_db s"
  using assms by auto

lemma detail_after_error:
  assumes "fst (detail_after shw what en i res) = Inl (c, m)" and "c \<noteq> Internal"
  shows "fst res = Inl (c, m)"
  using assms by (cases res; cases "fst res") (auto simp: detail_after_def split: sum.splits)

lemma rpc_claim_rejected:
  assumes "distinct (ids (sys_db s))" and "fst (rpc_claim shw en w s) = Inl (c, m)" and "c \<noteq> Internal"
  shows "sys_db (snd (rpc_claim shw en w s)) = sys_db s"
proof -
  obtain r d' where run: "claim_task en w (sys_db s) = (r, d')" by force
  show ?thesis
    using assms run claim_error_unchanged [OF assms(1), of en w]
    by (auto simp: rpc_claim_def Let_def split: sum.splits option.splits if_splits)
qed

lemma rpc_append_log_rejected:
  assumes "fst (rpc_append_log parse shw en w i msg s) = Inl (c, m)" and "c \<noteq> Internal"
  shows "sys_db (snd (rpc_append_log parse shw en w i msg s)) = sys_db s"
proof (cases "w = [] \<or> msg = [] \<or> parse i = None")
  case True
  then show ?thesis by (auto simp: rpc_append_log_def split: option.splits)
next
  case False
  then obtain u where u: "parse i = Some u" "w \<noteq> []" "msg \<noteq> []" by auto
  obtain r d' where run: "append_task_log en w u msg (sys_db s) = (r, d')" by force
  show ?thesis
    using assms u run append_error_unchanged [of en w u msg "sys_db s"]
    by (cases r)
      (auto simp: rpc_append_log_def reply_def owner_or_internal_def not_owner_def split: if_splits)
qed

lemma rpc_report_rejected:
  assumes "fst (rpc_report_result parse en w i out s) = Inl (c, m)"
  shows "sys_db (snd (rpc_report_result parse en w i out s)) = sys_db s"
proof (cases "parse i = None \<or> out = NoOutcome")
  case True
  then show ?thesis by (cases "parse i") (auto simp: rpc_report_result_def)
next
  case False
  then obtain u where u: "parse i = Some u" "out \<noteq> NoOutcome" by auto
  define ok err where "ok = (out = OutcomeSuccess)"
    and "err = (case out of OutcomeFailure m \<Rightarrow> m | _ \<Rightarrow> [])"
  obtain r d' where run: "report_result en w u ok err (sys_db s) = (r, d')" by force
  show ?thesis
  proof (cases r)
    case (Inl e)
    with run report_error_unchanged have "d' = sys_db s" by blast
    with u run Inl show ?thesis
      by (cases out) (simp_all add: rpc_report_result_def reply_def ok_def err_def)
  next
    case (Inr b)
    with u run assms show ?thesis
      by (cases out) (auto simp: rpc_report_result_def reply_def ok_def err_def Let_def split: if_splits)
  qed
qed

lemma rpc_finalize_rejected:
  assumes "fst (rpc_finalize_task parse shw en i out s) = Inl (c, m)" and "c \<noteq> Internal"
  shows "sys_db (snd (rpc_finalize_task parse shw en i out s)) = sys_db s"
  using assms
  by (cases out)
    (auto simp: rpc_finalize_task_def Let_def row_op_errors_unchanged
      split: option.splits dest!: detail_after_error)

text \<open>C18: A rejected request has no effect on the tasks: when the status is anything but INTERNAL
  (a bad argument, an unknown task, a task in the wrong state, a lost claim, an empty queue),
  the tables are as before.\<close>

theorem rejected_request_no_effect:
  assumes "distinct (ids (sys_db s))" and "serves cfg en md req s = (Inl (c, m), s')"
    and "c \<noteq> Internal"
  shows "sys_db s' = sys_db s"
proof -
  have "sys_db (snd (dispatch parse shw en req s)) = sys_db s"
    if "fst (dispatch parse shw en req s) = Inl (c, m)" for parse shw
  proof (cases req)
    case (ReqClaimTask w)
    then show ?thesis using that rpc_claim_rejected [OF assms(1) _ assms(3)] by simp
  next
    case (ReqReportResult w i out)
    then show ?thesis using that rpc_report_rejected by simp
  next
    case (ReqAppendLog w i msg)
    then show ?thesis using that rpc_append_log_rejected [OF _ assms(3)] by simp
  next
    case (ReqFinalizeTask i out)
    then show ?thesis using that rpc_finalize_rejected [OF _ assms(3)] by simp
  next
    case (ReqRequestReview i)
    then show ?thesis
      using that assms(3)
      by (auto simp: rpc_request_review_def row_op_errors_unchanged
          split: option.splits dest!: detail_after_error)
  next
    case (ReqCreateTask cr)
    then show ?thesis
      using that create_error_unchanged [of en "create_input cr" "sys_db s"]
      by (cases "create_task en (create_input cr) (sys_db s)"; cases "fst (create_task en (create_input cr) (sys_db s))")
        (auto simp: rpc_create_task_def reply_def split: raw_json.splits if_splits)
  next
    case (ReqRetryTask i)
    then show ?thesis
      using that
      by (auto simp: rpc_retry_task_def reply_case_db row_op_errors_unchanged split: option.splits
          simp: map_sum_def split: sum.splits)
  qed (use that in \<open>auto simp: rpc_defs row_op_errors_unchanged delete_error_unchanged
      split: option.splits sum.splits if_splits prod.splits\<close>)
  then have "sys_db s' = sys_db s" if "dispatch (parse_uuid cfg) (show_uuid cfg) en req s = (Inl (c, m), s')"
    using that by (metis fst_conv snd_conv)
  with assms(2) serve_cases [of cfg en md req s] show ?thesis by auto
qed

lemma rejected_request_no_effect_witness:
  "sys_db (snd (serves sample_config (calm 5 0) None (ReqClaimTask ''w'')
     \<lparr>sys_db = sample_db, sys_metrics = zero_metrics\<rparr>)) = sample_db"
proof -
  let ?s = "\<lparr>sys_db = sample_db, sys_metrics = zero_metrics\<rparr>"
  have "serves sample_config (calm 5 0) None (ReqClaimTask ''w'') ?s =
      (Inl (Unauthenticated, ''missing metadata''), ?s)"
    unfolding serves_def serve_def per_method_interceptor_def full_method_policy by simp
  with rejected_request_no_effect [of ?s sample_config "calm 5 0" None "ReqClaimTask ''w''"]
  show ?thesis using db_wf_distinct [OF sample_db_wf] by simp
qed

end
