(* ===== verification/Worker_State.thy ===== *)
theory Worker_State
  imports Mastermind
begin

section \<open>The worker's client and its claim state\<close>

text \<open>
  worker/taskclient/taskclient.go and worker/mcpserver/state.go. A \<open>*taskclient.Task\<close> is an
  address into \<open>handles\<close>: tool calls and the heartbeat goroutine share the object. Each critical
  section under a mutex is one function (\<open>claim_check\<close>, \<open>claim_install\<close>, \<open>require_task\<close>,
  \<open>mark_finalized\<close>, \<open>clear_current\<close>); the sequential operations of State compose them with the
  RPCs, \<open>wstep\<close> interleaves them for any number of concurrent tool calls. A connection is an
  argument \<open>call\<close>: what the gRPC channel and the server behind it make of a request.
  \<open>h_beating\<close> says that the heartbeat goroutine of the handle runs.
\<close>

subsection \<open>taskclient\<close>

record handle =
  h_id :: string
  h_name :: string
  h_payload :: json
  h_finalized :: bool
  h_beating :: bool

type_synonym connection = "request \<Rightarrow> sys \<Rightarrow> (rpc_error + response) \<times> sys"

datatype worker_error =
    ErrNoCurrentTask
  | ErrAlreadyHaveTask
  | ErrTaskNotMatching
  | ErrNoTask
  | ErrAlreadyFinalized
  | ErrEmptyTask
  | RpcFailed rpc_error

definition client_claim :: "connection \<Rightarrow> string \<Rightarrow> sys \<Rightarrow> (worker_error + handle) \<times> sys" where
  "client_claim call w s =
     (case call (ReqClaimTask w) s of
        (Inl (c, m), s') \<Rightarrow> (Inl (if c = NotFound then ErrNoTask else RpcFailed (c, m)), s')
      | (Inr (RespTask t), s') \<Rightarrow>
          (Inr \<lparr>h_id = w_id t, h_name = w_name t, h_payload = w_payload t,
                h_finalized = False, h_beating = False\<rparr>, s')
      | (Inr _, s') \<Rightarrow> (Inl ErrEmptyTask, s'))"

text \<open>The RPCs that do not finalize; the response of AppendLog carries the row id.\<close>

definition task_call :: "connection \<Rightarrow> request \<Rightarrow> sys \<Rightarrow> (worker_error + unit) \<times> sys" where
  "task_call call req s =
     (case call req s of (Inl e, s') \<Rightarrow> (Inl (RpcFailed e), s') | (Inr _, s') \<Rightarrow> (Inr (), s'))"

definition task_append_log ::
  "connection \<Rightarrow> string \<Rightarrow> handle \<Rightarrow> string \<Rightarrow> sys \<Rightarrow> (worker_error + int) \<times> sys" where
  "task_append_log call w h msg s =
     (case call (ReqAppendLog w (h_id h) msg) s of
        (Inl e, s') \<Rightarrow> (Inl (RpcFailed e), s')
      | (Inr r, s') \<Rightarrow> (Inr (case r of RespLogId n \<Rightarrow> n | _ \<Rightarrow> 0), s'))"

definition heartbeat_request :: "string \<Rightarrow> handle \<Rightarrow> request" where
  "heartbeat_request w h = ReqHeartbeat w (h_id h)"

definition progress_request :: "string \<Rightarrow> handle \<Rightarrow> string \<Rightarrow> request" where
  "progress_request w h txt = ReqUpdateProgress w (h_id h) txt"

definition jira_request :: "string \<Rightarrow> handle \<Rightarrow> string \<Rightarrow> request" where
  "jira_request w h url = ReqSetJiraURL w (h_id h) url"

text \<open>The calls that finalize a handle, and their RPCs.\<close>

datatype fin = FinComplete | FinFail string | FinOpenPR string

definition fin_request :: "string \<Rightarrow> handle \<Rightarrow> fin \<Rightarrow> request" where
  "fin_request w h f =
     (case f of
        FinComplete \<Rightarrow> ReqReportResult w (h_id h) OutcomeSuccess
      | FinFail m \<Rightarrow> ReqReportResult w (h_id h) (OutcomeFailure m)
      | FinOpenPR url \<Rightarrow> ReqOpenPR w (h_id h) url)"

subsection \<open>State\<close>

record wstate =
  handles :: "handle list"
  current :: "nat option"
  stop_hb :: "nat option"

definition new_state :: wstate where
  "new_state = \<lparr>handles = [], current = None, stop_hb = None\<rparr>"

text \<open>The interval between the heartbeats of a State, in nanoseconds: always positive, as
  \<open>time.NewTicker\<close> needs it.\<close>

definition heartbeat_interval :: "int \<Rightarrow> int" where
  "heartbeat_interval d = (if d \<le> 0 then 10000000000 else d)"

lemma heartbeat_interval_pos: "0 < heartbeat_interval d"
  by (simp add: heartbeat_interval_def)

definition set_handle :: "nat \<Rightarrow> (handle \<Rightarrow> handle) \<Rightarrow> wstate \<Rightarrow> wstate" where
  "set_handle a f st = st\<lparr>handles := (handles st)[a := f (handles st ! a)]\<rparr>"

text \<open>\<open>StartHeartbeat\<close>: a second start on a beating handle does nothing and returns a stop
  function that does nothing.\<close>

definition start_heartbeat :: "nat \<Rightarrow> wstate \<Rightarrow> nat option \<times> wstate" where
  "start_heartbeat a st =
     (if h_beating (handles st ! a) then (None, st)
      else (Some a, set_handle a (h_beating_update (\<lambda>_. True)) st))"

text \<open>The stop function: cancels the goroutine and waits for it, once.\<close>

definition stop_heartbeat :: "nat \<Rightarrow> wstate \<Rightarrow> wstate" where
  "stop_heartbeat a st =
     (if h_beating (handles st ! a) then set_handle a (h_beating_update (\<lambda>_. False)) st else st)"

definition mark_finalized :: "nat \<Rightarrow> wstate \<Rightarrow> worker_error + wstate" where
  "mark_finalized a st =
     (if h_finalized (handles st ! a) then Inl ErrAlreadyFinalized
      else Inr (stop_heartbeat a (set_handle a (h_finalized_update (\<lambda>_. True)) st)))"

definition claim_check :: "wstate \<Rightarrow> worker_error + unit" where
  "claim_check st = (if current st \<noteq> None then Inl ErrAlreadyHaveTask else Inr ())"

text \<open>Second half of ClaimNext, with the lock held again: the address of the new handle, and
  whether it was installed or has to be dropped.\<close>

definition claim_install :: "handle \<Rightarrow> wstate \<Rightarrow> nat \<times> bool \<times> wstate" where
  "claim_install h st =
     (let a = length (handles st); st = st\<lparr>handles := handles st @ [h]\<rparr> in
      if current st \<noteq> None then (a, False, st)
      else
        let (stop, st) = start_heartbeat a (st\<lparr>current := Some a\<rparr>)
        in (a, True, st\<lparr>stop_hb := stop\<rparr>))"

definition require_task :: "string \<Rightarrow> wstate \<Rightarrow> worker_error + nat" where
  "require_task tid st =
     (case current st of
        None \<Rightarrow> Inl ErrNoCurrentTask
      | Some a \<Rightarrow>
          if tid \<noteq> [] \<and> tid \<noteq> h_id (handles st ! a) then Inl ErrTaskNotMatching else Inr a)"

definition clear_current :: "wstate \<Rightarrow> wstate" where
  "clear_current st =
     (let st' = st\<lparr>stop_hb := None, current := None\<rparr>
      in case stop_hb st of None \<Rightarrow> st' | Some a \<Rightarrow> stop_heartbeat a st')"

definition release :: "wstate \<Rightarrow> wstate" where
  "release st = clear_current st"

definition current_task :: "wstate \<Rightarrow> worker_error + nat" where
  "current_task st = (case current st of None \<Rightarrow> Inl ErrNoCurrentTask | Some a \<Rightarrow> Inr a)"

subsection \<open>State's operations, one at a time\<close>

definition raced :: string where
  "raced = ''worker.mcp: dropped due to concurrent claim race''"

text \<open>\<open>Task.Complete\<close>, \<open>Task.Fail\<close>, \<open>Task.OpenPR\<close>.\<close>

definition task_finalize ::
  "connection \<Rightarrow> string \<Rightarrow> nat \<Rightarrow> fin \<Rightarrow> wstate \<times> sys \<Rightarrow> (worker_error + unit) \<times> (wstate \<times> sys)" where
  "task_finalize call w a f x =
     (case x of (st, s) \<Rightarrow>
        (case mark_finalized a st of
           Inl e \<Rightarrow> (Inl e, (st, s))
         | Inr st' \<Rightarrow>
             (case task_call call (fin_request w (handles st ! a) f) s of
                (r, s') \<Rightarrow> (r, (st', s')))))"

definition claim_next ::
  "connection \<Rightarrow> string \<Rightarrow> wstate \<times> sys \<Rightarrow> (worker_error + nat) \<times> (wstate \<times> sys)" where
  "claim_next call w x =
     (case x of (st, s) \<Rightarrow>
        (case claim_check st of
           Inl e \<Rightarrow> (Inl e, (st, s))
         | Inr _ \<Rightarrow>
             (case client_claim call w s of
                (Inl e, s') \<Rightarrow> (Inl e, (st, s'))
              | (Inr h, s') \<Rightarrow>
                  (case claim_install h st of
                     (a, True, st') \<Rightarrow> (Inr a, (st', s'))
                   | (a, False, st') \<Rightarrow>
                       (Inl ErrAlreadyHaveTask, snd (task_finalize call w a (FinFail raced) (st', s')))))))"

text \<open>\<open>Complete\<close>, \<open>Fail\<close> and \<open>OpenPR\<close> of State: only a successful RPC clears the claim.\<close>

definition state_finalize ::
  "connection \<Rightarrow> string \<Rightarrow> string \<Rightarrow> fin \<Rightarrow> wstate \<times> sys
     \<Rightarrow> (worker_error + unit) \<times> (wstate \<times> sys)" where
  "state_finalize call w tid f x =
     (case require_task tid (fst x) of
        Inl e \<Rightarrow> (Inl e, x)
      | Inr a \<Rightarrow>
          (case task_finalize call w a f x of
             (Inl e, x') \<Rightarrow> (Inl e, x')
           | (Inr _, (st, s)) \<Rightarrow> (Inr (), (clear_current st, s))))"

definition state_complete where
  "state_complete call w tid = state_finalize call w tid FinComplete"

definition state_fail where
  "state_fail call w tid msg = state_finalize call w tid (FinFail msg)"

definition state_open_pr where
  "state_open_pr call w tid url = state_finalize call w tid (FinOpenPR url)"

text \<open>\<open>Progress\<close> and \<open>SetJiraURL\<close> of State, by the request they send for the handle.\<close>

definition state_call ::
  "connection \<Rightarrow> (handle \<Rightarrow> request) \<Rightarrow> string \<Rightarrow> wstate \<times> sys
     \<Rightarrow> (worker_error + unit) \<times> (wstate \<times> sys)" where
  "state_call call req tid x =
     (case require_task tid (fst x) of
        Inl e \<Rightarrow> (Inl e, x)
      | Inr a \<Rightarrow>
          (case task_call call (req (handles (fst x) ! a)) (snd x) of (r, s') \<Rightarrow> (r, (fst x, s'))))"

definition state_progress where
  "state_progress call w tid txt = state_call call (\<lambda>h. progress_request w h txt) tid"

definition state_set_jira_url where
  "state_set_jira_url call w tid url = state_call call (\<lambda>h. jira_request w h url) tid"

definition state_append_log ::
  "connection \<Rightarrow> string \<Rightarrow> string \<Rightarrow> string \<Rightarrow> wstate \<times> sys
     \<Rightarrow> (worker_error + int) \<times> (wstate \<times> sys)" where
  "state_append_log call w tid msg x =
     (case require_task tid (fst x) of
        Inl e \<Rightarrow> (Inl e, x)
      | Inr a \<Rightarrow>
          (case task_append_log call w (handles (fst x) ! a) msg (snd x) of
             (r, s') \<Rightarrow> (r, (fst x, s'))))"

text \<open>One tick of the heartbeat goroutine of a handle (errors are only logged).\<close>

definition heartbeat_tick :: "connection \<Rightarrow> string \<Rightarrow> nat \<Rightarrow> wstate \<times> sys \<Rightarrow> wstate \<times> sys" where
  "heartbeat_tick call w a x =
     (if h_beating (handles (fst x) ! a)
      then (fst x, snd (task_call call (heartbeat_request w (handles (fst x) ! a)) (snd x))) else x)"

end
