(* ===== verification/Worker_Threads.thy ===== *)
theory Worker_Threads
  imports Worker_State
begin

section \<open>Concurrent tool calls of a worker\<close>

text \<open>
  The interleavings of state.go. A thread is a tool call (or the goroutine that ClaimNext starts
  for a raced claim) at one of the points where it holds no lock; \<open>wstep\<close> is one critical section
  or one RPC of one thread. What an RPC answers is left open (\<open>call\<close> is any connection in every
  step), so the results hold for every server, network and schedule. \<open>w_sent\<close> records the
  finalizing RPCs sent.
\<close>

subsection \<open>Threads and steps\<close>

datatype thread =
    Idle
  | Claiming
  | Installing handle
  | Finalizing nat fin bool
  | Reporting nat fin bool
  | Clearing nat

record wsys =
  w_state :: wstate
  w_threads :: "thread list"
  w_sys :: sys
  w_sent :: "(nat \<times> fin) list"

definition idle_pool :: "nat \<Rightarrow> sys \<Rightarrow> wsys" where
  "idle_pool n s = \<lparr>w_state = new_state, w_threads = replicate n Idle, w_sys = s, w_sent = []\<rparr>"

definition thread_to :: "nat \<Rightarrow> thread \<Rightarrow> wsys \<Rightarrow> wsys" where
  "thread_to i t x = x\<lparr>w_threads := (w_threads x)[i := t]\<rparr>"

definition at_point :: "nat \<Rightarrow> thread \<Rightarrow> wsys \<Rightarrow> bool" where
  "at_point i t x \<longleftrightarrow> i < length (w_threads x) \<and> w_threads x ! i = t"

text \<open>The flag of \<open>Finalizing\<close> and \<open>Reporting\<close> tells a tool call (which clears the claim after a
  successful RPC) from the goroutine that drops a raced claim.\<close>

inductive wstep :: "string \<Rightarrow> wsys \<Rightarrow> wsys \<Rightarrow> bool" for w where
  claim_begin: "at_point i Idle x \<Longrightarrow> claim_check (w_state x) = Inr () \<Longrightarrow>
    wstep w x (thread_to i Claiming x)"
| claim_rpc: "at_point i Claiming x \<Longrightarrow> client_claim call w (w_sys x) = (Inr h, s') \<Longrightarrow>
    wstep w x (thread_to i (Installing h) (x\<lparr>w_sys := s'\<rparr>))"
| claim_failed: "at_point i Claiming x \<Longrightarrow> client_claim call w (w_sys x) = (Inl e, s') \<Longrightarrow>
    wstep w x (thread_to i Idle (x\<lparr>w_sys := s'\<rparr>))"
| installed: "at_point i (Installing h) x \<Longrightarrow> claim_install h (w_state x) = (a, True, st') \<Longrightarrow>
    wstep w x (thread_to i Idle (x\<lparr>w_state := st'\<rparr>))"
| dropped: "at_point i (Installing h) x \<Longrightarrow> claim_install h (w_state x) = (a, False, st') \<Longrightarrow>
    wstep w x (x\<lparr>w_state := st',
      w_threads := (w_threads x)[i := Idle] @ [Finalizing a (FinFail raced) False]\<rparr>)"
| finalize_begin: "at_point i Idle x \<Longrightarrow> require_task tid (w_state x) = Inr a \<Longrightarrow>
    wstep w x (thread_to i (Finalizing a f True) x)"
| marked: "at_point i (Finalizing a f c) x \<Longrightarrow> mark_finalized a (w_state x) = Inr st' \<Longrightarrow>
    wstep w x (thread_to i (Reporting a f c) (x\<lparr>w_state := st'\<rparr>))"
| already_finalized: "at_point i (Finalizing a f c) x \<Longrightarrow> mark_finalized a (w_state x) = Inl e \<Longrightarrow>
    wstep w x (thread_to i Idle x)"
| reported: "at_point i (Reporting a f c) x \<Longrightarrow>
    task_call call (fin_request w (handles (w_state x) ! a) f) (w_sys x) = (Inr (), s') \<Longrightarrow>
    wstep w x (thread_to i (if c then Clearing a else Idle)
      (x\<lparr>w_sys := s', w_sent := w_sent x @ [(a, f)]\<rparr>))"
| report_failed: "at_point i (Reporting a f c) x \<Longrightarrow>
    task_call call (fin_request w (handles (w_state x) ! a) f) (w_sys x) = (Inl e, s') \<Longrightarrow>
    wstep w x (thread_to i Idle (x\<lparr>w_sys := s', w_sent := w_sent x @ [(a, f)]\<rparr>))"
| cleared: "at_point i (Clearing a) x \<Longrightarrow>
    wstep w x (thread_to i Idle (x\<lparr>w_state := clear_current (w_state x)\<rparr>))"
| other_call: "require_task tid (w_state x) = Inr a \<Longrightarrow>
    req \<in> {heartbeat_request w (handles (w_state x) ! a), progress_request w (handles (w_state x) ! a) txt,
      jira_request w (handles (w_state x) ! a) txt, ReqAppendLog w (h_id (handles (w_state x) ! a)) txt} \<Longrightarrow>
    wstep w x (x\<lparr>w_sys := snd ((call :: connection) req (w_sys x))\<rparr>)"
| elsewhere: "wstep w x (x\<lparr>w_sys := s'\<rparr>)"

inductive wsteps :: "string \<Rightarrow> wsys \<Rightarrow> wsys \<Rightarrow> bool" for w where
  refl: "wsteps w x x"
| step: "wsteps w x y \<Longrightarrow> wstep w y z \<Longrightarrow> wsteps w x z"

subsection \<open>The invariant\<close>

text \<open>
  A tool call that sent (or is about to send) a finalizing RPC works on the current handle, which
  is finalized, and is the only one; a handle that is not finalized is the current one or waits
  for its dropping goroutine; the heartbeat runs exactly for the current handle until it is
  finalized; each handle has at most one finalizing RPC, sent after it was marked.
\<close>

fun closing :: "thread \<Rightarrow> nat option" where
  "closing (Reporting a f True) = Some a"
| "closing (Clearing a) = Some a"
| "closing t = None"

fun marked_on :: "thread \<Rightarrow> nat option" where
  "marked_on (Reporting a f c) = Some a"
| "marked_on t = None"

fun thread_ok :: "wstate \<Rightarrow> thread \<Rightarrow> bool" where
  "thread_ok st (Installing h) = (\<not> h_finalized h \<and> \<not> h_beating h)"
| "thread_ok st (Finalizing a f True) =
     (a < length (handles st) \<and> (current st = Some a \<or> h_finalized (handles st ! a)))"
| "thread_ok st (Finalizing a f False) =
     (a < length (handles st) \<and> current st \<noteq> Some a)"
| "thread_ok st (Reporting a f True) =
     (a < length (handles st) \<and> h_finalized (handles st ! a) \<and> current st = Some a)"
| "thread_ok st (Reporting a f False) =
     (a < length (handles st) \<and> h_finalized (handles st ! a) \<and> current st \<noteq> Some a)"
| "thread_ok st (Clearing a) =
     (a < length (handles st) \<and> h_finalized (handles st ! a) \<and> current st = Some a)"
| "thread_ok st t = True"

definition state_ok :: "wstate \<Rightarrow> bool" where
  "state_ok st \<longleftrightarrow>
     (case current st of
        None \<Rightarrow> stop_hb st = None
      | Some a \<Rightarrow> a < length (handles st) \<and> stop_hb st = Some a) \<and>
     (\<forall>a < length (handles st).
        h_beating (handles st ! a) \<longleftrightarrow> current st = Some a \<and> \<not> h_finalized (handles st ! a))"

definition pool_ok :: "wstate \<Rightarrow> thread list \<Rightarrow> (nat \<times> fin) list \<Rightarrow> bool" where
  "pool_ok st ths sent \<longleftrightarrow>
     (\<forall>i < length ths. thread_ok st (ths ! i)) \<and>
     (\<forall>i < length ths. \<forall>j < length ths. i \<noteq> j \<longrightarrow> closing (ths ! i) \<noteq> None \<longrightarrow>
        closing (ths ! j) = None) \<and>
     (\<forall>i < length ths. \<forall>j < length ths. \<forall>a. i \<noteq> j \<longrightarrow> marked_on (ths ! i) = Some a \<longrightarrow>
        marked_on (ths ! j) \<noteq> Some a) \<and>
     (\<forall>i < length ths. \<forall>a. marked_on (ths ! i) = Some a \<longrightarrow> a \<notin> fst ` set sent) \<and>
     distinct (map fst sent)"

definition handles_ok :: "wstate \<Rightarrow> thread list \<Rightarrow> (nat \<times> fin) list \<Rightarrow> bool" where
  "handles_ok st ths sent \<longleftrightarrow>
     (\<forall>a < length (handles st). \<not> h_finalized (handles st ! a) \<longrightarrow>
        current st = Some a \<or> (\<exists>f. Finalizing a f False \<in> set ths)) \<and>
     (\<forall>a \<in> fst ` set sent. a < length (handles st) \<and> h_finalized (handles st ! a))"

definition winv :: "wsys \<Rightarrow> bool" where
  "winv x \<longleftrightarrow>
     state_ok (w_state x) \<and> pool_ok (w_state x) (w_threads x) (w_sent x) \<and>
     handles_ok (w_state x) (w_threads x) (w_sent x)"

subsection \<open>Preservation\<close>

lemma pool_ok_update:
  assumes "pool_ok st ths sent" and "i < length ths"
    and "\<And>j. j < length ths \<Longrightarrow> j \<noteq> i \<Longrightarrow> thread_ok st (ths ! j) \<Longrightarrow> thread_ok st' (ths ! j)"
    and "thread_ok st' t"
    and "closing t \<noteq> None \<Longrightarrow> \<forall>j < length ths. j \<noteq> i \<longrightarrow> closing (ths ! j) = None"
    and "\<And>a. marked_on t = Some a \<Longrightarrow>
      (\<forall>j < length ths. j \<noteq> i \<longrightarrow> marked_on (ths ! j) \<noteq> Some a) \<and> a \<notin> fst ` set sent"
    and "sent' = sent \<or> (\<exists>a f. sent' = sent @ [(a, f)] \<and> marked_on (ths ! i) = Some a \<and> marked_on t = None)"
  shows "pool_ok st' (ths[i := t]) sent'"
proof -
  note pool = assms(1) [unfolded pool_ok_def]
  note ok = pool [THEN conjunct1, rule_format]
  note uniq = pool [THEN conjunct2, THEN conjunct1, rule_format]
  note marks = pool [THEN conjunct2, THEN conjunct2, THEN conjunct1, rule_format]
  note fresh = pool [THEN conjunct2, THEN conjunct2, THEN conjunct2, THEN conjunct1, rule_format]
  note dist = pool [THEN conjunct2, THEN conjunct2, THEN conjunct2, THEN conjunct2]
  have c1: "thread_ok st' ((ths[i := t]) ! j)" if "j < length ths" for j
    using ok [OF that] assms(3) [OF that] assms(4) that by (cases "j = i") simp_all
  have c2: "closing ((ths[i := t]) ! k) = None"
    if jk: "j < length ths" "k < length ths" "j \<noteq> k" and c: "closing ((ths[i := t]) ! j) \<noteq> None" for j k
  proof (cases "j = i")
    case True
    with c assms(2) have "closing t \<noteq> None" by simp
    from assms(5) [OF this, rule_format, OF jk(2)] jk True show ?thesis by simp
  next
    case False
    with c have cj: "closing (ths ! j) \<noteq> None" by simp
    show ?thesis
    proof (cases "k = i")
      case True
      show ?thesis
      proof (rule ccontr)
        assume "closing ((ths[i := t]) ! k) \<noteq> None"
        with True assms(2) have "closing t \<noteq> None" by simp
        from assms(5) [OF this, rule_format, OF jk(1) False] cj show False by contradiction
      qed
    next
      case False
      with uniq [OF jk cj] show ?thesis by simp
    qed
  qed
  have c3: "marked_on ((ths[i := t]) ! k) \<noteq> Some a"
    if jk: "j < length ths" "k < length ths" "j \<noteq> k" and m: "marked_on ((ths[i := t]) ! j) = Some a" for j k a
  proof (cases "j = i")
    case True
    with m assms(2) have "marked_on t = Some a" by simp
    from assms(6) [OF this, THEN conjunct1, rule_format, OF jk(2)] jk True show ?thesis by simp
  next
    case False
    with m have mj: "marked_on (ths ! j) = Some a" by simp
    show ?thesis
    proof (cases "k = i")
      case True
      have "marked_on t \<noteq> Some a"
      proof
        assume "marked_on t = Some a"
        from assms(6) [OF this, THEN conjunct1, rule_format, OF jk(1) False] mj show False
          by contradiction
      qed
      with True assms(2) show ?thesis by simp
    next
      case False
      with marks [OF jk mj] show ?thesis by simp
    qed
  qed
  have c4: "a \<notin> fst ` set sent'"
    if j: "j < length ths" and m: "marked_on ((ths[i := t]) ! j) = Some a" for j a
  proof (cases "j = i")
    case True
    with m assms(2) have t: "marked_on t = Some a" by simp
    with assms(7) have "sent' = sent" by auto
    with assms(6) [OF t] show ?thesis by simp
  next
    case False
    with m have mj: "marked_on (ths ! j) = Some a" by simp
    have "marked_on (ths ! i) \<noteq> Some a" using marks [OF j assms(2) False mj] .
    moreover have "fst ` set sent' \<subseteq> fst ` set sent \<union> {b. marked_on (ths ! i) = Some b}"
      using assms(7) by auto
    ultimately show ?thesis using fresh [OF j mj] by blast
  qed
  have c5: "distinct (map fst sent')"
    using assms(7)
  proof (elim disjE exE conjE)
    fix a f assume "sent' = sent @ [(a, f)]" "marked_on (ths ! i) = Some a"
    with dist fresh [OF assms(2)] show ?thesis by simp
  qed (simp add: dist)
  show ?thesis
    unfolding pool_ok_def length_list_update
    using c1 c2 c3 c4 c5 by (intro conjI allI impI)
qed

text \<open>A thread at a point that is neither closing nor marked may move to another such point.\<close>

lemma pool_ok_quiet:
  assumes "pool_ok st ths sent" and "i < length ths"
    and "thread_ok st t" and "closing t = None" and "marked_on t = None"
  shows "pool_ok st (ths[i := t]) sent"
  using assms by (intro pool_ok_update) auto

text \<open>\<open>handles_ok\<close> survives a move of a thread that does not wait to drop a live handle.\<close>

lemma handles_ok_move:
  assumes "handles_ok st ths sent" and "i < length ths"
    and "\<And>a f. ths ! i = Finalizing a f False \<Longrightarrow> h_finalized (handles st ! a)"
  shows "handles_ok st (ths[i := t]) sent"
proof -
  have "Finalizing a f False \<in> set (ths[i := t])"
    if "Finalizing a f False \<in> set ths" "\<not> h_finalized (handles st ! a)" for a f
  proof -
    from that(1) obtain j where j: "j < length ths" "ths ! j = Finalizing a f False"
      by (auto simp: in_set_conv_nth)
    with that(2) assms(3) have "j \<noteq> i" by auto
    with j have "(ths[i := t]) ! j = Finalizing a f False" by simp
    with j show ?thesis by (metis length_list_update nth_mem)
  qed
  with assms(1) show ?thesis unfolding handles_ok_def by blast
qed

lemma set_handle_simps [simp]:
  "handles (set_handle a f st) = (handles st)[a := f (handles st ! a)]"
  "current (set_handle a f st) = current st" "stop_hb (set_handle a f st) = stop_hb st"
  by (simp_all add: set_handle_def)

lemma not_beating: "\<not> h_beating h \<Longrightarrow> h\<lparr>h_beating := False\<rparr> = h"
  by (cases h) simp

lemma mark_finalized_simps:
  assumes "mark_finalized a st = Inr st'" and "a < length (handles st)"
  shows "current st' = current st" "stop_hb st' = stop_hb st"
    "handles st' = (handles st)[a := (handles st ! a)\<lparr>h_finalized := True, h_beating := False\<rparr>]"
    "\<not> h_finalized (handles st ! a)"
  using assms
  by (auto simp: mark_finalized_def stop_heartbeat_def not_beating split: if_splits)

lemma claim_install_simps:
  assumes "claim_install h st = (a, b, st')" and "\<not> h_beating h"
  shows "a = length (handles st)" "b \<longleftrightarrow> current st = None"
    "current st' = (if b then Some a else current st)"
    "stop_hb st' = (if b then Some a else stop_hb st)"
    "handles st' = handles st @ [if b then h\<lparr>h_beating := True\<rparr> else h]"
  using assms
  by (auto simp: claim_install_def start_heartbeat_def Let_def nth_append list_update_append
      split: if_splits)

lemma clear_current_simps:
  assumes "state_ok st"
  shows "current (clear_current st) = None" "stop_hb (clear_current st) = None"
    "length (handles (clear_current st)) = length (handles st)"
    "\<And>a. a < length (handles st) \<Longrightarrow>
       h_finalized (handles (clear_current st) ! a) = h_finalized (handles st ! a) \<and>
       \<not> h_beating (handles (clear_current st) ! a)"
  using assms
  by (auto simp: clear_current_def stop_heartbeat_def state_ok_def Let_def nth_list_update
      split: option.splits)

lemma pool_ok_append:
  assumes "pool_ok st ths sent" and "thread_ok st t" and "closing t = None" and "marked_on t = None"
  shows "pool_ok st (ths @ [t]) sent"
proof -
  note pool = assms(1) [unfolded pool_ok_def]
  have nth: "(ths @ [t]) ! j = (if j < length ths then ths ! j else t)" if "j < length (ths @ [t])" for j
    using that by (auto simp: nth_append less_Suc_eq)
  have old: "j < length ths" if "j < length (ths @ [t])" "(ths @ [t]) ! j \<noteq> t" for j
    using that nth [OF that(1)] by (auto split: if_splits)
  have "thread_ok st ((ths @ [t]) ! j)" if "j < length (ths @ [t])" for j
    using pool [THEN conjunct1, rule_format, of j] assms(2) nth [OF that] by simp
  moreover have "closing ((ths @ [t]) ! k) = None"
    if "j < length (ths @ [t])" "k < length (ths @ [t])" "j \<noteq> k" "closing ((ths @ [t]) ! j) \<noteq> None" for j k
    using pool [THEN conjunct2, THEN conjunct1, rule_format, of j k] that assms(3)
      nth [OF that(1)] nth [OF that(2)] by (simp split: if_splits)
  moreover have "marked_on ((ths @ [t]) ! k) \<noteq> Some a"
    if "j < length (ths @ [t])" "k < length (ths @ [t])" "j \<noteq> k" "marked_on ((ths @ [t]) ! j) = Some a" for j k a
    using pool [THEN conjunct2, THEN conjunct2, THEN conjunct1, rule_format, of j k a] that assms(4)
      nth [OF that(1)] nth [OF that(2)] by (simp split: if_splits)
  moreover have "a \<notin> fst ` set sent"
    if "j < length (ths @ [t])" "marked_on ((ths @ [t]) ! j) = Some a" for j a
    using pool [THEN conjunct2, THEN conjunct2, THEN conjunct2, THEN conjunct1, rule_format, of j a]
      that assms(4) nth [OF that(1)] by (simp split: if_splits)
  moreover have "distinct (map fst sent)"
    by (rule pool [THEN conjunct2, THEN conjunct2, THEN conjunct2, THEN conjunct2])
  ultimately show ?thesis
    unfolding pool_ok_def by (intro conjI allI impI)
qed

lemma closing_current:
  "thread_ok st t \<Longrightarrow> closing t \<noteq> None \<Longrightarrow> \<exists>a. current st = Some a \<and> h_finalized (handles st ! a)"
  by (induction st t rule: thread_ok.induct) auto

lemma marked_finalized:
  "thread_ok st t \<Longrightarrow> marked_on t = Some a \<Longrightarrow> a < length (handles st) \<and> h_finalized (handles st ! a)"
  by (induction st t rule: thread_ok.induct) auto

text \<open>What the critical sections do to the threads at other points.\<close>

lemma install_thread_ok:
  assumes "claim_install h st = (a, b, st')" and "\<not> h_beating h" and "thread_ok st t"
  shows "thread_ok st' t"
proof -
  note st' = claim_install_simps [OF assms(1,2)]
  have "closing t = None" if b: b
    using assms(3) st'(2) that by (cases t; cases "closing t") (auto elim: closing.elims)
  then show ?thesis
    using assms(3) st'
    by (induction st t rule: thread_ok.induct) (auto simp: nth_append split: if_splits)
qed

lemma install_state_ok:
  assumes "claim_install h st = (a, b, st')" and "\<not> h_beating h" and "\<not> h_finalized h" and "state_ok st"
  shows "state_ok st'"
proof -
  note st' = claim_install_simps [OF assms(1,2)]
  show ?thesis
  proof (cases b)
    case True
    with st' assms(2,3,4) show ?thesis
      by (auto simp: state_ok_def nth_append less_Suc_eq)
  next
    case False
    with st' assms(2,3,4) show ?thesis
      by (auto simp: state_ok_def nth_append less_Suc_eq split: option.splits)
  qed
qed

lemma mark_thread_ok:
  assumes "mark_finalized a st = Inr st'" and "a < length (handles st)" and "thread_ok st t"
  shows "thread_ok st' t"
  using assms(3) mark_finalized_simps [OF assms(1,2)] assms(2)
  by (induction st t rule: thread_ok.induct) (auto simp: nth_list_update)

lemma mark_state_ok:
  assumes "mark_finalized a st = Inr st'" and "a < length (handles st)" and "state_ok st"
  shows "state_ok st'"
  using assms(2,3) mark_finalized_simps [OF assms(1,2)]
  by (auto simp: state_ok_def nth_list_update split: option.splits)

lemma clear_state_ok: "state_ok st \<Longrightarrow> state_ok (clear_current st)"
  using clear_current_simps [of st] by (simp add: state_ok_def [of "clear_current st"])

lemma clear_thread_ok:
  assumes "state_ok st" and "current st = Some a" and "h_finalized (handles st ! a)"
    and "thread_ok st t" and "closing t = None"
  shows "thread_ok (clear_current st) t"
  using assms(2-5) clear_current_simps [OF assms(1)]
  by (induction st t rule: thread_ok.induct) auto

lemma winvI:
  "state_ok (w_state x) \<Longrightarrow> pool_ok (w_state x) (w_threads x) (w_sent x) \<Longrightarrow>
     handles_ok (w_state x) (w_threads x) (w_sent x) \<Longrightarrow> winv x"
  by (simp add: winv_def)

lemma at_pointD:
  assumes "at_point i t x" and "winv x"
  shows "i < length (w_threads x)" "w_threads x ! i = t" "thread_ok (w_state x) t"
    "state_ok (w_state x)" "pool_ok (w_state x) (w_threads x) (w_sent x)"
    "handles_ok (w_state x) (w_threads x) (w_sent x)"
  using assms by (auto simp: at_point_def winv_def pool_ok_def)

text \<open>A thread moves between points that are neither closing nor marked, the state stays.\<close>

lemma quiet_move:
  assumes "winv x" and "at_point i t x" and "thread_ok (w_state x) t'"
    and "closing t' = None" and "marked_on t' = None"
    and "\<And>a f. t = Finalizing a f False \<Longrightarrow> h_finalized (handles (w_state x) ! a)"
  shows "winv (thread_to i t' x)"
proof (rule winvI)
  note t = at_pointD [OF assms(2,1)]
  show "state_ok (w_state (thread_to i t' x))" using t(4) by (simp add: thread_to_def)
  show "pool_ok (w_state (thread_to i t' x)) (w_threads (thread_to i t' x)) (w_sent (thread_to i t' x))"
    using pool_ok_quiet [OF t(5,1) assms(3-5)] by (simp add: thread_to_def)
  show "handles_ok (w_state (thread_to i t' x)) (w_threads (thread_to i t' x)) (w_sent (thread_to i t' x))"
    using handles_ok_move [OF t(6,1)] t(2) assms(6) by (simp add: thread_to_def)
qed

lemma sys_irrelevant [simp]: "winv (x\<lparr>w_sys := s\<rparr>) = winv x"
  by (simp add: winv_def)

lemma at_point_sys [simp]: "at_point i t (x\<lparr>w_sys := s\<rparr>) = at_point i t x"
  by (simp add: at_point_def)

lemma client_claim_fresh:
  "client_claim call w s = (Inr h, s') \<Longrightarrow> \<not> h_finalized h \<and> \<not> h_beating h"
  by (auto simp: client_claim_def split: sum.splits prod.splits response.splits)

lemma install_handles_ok:
  assumes "claim_install h st = (a, b, st')" and "\<not> h_beating h" and "\<not> h_finalized h"
    and "handles_ok st ths sent" and "i < length ths" and "ths ! i = Installing h"
    and "b \<or> (\<exists>f. Finalizing a f False \<in> set extra)"
  shows "handles_ok st' (ths[i := Idle] @ extra) sent"
proof -
  note st' = claim_install_simps [OF assms(1,2)]
  have moved: "handles_ok st (ths[i := Idle]) sent"
    using assms(4-6) by (intro handles_ok_move) simp_all
  have "current st' = Some c \<or> (\<exists>f. Finalizing c f False \<in> set (ths[i := Idle] @ extra))"
    if c: "c < length (handles st')" "\<not> h_finalized (handles st' ! c)" for c
  proof (cases "c = a")
    case True
    with assms(7) st' show ?thesis by auto
  next
    case False
    with c st' have "c < length (handles st)" "\<not> h_finalized (handles st ! c)"
      by (auto simp: nth_append less_Suc_eq split: if_splits)
    with moved have "current st = Some c \<or> (\<exists>f. Finalizing c f False \<in> set (ths[i := Idle]))"
      by (auto simp: handles_ok_def)
    with st' show ?thesis by auto
  qed
  moreover have "c < length (handles st') \<and> h_finalized (handles st' ! c)" if "c \<in> fst ` set sent" for c
    using assms(4) that st' by (auto simp: handles_ok_def nth_append)
  ultimately show ?thesis by (auto simp: handles_ok_def)
qed

lemma winv_installed:
  assumes "winv x" and "at_point i (Installing h) x" and "claim_install h (w_state x) = (a, True, st')"
  shows "winv (thread_to i Idle (x\<lparr>w_state := st'\<rparr>))"
proof (rule winvI)
  note t = at_pointD [OF assms(2,1)]
  have h: "\<not> h_beating h" "\<not> h_finalized h" using t(3) by auto
  show "state_ok (w_state (thread_to i Idle (x\<lparr>w_state := st'\<rparr>)))"
    using install_state_ok [OF assms(3) h t(4)] by (simp add: thread_to_def)
  have "pool_ok st' ((w_threads x)[i := Idle]) (w_sent x)"
    by (rule pool_ok_update [OF t(5,1)]) (auto intro: install_thread_ok [OF assms(3) h(1)])
  then show "pool_ok (w_state (thread_to i Idle (x\<lparr>w_state := st'\<rparr>)))
      (w_threads (thread_to i Idle (x\<lparr>w_state := st'\<rparr>))) (w_sent (thread_to i Idle (x\<lparr>w_state := st'\<rparr>)))"
    by (simp add: thread_to_def)
  show "handles_ok (w_state (thread_to i Idle (x\<lparr>w_state := st'\<rparr>)))
      (w_threads (thread_to i Idle (x\<lparr>w_state := st'\<rparr>))) (w_sent (thread_to i Idle (x\<lparr>w_state := st'\<rparr>)))"
    using install_handles_ok [OF assms(3) h t(6,1,2), of "[]"] by (simp add: thread_to_def)
qed

lemma winv_dropped:
  assumes "winv x" and "at_point i (Installing h) x" and "claim_install h (w_state x) = (a, False, st')"
  shows "winv (x\<lparr>w_state := st', w_threads := (w_threads x)[i := Idle] @ [Finalizing a (FinFail raced) False]\<rparr>)"
proof (rule winvI)
  note t = at_pointD [OF assms(2,1)]
  have h: "\<not> h_beating h" "\<not> h_finalized h" using t(3) by auto
  note st' = claim_install_simps [OF assms(3) h(1)]
  let ?y = "x\<lparr>w_state := st', w_threads := (w_threads x)[i := Idle] @ [Finalizing a (FinFail raced) False]\<rparr>"
  show "state_ok (w_state ?y)" using install_state_ok [OF assms(3) h t(4)] by simp
  have "pool_ok st' ((w_threads x)[i := Idle]) (w_sent x)"
    by (rule pool_ok_update [OF t(5,1)]) (auto intro: install_thread_ok [OF assms(3) h(1)])
  moreover have "thread_ok st' (Finalizing a (FinFail raced) False)"
    using st' t(4) by (auto simp: state_ok_def split: option.splits)
  ultimately show "pool_ok (w_state ?y) (w_threads ?y) (w_sent ?y)"
    by (simp add: pool_ok_append)
  show "handles_ok (w_state ?y) (w_threads ?y) (w_sent ?y)"
    using install_handles_ok [OF assms(3) h t(6,1,2), of "[Finalizing a (FinFail raced) False]"] by auto
qed

lemma mark_pool_ok:
  assumes "pool_ok st ths sent" and "i < length ths" and "thread_ok st (Finalizing a f c)"
    and "mark_finalized a st = Inr st'" and "a < length (handles st)" and "a \<notin> fst ` set sent"
  shows "pool_ok st' (ths[i := Reporting a f c]) sent"
proof (rule pool_ok_update [OF assms(1,2)])
  note st' = mark_finalized_simps [OF assms(4,5)]
  have ok: "thread_ok st (ths ! j)" if "j < length ths" for j
    using assms(1) [unfolded pool_ok_def, THEN conjunct1, rule_format, OF that] .
  show "thread_ok st' (Reporting a f c)" using assms(3,5) st' by (cases c) auto
  show "thread_ok st' (ths ! j)" if "thread_ok st (ths ! j)" for j
    by (rule mark_thread_ok [OF assms(4,5) that])
  show "\<forall>j < length ths. j \<noteq> i \<longrightarrow> closing (ths ! j) = None" if "closing (Reporting a f c) \<noteq> None"
  proof (intro allI impI)
    fix j assume j: "j < length ths"
    from that have "c" by (cases c) auto
    with assms(3) st'(4) have cur: "current st = Some a" by auto
    show "closing (ths ! j) = None"
    proof (rule ccontr)
      assume "closing (ths ! j) \<noteq> None"
      from closing_current [OF ok [OF j] this] cur st'(4) show False by auto
    qed
  qed
  show "(\<forall>j < length ths. j \<noteq> i \<longrightarrow> marked_on (ths ! j) \<noteq> Some b) \<and> b \<notin> fst ` set sent"
    if "marked_on (Reporting a f c) = Some b" for b
  proof -
    from that have b: "b = a" by simp
    have "marked_on (ths ! j) \<noteq> Some a" if "j < length ths" for j
      using marked_finalized [OF ok [OF that]] st'(4) by blast
    with b assms(6) show ?thesis by simp
  qed
qed simp

lemma mark_handles_ok:
  assumes "handles_ok st ths sent" and "i < length ths" and "ths ! i = Finalizing a f c"
    and "mark_finalized a st = Inr st'" and "a < length (handles st)"
  shows "handles_ok st' (ths[i := Reporting a f c]) sent"
  unfolding handles_ok_def
proof (intro conjI allI ballI impI)
  note st' = mark_finalized_simps [OF assms(4,5)]
  note live = assms(1) [unfolded handles_ok_def, THEN conjunct1, rule_format]
  note gone = assms(1) [unfolded handles_ok_def, THEN conjunct2, rule_format]
  fix b assume b: "b < length (handles st')" "\<not> h_finalized (handles st' ! b)"
  from b(2) st'(3) assms(5) have ne: "b \<noteq> a" by auto
  with b st'(3) have "b < length (handles st)" "\<not> h_finalized (handles st ! b)" by simp_all
  from live [OF this] show "current st' = Some b \<or> (\<exists>g. Finalizing b g False \<in> set (ths[i := Reporting a f c]))"
  proof (elim disjE exE)
    assume "current st = Some b"
    with st'(1) show ?thesis by simp
  next
    fix g assume "Finalizing b g False \<in> set ths"
    then obtain j where j: "j < length ths" "ths ! j = Finalizing b g False"
      unfolding in_set_conv_nth by (elim exE conjE)
    with assms(3) ne have "j \<noteq> i" by auto
    with j have "(ths[i := Reporting a f c]) ! j = Finalizing b g False" by simp
    with j(1) have "Finalizing b g False \<in> set (ths[i := Reporting a f c])"
      unfolding in_set_conv_nth by (intro exI [of _ j]) simp
    then show ?thesis by (intro disjI2 exI)
  qed
next
  note st' = mark_finalized_simps [OF assms(4,5)]
  note gone = assms(1) [unfolded handles_ok_def, THEN conjunct2, rule_format]
  fix b assume "b \<in> fst ` set sent"
  from gone [OF this] show "b < length (handles st')" "h_finalized (handles st' ! b)"
    unfolding st'(3) by (cases "b = a"; simp)+
qed

lemma winv_marked:
  assumes "winv x" and "at_point i (Finalizing a f c) x" and "mark_finalized a (w_state x) = Inr st'"
  shows "winv (thread_to i (Reporting a f c) (x\<lparr>w_state := st'\<rparr>))"
proof -
  note t = at_pointD [OF assms(2,1)]
  have a: "a < length (handles (w_state x))" using t(3) by (cases c) auto
  have "\<not> h_finalized (handles (w_state x) ! a)" by (rule mark_finalized_simps(4) [OF assms(3) a])
  then have new: "a \<notin> fst ` set (w_sent x)"
    using t(6) [unfolded handles_ok_def, THEN conjunct2, rule_format, of a] by argo
  show ?thesis
    by (rule winvI)
      (simp_all add: thread_to_def mark_state_ok [OF assms(3) a t(4)]
        mark_pool_ok [OF t(5,1,3) assms(3) a new] mark_handles_ok [OF t(6,1,2) assms(3) a])
qed

text \<open>The finalizing RPC was sent: the thread goes on to clear the claim, or ends.\<close>

lemma winv_sent:
  assumes "winv x" and "at_point i (Reporting a f c) x"
    and "t' = Idle \<or> c \<and> t' = Clearing a"
  shows "winv (thread_to i t' (x\<lparr>w_sys := s', w_sent := w_sent x @ [(a, f)]\<rparr>))"
proof (rule winvI)
  note t = at_pointD [OF assms(2,1)]
  let ?st = "w_state x" and ?ths = "w_threads x"
  let ?y = "thread_to i t' (x\<lparr>w_sys := s', w_sent := w_sent x @ [(a, f)]\<rparr>)"
  have a: "a < length (handles ?st)" "h_finalized (handles ?st ! a)" using t(3) by (cases c; auto)+
  show "state_ok (w_state ?y)" using t(4) by (simp add: thread_to_def)
  have "pool_ok ?st (?ths[i := t']) (w_sent x @ [(a, f)])"
  proof (rule pool_ok_update [OF t(5,1)])
    show "thread_ok ?st t'" using assms(3) t(3) by auto
    show "\<forall>j < length ?ths. j \<noteq> i \<longrightarrow> closing (?ths ! j) = None" if "closing t' \<noteq> None"
    proof (intro allI impI)
      fix j assume j: "j < length ?ths" "j \<noteq> i"
      from that assms(3) have "c" by auto
      then have "closing (?ths ! i) \<noteq> None" using t(2) by simp
      with t(5) t(1) j show "closing (?ths ! j) = None" unfolding pool_ok_def by metis
    qed
  qed (use assms(3) t(2) in auto)
  then show "pool_ok (w_state ?y) (w_threads ?y) (w_sent ?y)" by (simp add: thread_to_def)
  have "handles_ok ?st (?ths[i := t']) (w_sent x)"
    using t(2) by (intro handles_ok_move [OF t(6,1)]) simp
  with a show "handles_ok (w_state ?y) (w_threads ?y) (w_sent ?y)"
    by (auto simp: handles_ok_def thread_to_def)
qed

lemma winv_cleared:
  assumes "winv x" and "at_point i (Clearing a) x"
  shows "winv (thread_to i Idle (x\<lparr>w_state := clear_current (w_state x)\<rparr>))"
proof (rule winvI)
  note t = at_pointD [OF assms(2,1)]
  let ?st = "w_state x" and ?ths = "w_threads x"
  let ?y = "thread_to i Idle (x\<lparr>w_state := clear_current (w_state x)\<rparr>)"
  have cur: "current ?st = Some a" "h_finalized (handles ?st ! a)" using t(3) by auto
  note st' = clear_current_simps [OF t(4)]
  show "state_ok (w_state ?y)" using clear_state_ok [OF t(4)] by (simp add: thread_to_def)
  have "pool_ok (clear_current ?st) (?ths[i := Idle]) (w_sent x)"
  proof (rule pool_ok_update [OF t(5,1)])
    fix j assume j: "j < length ?ths" "j \<noteq> i" "thread_ok ?st (?ths ! j)"
    have "closing (?ths ! i) \<noteq> None" using t(2) by simp
    with t(5) t(1) j have "closing (?ths ! j) = None" unfolding pool_ok_def by metis
    with clear_thread_ok [OF t(4) cur j(3)] show "thread_ok (clear_current ?st) (?ths ! j)" .
  qed auto
  then show "pool_ok (w_state ?y) (w_threads ?y) (w_sent ?y)" by (simp add: thread_to_def)
  have "handles_ok ?st (?ths[i := Idle]) (w_sent x)"
    using t(2) by (intro handles_ok_move [OF t(6,1)]) simp
  with cur st' show "handles_ok (w_state ?y) (w_threads ?y) (w_sent ?y)"
    by (auto simp: handles_ok_def thread_to_def)
qed

lemma wstep_winv: "wstep w x y \<Longrightarrow> winv x \<Longrightarrow> winv y"
proof (induction rule: wstep.induct)
  case (claim_begin i x)
  then show ?case by (intro quiet_move [of x i Idle]) auto
next
  case (claim_rpc i x call h s')
  then show ?case
    using client_claim_fresh [OF claim_rpc(2)] by (intro quiet_move [of _ i Claiming]) auto
next
  case (claim_failed i x call e s')
  then show ?case by (intro quiet_move [of _ i Claiming]) auto
next
  case (installed i h x a st')
  then show ?case using winv_installed by blast
next
  case (dropped i h x a st')
  then show ?case using winv_dropped by blast
next
  case (finalize_begin i x tid a f)
  then have "state_ok (w_state x)" by (simp add: winv_def)
  with finalize_begin have "thread_ok (w_state x) (Finalizing a f True)"
    by (auto simp: require_task_def state_ok_def split: option.splits if_splits)
  with finalize_begin show ?case by (intro quiet_move [of x i Idle]) auto
next
  case (marked i a f c x st')
  then show ?case using winv_marked by blast
next
  case (already_finalized i a f c x e)
  then show ?case
    by (intro quiet_move [of x i "Finalizing a f c"]) (auto simp: mark_finalized_def split: if_splits)
next
  case (reported i a f c x call s')
  then show ?case by (intro winv_sent) auto
next
  case (report_failed i a f c x call e s')
  then show ?case by (intro winv_sent) auto
next
  case (cleared i a x)
  then show ?case using winv_cleared by blast
next
  case (other_call x tid a req _ call)
  then show ?case by simp
next
  case (elsewhere x s')
  then show ?case by simp
qed

lemma winv_start: "winv (idle_pool n s)"
  by (simp add: winv_def idle_pool_def new_state_def state_ok_def pool_ok_def handles_ok_def)

lemma wsteps_winv: "wsteps w x y \<Longrightarrow> winv x \<Longrightarrow> winv y"
  by (induction rule: wsteps.induct) (auto intro: wstep_winv)

end
