(* ===== verification/Worker_Protocol.thy ===== *)
theory Worker_Protocol
  imports Worker_Threads
begin

section \<open>Properties of the worker\<close>

text \<open>
  What the worker's State guarantees to the agent and to mastermind: under every interleaving
  (\<open>wsteps\<close>), for the sequential operations, and for the worker connected to mastermind's server.
  Two theorems show where the guarantee ends: a finalizing RPC that fails leaves the State with a
  claim it can neither finalize nor replace, and opening a pull request before the first
  heartbeat is such a failure.
\<close>

subsection \<open>All interleavings\<close>

lemma wsteps_from_start: "wsteps w (idle_pool n s) x \<Longrightarrow> winv x"
  using wsteps_winv winv_start by blast

lemma wsteps_one: "wstep w x y \<Longrightarrow> wsteps w x y"
  using wsteps.step [OF wsteps.refl] .

definition sample_sys :: sys where
  "sample_sys = \<lparr>sys_db = sample_db, sys_metrics = zero_metrics\<rparr>"

text \<open>A connection on which claims succeed and finalizing calls find no server.\<close>

definition flaky :: connection where
  "flaky req s =
     (case req of
        ReqClaimTask w \<Rightarrow> (Inr (RespTask \<lparr>w_id = ''t'', w_name = ''n'', w_payload = JNull\<rparr>), s)
      | _ \<Rightarrow> (Inl (Unavailable, []), s))"

definition flaky_handle :: handle where
  "flaky_handle = \<lparr>h_id = ''t'', h_name = ''n'', h_payload = JNull, h_finalized = False,
     h_beating = False\<rparr>"

lemma flaky_claim: "client_claim flaky w s = (Inr flaky_handle, s)"
  by (simp add: client_claim_def flaky_def flaky_handle_def)

lemma flaky_task_call: "task_call flaky (fin_request w h f) s = (Inl (RpcFailed (Unavailable, [])), s)"
  by (cases f) (simp_all add: task_call_def flaky_def fin_request_def)

definition claimed_state :: wstate where
  "claimed_state = \<lparr>handles = [flaky_handle\<lparr>h_beating := True\<rparr>], current = Some 0, stop_hb = Some 0\<rparr>"

lemma claimed_install: "claim_install flaky_handle new_state = (0, True, claimed_state)"
  by (simp add: claim_install_def new_state_def start_heartbeat_def set_handle_def flaky_handle_def
      claimed_state_def)

definition claimed_pool :: "sys \<Rightarrow> wsys" where
  "claimed_pool s = \<lparr>w_state = claimed_state, w_threads = [Idle], w_sys = s, w_sent = []\<rparr>"

lemma claimed_pool_reached: "wsteps w (idle_pool 1 s) (claimed_pool s)"
proof -
  let ?x = "idle_pool 1 s"
  let ?y = "thread_to 0 Claiming ?x"
  let ?z = "thread_to 0 (Installing flaky_handle) (?y\<lparr>w_sys := s\<rparr>)"
  have 1: "wstep w ?x ?y"
    by (rule wstep.claim_begin) (simp_all add: at_point_def idle_pool_def claim_check_def new_state_def)
  have 2: "wstep w ?y ?z"
    by (rule wstep.claim_rpc [where call = flaky]) (simp_all add: at_point_def idle_pool_def thread_to_def flaky_claim)
  have 3: "wstep w ?z (thread_to 0 Idle (?z\<lparr>w_state := claimed_state\<rparr>))"
    by (rule wstep.installed [where a = 0 and h = flaky_handle])
      (simp_all add: at_point_def idle_pool_def thread_to_def claimed_install)
  have "thread_to 0 Idle (?z\<lparr>w_state := claimed_state\<rparr>) = claimed_pool s"
    by (simp add: thread_to_def idle_pool_def claimed_pool_def)
  with 1 2 3 show ?thesis by (metis wsteps.intros)
qed

text \<open>C21: One claim at a time, and the heartbeat follows it: in every state that any number of
  concurrent tool calls can produce, whatever mastermind answers, a task that was claimed and not
  finalized is the current one or is about to be dropped by the goroutine that fails a raced
  claim; the heartbeat runs for the current task until it is finalized, and for no other.\<close>

theorem worker_one_claim:
  assumes "wsteps w (idle_pool n s) x"
  shows "\<forall>a < length (handles (w_state x)).
    (h_beating (handles (w_state x) ! a) \<longleftrightarrow>
       current (w_state x) = Some a \<and> \<not> h_finalized (handles (w_state x) ! a)) \<and>
    (h_finalized (handles (w_state x) ! a) \<or> current (w_state x) = Some a \<or>
       (\<exists>f. Finalizing a f False \<in> set (w_threads x)))"
  using wsteps_from_start [OF assms] by (simp add: winv_def state_ok_def handles_ok_def) blast

lemma worker_one_claim_witness: "h_beating (handles (w_state (claimed_pool sample_sys)) ! 0)"
  using worker_one_claim [OF claimed_pool_reached, of sample_sys]
  by (simp add: claimed_pool_def claimed_state_def flaky_handle_def)

text \<open>C22: At most one finalizing RPC is ever sent for a claimed task, by whichever of the concurrent
  tool calls came first, and only after the task was marked and its heartbeat stopped.\<close>

theorem finalized_once:
  assumes "wsteps w (idle_pool n s) x"
  shows "distinct (map fst (w_sent x)) \<and>
    (\<forall>(a, f) \<in> set (w_sent x). h_finalized (handles (w_state x) ! a) \<and>
       \<not> h_beating (handles (w_state x) ! a))"
proof -
  have inv: "winv x" by (rule wsteps_from_start [OF assms])
  then have sent: "\<forall>a \<in> fst ` set (w_sent x). a < length (handles (w_state x)) \<and>
      h_finalized (handles (w_state x) ! a)"
    by (simp add: winv_def handles_ok_def)
  have "\<forall>a < length (handles (w_state x)). h_beating (handles (w_state x) ! a) \<longrightarrow>
      \<not> h_finalized (handles (w_state x) ! a)"
    using inv by (simp add: winv_def state_ok_def)
  with sent have "\<forall>(a, f) \<in> set (w_sent x). h_finalized (handles (w_state x) ! a) \<and>
      \<not> h_beating (handles (w_state x) ! a)"
    by fastforce
  moreover have "distinct (map fst (w_sent x))"
    using inv by (simp add: winv_def pool_ok_def)
  ultimately show ?thesis by blast
qed

lemma finalized_once_witness: "distinct (map fst (w_sent (claimed_pool sample_sys)))"
  using finalized_once [OF claimed_pool_reached] by blast

subsection \<open>A finalizing RPC that fails\<close>

definition wedged :: "nat \<Rightarrow> wsys \<Rightarrow> bool" where
  "wedged a x \<longleftrightarrow> current (w_state x) = Some a \<and> a < length (handles (w_state x)) \<and>
     h_finalized (handles (w_state x) ! a) \<and> (\<forall>t \<in> set (w_threads x). closing t = None)"

lemma closing_simps [simp]: "closing (Reporting a f c) = (if c then Some a else None)"
  by (cases c) simp_all

lemma wedged_thread_to:
  "wedged a x \<Longrightarrow> closing t = None \<Longrightarrow> wedged a (thread_to i t x)"
  by (auto simp: wedged_def thread_to_def dest!: set_update_subset_insert [THEN subsetD])

lemma wedged_at: "wedged a x \<Longrightarrow> at_point i t x \<Longrightarrow> closing t = None"
  by (auto simp: wedged_def at_point_def)

lemma wedged_state_update:
  "wedged a x \<Longrightarrow> current st = Some a \<Longrightarrow> a < length (handles st) \<Longrightarrow> h_finalized (handles st ! a) \<Longrightarrow>
     wedged a (x\<lparr>w_state := st\<rparr>)"
  by (simp add: wedged_def)

lemma wedged_sys [simp]:
  "wedged a (x\<lparr>w_sys := s\<rparr>) = wedged a x" "wedged a (x\<lparr>w_sent := l\<rparr>) = wedged a x"
  by (simp_all add: wedged_def)

lemma wedged_marked:
  assumes "winv x" and "wedged a x" and "at_point i (Finalizing b f c) x"
    and "mark_finalized b (w_state x) = Inr st'"
  shows "wedged a (thread_to i (Reporting b f c) (x\<lparr>w_state := st'\<rparr>))"
proof -
  note t = at_pointD [OF assms(3,1)]
  have b: "b < length (handles (w_state x))" using t(3) by (cases c) auto
  note st' = mark_finalized_simps [OF assms(4) b]
  have ne: "a \<noteq> b" using assms(2) st'(4) by (auto simp: wedged_def)
  with t(3) assms(2) st'(4) have "\<not> c" by (cases c) (auto simp: wedged_def)
  with ne assms(2) st' show ?thesis
    by (intro wedged_thread_to wedged_state_update) (simp_all add: wedged_def)
qed

lemma wedged_step: "wstep w x y \<Longrightarrow> winv x \<Longrightarrow> wedged a x \<Longrightarrow> wedged a y"
proof (induction rule: wstep.induct)
  case (installed i h x b st')
  then have "\<not> h_beating h" using at_pointD(3) [OF installed(1)] by simp
  with claim_install_simps(2) [OF installed(2)] installed(4) show ?case by (simp add: wedged_def)
next
  case (dropped i h x b st')
  then have "\<not> h_beating h" using at_pointD(3) [OF dropped(1)] by simp
  note st' = claim_install_simps [OF dropped(2) this]
  from dropped(4) st' show ?case
    by (auto simp: wedged_def nth_append dest!: set_update_subset_insert [THEN subsetD])
next
  case (marked i b f c x st')
  then show ?case by (intro wedged_marked) auto
next
  case (cleared i b x)
  then show ?case using wedged_at by fastforce
next
  case (reported i b f c x call s')
  then have "\<not> c" using wedged_at [OF reported(4,1)] by (simp split: if_splits)
  with reported show ?case by (intro wedged_thread_to) simp_all
qed (auto intro: wedged_thread_to)

lemma wedged_steps:
  assumes "wsteps w x y" and "winv x" and "wedged a x"
  shows "winv y \<and> wedged a y"
  using assms by (induction rule: wsteps.induct) (auto intro: wstep_winv wedged_step)

text \<open>C23: A failed report wedges the worker for good. Take a tool call that has marked its task and
  whose finalizing RPC fails, with no other tool call between its own RPC and clearing the claim.
  From then on, in every interleaving and whatever mastermind answers: claiming always fails with
  ErrAlreadyHaveTask, completing, failing or parking the task with ErrAlreadyFinalized, and no
  heartbeat runs. Only a restart of the worker ends this.\<close>

theorem failed_report_wedges:
  assumes "wsteps w (idle_pool n s) x" and "at_point i (Reporting a f True) x"
    and "task_call call (fin_request w (handles (w_state x) ! a) f) (w_sys x) = (Inl e, s')"
    and "wsteps w (thread_to i Idle (x\<lparr>w_sys := s', w_sent := w_sent x @ [(a, f)]\<rparr>)) y"
  shows "wstep w x (thread_to i Idle (x\<lparr>w_sys := s', w_sent := w_sent x @ [(a, f)]\<rparr>))
    \<and> claim_check (w_state y) = Inl ErrAlreadyHaveTask
    \<and> current_task (w_state y) = Inr a
    \<and> mark_finalized a (w_state y) = Inl ErrAlreadyFinalized
    \<and> \<not> h_beating (handles (w_state y) ! a)"
proof -
  let ?z = "thread_to i Idle (x\<lparr>w_sys := s', w_sent := w_sent x @ [(a, f)]\<rparr>)"
  have step: "wstep w x ?z" by (rule wstep.report_failed [OF assms(2,3)])
  have inv: "winv x" by (rule wsteps_from_start [OF assms(1)])
  note t = at_pointD [OF assms(2) inv]
  have "closing (w_threads x ! j) = None" if "j < length (w_threads x)" "j \<noteq> i" for j
    using t(5) [unfolded pool_ok_def, THEN conjunct2, THEN conjunct1, rule_format, of i j] t(1,2) that
    by simp
  then have "closing ((w_threads x)[i := Idle] ! j) = None" if "j < length (w_threads x)" for j
    using that by (cases "j = i") simp_all
  then have "\<forall>u \<in> set ((w_threads x)[i := Idle]). closing u = None"
    by (auto simp: in_set_conv_nth)
  with t(3) have "wedged a ?z" by (simp add: wedged_def thread_to_def)
  from wedged_steps [OF assms(4) wstep_winv [OF step inv] this]
  have y: "winv y" "wedged a y" by blast+
  then have "\<not> h_beating (handles (w_state y) ! a)" by (simp add: winv_def state_ok_def wedged_def)
  with y(2) step show ?thesis
    by (simp add: wedged_def claim_check_def current_task_def mark_finalized_def)
qed

definition reporting_pool :: "sys \<Rightarrow> wsys" where
  "reporting_pool s = \<lparr>w_state = claimed_state\<lparr>handles := [flaky_handle\<lparr>h_finalized := True\<rparr>]\<rparr>,
     w_threads = [Reporting 0 FinComplete True], w_sys = s, w_sent = []\<rparr>"

lemma reporting_pool_reached: "wsteps w (idle_pool 1 s) (reporting_pool s)"
proof -
  have 1: "wstep w (claimed_pool s) (thread_to 0 (Finalizing 0 FinComplete True) (claimed_pool s))"
    by (rule wstep.finalize_begin [where tid = "[]"])
      (simp_all add: at_point_def claimed_pool_def require_task_def claimed_state_def)
  have 2: "wstep w (thread_to 0 (Finalizing 0 FinComplete True) (claimed_pool s)) (reporting_pool s)"
    using wstep.marked [where x = "thread_to 0 (Finalizing 0 FinComplete True) (claimed_pool s)" and i = 0
        and a = 0 and f = FinComplete and c = True and w = w
        and st' = "claimed_state\<lparr>handles := [flaky_handle\<lparr>h_finalized := True\<rparr>]\<rparr>"]
    by (simp add: at_point_def claimed_pool_def claimed_state_def thread_to_def mark_finalized_def
        stop_heartbeat_def set_handle_def flaky_handle_def reporting_pool_def)
  from claimed_pool_reached 1 2 show ?thesis by (metis wsteps.intros)
qed

lemma failed_report_wedges_witness:
  "mark_finalized 0 (w_state (thread_to 0 Idle
     (reporting_pool sample_sys\<lparr>w_sys := sample_sys, w_sent := [(0, FinComplete)]\<rparr>))) = Inl ErrAlreadyFinalized"
proof -
  have "at_point 0 (Reporting 0 FinComplete True) (reporting_pool sample_sys)"
    by (simp add: at_point_def reporting_pool_def)
  from failed_report_wedges [OF reporting_pool_reached this flaky_task_call wsteps.refl]
  show ?thesis by (simp add: reporting_pool_def)
qed

subsection \<open>The worker and mastermind together\<close>

text \<open>The worker's channel to mastermind: the RPCs run on its server, with the worker token.\<close>

definition mastermind_conn :: "config \<Rightarrow> env \<Rightarrow> connection" where
  "mastermind_conn cfg en = serves cfg en (bearer_metadata (worker_token cfg))"

lemma mastermind_conn_dispatch:
  "worker_request req \<Longrightarrow>
     mastermind_conn cfg en req s = dispatch (parse_uuid cfg) (show_uuid cfg) en req s"
  by (simp add: mastermind_conn_def serves_presents)

text \<open>A claim over the channel: the State holds a handle on a task that mastermind just gave to this
  worker.\<close>

lemma claim_next_mastermind:
  assumes "distinct (ids (sys_db s))"
    and "claim_next (mastermind_conn cfg en) w (new_state, s) = (Inr a, (st, s1))"
  obtains i c where "find_task i (sys_db s) = Some c" and "t_status c = Pending"
    and "find_task i (sys_db s1) = Some (claim_row w (now_at en) c)"
    and "sys_db s1 = (sys_db s)\<lparr>tasks :=
      sql_update (\<lambda>t. t_id t = i) (claim_row w (now_at en)) (tasks (sys_db s))\<rparr>"
    and "handles st ! a = \<lparr>h_id = show_uuid cfg i, h_name = t_name c, h_payload = t_payload c,
      h_finalized = False, h_beating = True\<rparr>"
    and "current st = Some a" and "stop_hb st = Some a" and "a < length (handles st)" and "w \<noteq> []"
proof -
  obtain h where claim: "client_claim (mastermind_conn cfg en) w s = (Inr h, s1)"
    and install: "claim_install h new_state = (a, True, st)"
    using assms(2)
    by (auto simp: claim_next_def claim_check_def new_state_def split: sum.splits prod.splits bool.splits)
  then obtain t where w: "w \<noteq> []" and t: "claim_task en w (sys_db s) = (Inr (Some t), sys_db s1)"
    and h: "h = \<lparr>h_id = show_uuid cfg (t_id t), h_name = t_name t, h_payload = t_payload t,
      h_finalized = False, h_beating = False\<rparr>"
    by (auto simp: client_claim_def mastermind_conn_dispatch as_def rpc_claim_def Let_def
        split: sum.splits prod.splits option.splits if_splits)
  from claim_task_SomeD [OF assms(1) t]
  obtain c where c: "c \<in> set (tasks (sys_db s))" "eligible (now_at en) c" "t = claim_row w (now_at en) c"
    "sys_db s1 = (sys_db s)\<lparr>tasks :=
      sql_update (\<lambda>u. t_id u = t_id c) (claim_row w (now_at en)) (tasks (sys_db s))\<rparr>"
    by metis
  have found: "find_task (t_id c) (sys_db s) = Some c"
    using c(1) by (rule find_key_distinct [OF assms(1)])
  have after: "find_task (t_id c) (sys_db s1) = Some (claim_row w (now_at en) c)"
    unfolding c(4) using find_key_sql_update_one [where f = "claim_row w (now_at en)" and j = "t_id c", OF found] by simp
  have names: "t_name t = t_name c" "t_payload t = t_payload c" "t_id t = t_id c"
    using c(3) by (simp_all add: claim_row_def)
  note st = claim_install_simps [OF install]
  have "\<not> h_beating h" by (simp add: h)
  from st [OF this] h names
  have "handles st ! a = \<lparr>h_id = show_uuid cfg (t_id c), h_name = t_name c, h_payload = t_payload c,
      h_finalized = False, h_beating = True\<rparr>" "current st = Some a" "stop_hb st = Some a"
    "a < length (handles st)"
    by (simp_all add: new_state_def)
  with found c(2) after c(4) w that show thesis by (simp add: eligible_def)
qed

lemma state_finalize_held:
  assumes "current st = Some a" and "a < length (handles st)" and "\<not> h_finalized (handles st ! a)"
    and "tid = [] \<or> tid = h_id (handles st ! a)"
    and "task_call call (fin_request w (handles st ! a) f) s = (r, s')"
    and "mark_finalized a st = Inr st'"
  shows "state_finalize call w tid f (st, s) =
    (case r of Inl e \<Rightarrow> (Inl e, (st', s')) | Inr _ \<Rightarrow> (Inr (), (clear_current st', s')))"
  using assms
  by (auto simp: state_finalize_def require_task_def task_finalize_def split: sum.splits)

lemma report_success_held:
  assumes "find_task i d = Some t" and "holds_claim w t" and "fault en 0 = None"
  shows "report_result en w i True err d =
    (Inr False, d\<lparr>tasks := sql_update (\<lambda>t. t_id t = i \<and> holds_claim w t) (complete_row (now_at en)) (tasks d)\<rparr>)"
  using assms by (auto simp: report_result_def owner_update_eq dest: find_key_SomeD)

text \<open>C24: The agent's whole session: claim the next task, then complete it. With mastermind
  reachable, the task the agent got is completed in the database with no other row touched, the
  agent's call succeeds, and the worker is ready for the next claim.\<close>

theorem claim_then_complete:
  assumes "distinct (ids (sys_db s))" and "\<forall>i. parse_uuid cfg (show_uuid cfg i) = Some i"
    and "claim_next (mastermind_conn cfg en) w (new_state, s) = (Inr a, (st, s1))"
    and "fault en' 0 = None"
  shows "\<exists>i c t s2 st'. find_task i (sys_db s) = Some c \<and> t_status c = Pending \<and>
    h_id (handles st ! a) = show_uuid cfg i \<and>
    state_finalize (mastermind_conn cfg en') w (h_id (handles st ! a)) FinComplete (st, s1) =
      (Inr (), (st', s2)) \<and>
    claim_check st' = Inr () \<and>
    find_task i (sys_db s2) = Some t \<and> t_status t = Completed \<and>
    t_attempt_count t = t_attempt_count c + 1 \<and> t_completed_at t = Some (now_at en') \<and>
    (\<forall>j. j \<noteq> i \<longrightarrow> find_task j (sys_db s2) = find_task j (sys_db s)) \<and>
    completed_total (sys_metrics s2) = completed_total (sys_metrics s1) + 1"
proof -
  from claim_next_mastermind [OF assms(1,3)]
  obtain i c where c: "find_task i (sys_db s) = Some c" "t_status c = Pending"
    and held: "find_task i (sys_db s1) = Some (claim_row w (now_at en) c)"
    and rows: "sys_db s1 = (sys_db s)\<lparr>tasks :=
      sql_update (\<lambda>t. t_id t = i) (claim_row w (now_at en)) (tasks (sys_db s))\<rparr>"
    and h: "handles st ! a = \<lparr>h_id = show_uuid cfg i, h_name = t_name c, h_payload = t_payload c,
      h_finalized = False, h_beating = True\<rparr>"
    and st: "current st = Some a" "stop_hb st = Some a" "a < length (handles st)" .
  have holds: "holds_claim w (claim_row w (now_at en) c)"
    by (simp add: holds_claim_def active_status_def claim_row_def)
  let ?d = "(sys_db s1)\<lparr>tasks := sql_update (\<lambda>t. t_id t = i \<and> holds_claim w t)
    (complete_row (now_at en')) (tasks (sys_db s1))\<rparr>"
  let ?m = "(sys_metrics s1)\<lparr>completed_total := completed_total (sys_metrics s1) + 1\<rparr>"
  let ?s2 = "\<lparr>sys_db = ?d, sys_metrics = ?m\<rparr>"
  have sent: "task_call (mastermind_conn cfg en') (fin_request w (handles st ! a) FinComplete) s1 = (Inr (), ?s2)"
    using report_success_held [OF held holds assms(4)] assms(2) h
    by (simp add: task_call_def fin_request_def mastermind_conn_dispatch as_def rpc_report_result_def
        Let_def reply_def)
  obtain st' where mark: "mark_finalized a st = Inr st'" using h by (simp add: mark_finalized_def)
  have fin: "state_finalize (mastermind_conn cfg en') w (h_id (handles st ! a)) FinComplete (st, s1) =
      (Inr (), (clear_current st', ?s2))"
    using state_finalize_held [OF st(1,3) _ _ sent mark] h by simp
  have clear: "claim_check (clear_current st') = Inr ()"
    by (simp add: claim_check_def clear_current_def stop_heartbeat_def set_handle_def Let_def
        split: option.split)
  have others: "find_task j ?d = find_task j (sys_db s)" if "j \<noteq> i" for j
    using that by (simp add: rows find_key_sql_update option.map_comp)
      (cases "find_task j (sys_db s)"; auto dest: find_key_SomeD)
  have mine: "find_task i ?d = Some (complete_row (now_at en') (claim_row w (now_at en) c))"
    using held holds by (simp add: find_key_sql_update) (auto dest: find_key_SomeD)
  show ?thesis
    by (rule exI [of _ i], rule exI [of _ c],
        rule exI [of _ "complete_row (now_at en') (claim_row w (now_at en) c)"],
        rule exI [of _ ?s2], rule exI [of _ "clear_current st'"])
      (use c h fin clear mine others in \<open>simp add: complete_row_def claim_row_def\<close>)
qed

text \<open>A session on the sample database.\<close>

lemma sample_claim:
  "claim_task (calm 1000 0) w sample_db =
     (Inr (Some (claim_row w 1000 (sample_task 1 Pending))),
      sample_db\<lparr>tasks := sql_update (\<lambda>t. t_id t = 1) (claim_row w 1000) (tasks sample_db)\<rparr>)"
proof -
  have "claim_candidate (calm 1000 0) (tasks sample_db) = Some (sample_task 1 Pending)"
    by (simp add: claim_candidate_def sample_defs eligible_def)
  moreover have "int4 (t_attempt_count (sample_task 1 Pending) + 1)"
    by (simp add: sample_task_def int4_def)
  moreover have "t_id (sample_task 1 Pending) = 1" by (simp add: sample_task_def)
  ultimately show ?thesis by (simp add: claim_task_eq [OF db_wf_distinct [OF sample_db_wf]])
qed

lemma sample_claim_next:
  "\<exists>st s1. claim_next (mastermind_conn number_config (calm 1000 0)) ''w'' (new_state, sample_sys) =
     (Inr 0, (st, s1))"
proof -
  have "mastermind_conn number_config (calm 1000 0) (ReqClaimTask ''w'') sample_sys =
      as RespTask (rpc_claim (show_uuid number_config) (calm 1000 0) ''w'' sample_sys)"
    by (simp add: mastermind_conn_dispatch)
  then show ?thesis
    by (simp add: claim_next_def claim_check_def new_state_def client_claim_def rpc_claim_def as_def
        sample_sys_def sample_claim claim_install_def start_heartbeat_def Let_def)
qed

lemma claim_then_complete_witness:
  "\<exists>st s1 st' s2. claim_next (mastermind_conn number_config (calm 1000 0)) ''w'' (new_state, sample_sys) =
       (Inr 0, (st, s1)) \<and>
     state_finalize (mastermind_conn number_config (calm 2000 0)) ''w'' (h_id (handles st ! 0)) FinComplete
       (st, s1) = (Inr (), (st', s2)) \<and> claim_check st' = Inr ()"
proof -
  obtain st s1 where claim: "claim_next (mastermind_conn number_config (calm 1000 0)) ''w''
      (new_state, sample_sys) = (Inr 0, (st, s1))" using sample_claim_next by blast
  have "distinct (ids (sys_db sample_sys))"
    using db_wf_distinct [OF sample_db_wf] by (simp add: sample_sys_def)
  from claim_then_complete [OF this number_config_round_trip claim calm_simps(3), of 2000 0]
  obtain st' s2 where "state_finalize (mastermind_conn number_config (calm 2000 0)) ''w''
      (h_id (handles st ! 0)) FinComplete (st, s1) = (Inr (), (st', s2))" "claim_check st' = Inr ()"
    by (elim exE conjE) simp
  with claim show ?thesis by (intro exI conjI)
qed

text \<open>C25: Opening a pull request before the first heartbeat wedges the worker. When the agent claims
  a task and calls open_pr before any heartbeat, progress note or log line has moved the task to
  in_progress, mastermind answers FAILED_PRECONDITION and keeps the task claimed by this worker;
  the State has then given the claim up (its heartbeat is stopped, every further finalization is
  refused locally), but does not let the agent claim another task.\<close>

theorem early_open_pr_wedges:
  assumes "distinct (ids (sys_db s))" and "\<forall>i. parse_uuid cfg (show_uuid cfg i) = Some i"
    and "claim_next (mastermind_conn cfg en) w (new_state, s) = (Inr a, (st, s1))"
    and "fault en' 0 = None" and "url \<noteq> []"
  shows "\<exists>m st'. state_finalize (mastermind_conn cfg en') w [] (FinOpenPR url) (st, s1) =
      (Inl (RpcFailed (FailedPrecondition, m)), (st', s1)) \<and>
    (\<forall>call s. claim_next call w (st', s) = (Inl ErrAlreadyHaveTask, (st', s)) \<and>
       (\<forall>f. state_finalize call w [] f (st', s) = (Inl ErrAlreadyFinalized, (st', s))) \<and>
       heartbeat_tick call w a (st', s) = (st', s))"
proof -
  from claim_next_mastermind [OF assms(1,3)]
  obtain i c where held: "find_task i (sys_db s1) = Some (claim_row w (now_at en) c)"
    and rows: "sys_db s1 = (sys_db s)\<lparr>tasks :=
      sql_update (\<lambda>t. t_id t = i) (claim_row w (now_at en)) (tasks (sys_db s))\<rparr>"
    and h: "handles st ! a = \<lparr>h_id = show_uuid cfg i, h_name = t_name c, h_payload = t_payload c,
      h_finalized = False, h_beating = True\<rparr>"
    and st: "current st = Some a" "stop_hb st = Some a" "a < length (handles st)" and w: "w \<noteq> []" .
  have dist: "distinct (ids (sys_db s1))"
    using assms(1) map_sql_update [of "\<lambda>t. t_id t = i" t_id "claim_row w (now_at en)"]
    by (simp add: rows)
  have none: "\<not> (t_id t = i \<and> t_claimed_by t = Some w \<and> t_status t = InProgress)"
    if "t \<in> set (tasks (sys_db s1))" for t
    using find_key_distinct [OF dist that] held by (auto simp: claim_row_def)
  then have refused: "open_pr en' w i url (sys_db s1) = (Inl ErrNotOwner, sys_db s1)"
    unfolding open_pr_eq using assms(4,5) by (simp add: owner_update_eq sql_update_none)
  have sent: "task_call (mastermind_conn cfg en') (fin_request w (handles st ! a) (FinOpenPR url)) s1 =
      (Inl (RpcFailed (FailedPrecondition,
        ''not the current owner of this task or task not in_progress'')), s1)"
    using refused assms(2,5) h w
    by (simp add: task_call_def fin_request_def mastermind_conn_dispatch as_def rpc_open_pr_def
        reply_def)
  obtain st' where mark: "mark_finalized a st = Inr st'" using h by (simp add: mark_finalized_def)
  note st' = mark_finalized_simps [OF mark st(3)]
  have "state_finalize (mastermind_conn cfg en') w [] (FinOpenPR url) (st, s1) =
      (Inl (RpcFailed (FailedPrecondition,
        ''not the current owner of this task or task not in_progress'')), (st', s1))"
    using state_finalize_held [OF st(1,3) _ _ sent mark] h by simp
  moreover have "claim_next call w (st', s) = (Inl ErrAlreadyHaveTask, (st', s))" for call s
    using st'(1) st(1) by (simp add: claim_next_def claim_check_def)
  moreover have "state_finalize call w [] f (st', s) = (Inl ErrAlreadyFinalized, (st', s))" for call f s
    using st' st(1,3)
    by (simp add: state_finalize_def require_task_def task_finalize_def mark_finalized_def)
  moreover have "heartbeat_tick call w a (st', s) = (st', s)" for call s
    using st' st(3) by (simp add: heartbeat_tick_def)
  ultimately show ?thesis by blast
qed

lemma early_open_pr_wedges_witness:
  "\<exists>st s1 m st'. state_finalize (mastermind_conn number_config (calm 2000 0)) ''w'' [] (FinOpenPR ''u'')
     (st, s1) = (Inl (RpcFailed (FailedPrecondition, m)), (st', s1))"
proof -
  obtain st s1 where claim: "claim_next (mastermind_conn number_config (calm 1000 0)) ''w''
      (new_state, sample_sys) = (Inr 0, (st, s1))" using sample_claim_next by blast
  have "distinct (ids (sys_db sample_sys))"
    using db_wf_distinct [OF sample_db_wf] by (simp add: sample_sys_def)
  from early_open_pr_wedges [OF this number_config_round_trip claim calm_simps(3) list.simps(3), of 2000 0 "CHR ''u''" "[]"]
  obtain m st' where "state_finalize (mastermind_conn number_config (calm 2000 0)) ''w'' [] (FinOpenPR ''u'')
      (st, s1) = (Inl (RpcFailed (FailedPrecondition, m)), (st', s1))"
    by (elim exE conjE) simp
  then show ?thesis by (intro exI)
qed

end
