(* ===== verification/Worker_Tools.thy ===== *)
theory Worker_Tools
  imports Worker_Protocol Go_Text
begin

section \<open>The worker's MCP tools\<close>

text \<open>
  worker/mcpserver/tools.go: what the coding agent on the worker's machine sees. A tool maps its
  arguments to a result (the IsError flag, the text, the structured output; \<open>NoOut\<close> is the zero value
  of the tool's output type) and the new state of
  worker and mastermind; the sentinel errors and gRPC errors print by the argument \<open>shw\<close>
  (\<open>error.Error()\<close>). The MCP transport (mcp/go-sdk) is not part of the sources.
\<close>

subsection \<open>The task as the agent sees it\<close>

record task_view =
  tv_id :: string
  tv_name :: string
  tv_worker_id :: string
  tv_instructions :: string
  tv_payload :: json
  tv_jira_url :: string
  tv_github_pr_url :: string

definition view_payload :: "raw_json \<Rightarrow> json \<times> string" where
  "view_payload raw =
     (case raw of
        RawEmpty \<Rightarrow> (JObj [], [])
      | RawBad s \<Rightarrow> (JStr s, [])
      | RawDoc j \<Rightarrow>
          (go_any j, case string_member ''instructions'' (go_any j) of None \<Rightarrow> [] | Some s \<Rightarrow> s))"

definition view_from_task :: "string \<Rightarrow> handle \<Rightarrow> task_view" where
  "view_from_task w h =
     (case view_payload (RawDoc (h_payload h)) of (payload, instructions) \<Rightarrow>
        \<lparr>tv_id = h_id h, tv_name = h_name h, tv_worker_id = w, tv_instructions = instructions,
         tv_payload = payload, tv_jira_url = [], tv_github_pr_url = []\<rparr>)"

subsection \<open>Tools\<close>

datatype tool_out = NoOut | OutView task_view | OutLog int

record tool_result =
  is_error :: bool
  text_of :: string
  out_of :: tool_out

type_synonym tool = "wstate \<times> sys \<Rightarrow> tool_result \<times> (wstate \<times> sys)"

definition tool_ok :: "string \<Rightarrow> tool_out \<Rightarrow> tool_result" where
  "tool_ok txt res = \<lparr>is_error = False, text_of = txt, out_of = res\<rparr>"

definition tool_refuse :: "string \<Rightarrow> tool_result" where
  "tool_refuse txt = \<lparr>is_error = True, text_of = txt, out_of = NoOut\<rparr>"

definition tool_err :: "(worker_error \<Rightarrow> string) \<Rightarrow> worker_error \<Rightarrow> string \<Rightarrow> tool_result" where
  "tool_err shw e which = tool_refuse (which @ '': '' @ shw e)"

definition id_and_name :: "task_view \<Rightarrow> string" where
  "id_and_name v = tv_id v @ '' ('' @ tv_name v @ '')''"

definition claim_next_tool ::
  "(worker_error \<Rightarrow> string) \<Rightarrow> connection \<Rightarrow> string \<Rightarrow> tool" where
  "claim_next_tool shw call w x =
     (case claim_next call w x of
        (Inl ErrAlreadyHaveTask, x') \<Rightarrow>
          (let v = view_from_task w (handles (fst x') ! the (current (fst x'))) in
           (tool_ok (''Already holding task '' @ id_and_name v @ ''; finalize it before claiming another.'')
              (OutView v), x'))
      | (Inl ErrNoTask, x') \<Rightarrow> (tool_refuse ''claim_next_task: no tasks available'', x')
      | (Inl e, x') \<Rightarrow> (tool_err shw e ''claim_next_task'', x')
      | (Inr a, x') \<Rightarrow>
          (let v = view_from_task w (handles (fst x') ! a) in
           (tool_ok (''Claimed task '' @ id_and_name v) (OutView v), x')))"

definition get_current_tool :: "(worker_error \<Rightarrow> string) \<Rightarrow> string \<Rightarrow> tool" where
  "get_current_tool shw w x =
     (case current_task (fst x) of
        Inl e \<Rightarrow> (tool_err shw e ''get_current_task'', x)
      | Inr a \<Rightarrow>
          (let v = view_from_task w (handles (fst x) ! a) in
           (tool_ok (tv_id v @ em_dash @ tv_name v) (OutView v), x)))"

text \<open>A tool whose State method has no value.\<close>

definition done_or_err ::
  "(worker_error \<Rightarrow> string) \<Rightarrow> string \<Rightarrow> string \<Rightarrow> (worker_error + unit) \<times> (wstate \<times> sys)
     \<Rightarrow> tool_result \<times> (wstate \<times> sys)" where
  "done_or_err shw which txt res =
     (case res of
        (Inl e, x') \<Rightarrow> (tool_err shw e which, x')
      | (Inr _, x') \<Rightarrow> (tool_ok txt NoOut, x'))"

definition update_progress_tool ::
  "(worker_error \<Rightarrow> string) \<Rightarrow> connection \<Rightarrow> string \<Rightarrow> string \<Rightarrow> string \<Rightarrow> tool" where
  "update_progress_tool shw call w tid txt x =
     done_or_err shw ''update_progress'' ''progress updated'' (state_progress call w tid txt x)"

definition append_log_tool ::
  "(worker_error \<Rightarrow> string) \<Rightarrow> connection \<Rightarrow> string \<Rightarrow> string \<Rightarrow> string \<Rightarrow> tool" where
  "append_log_tool shw call w tid msg x =
     (if msg = [] then (tool_refuse ''append_log: message is required'', x)
      else case state_append_log call w tid msg x of
        (Inl e, x') \<Rightarrow> (tool_err shw e ''append_log'', x')
      | (Inr n, x') \<Rightarrow> (tool_ok (''logged (id='' @ itoa n @ '')'') (OutLog n), x'))"

definition set_jira_url_tool ::
  "(worker_error \<Rightarrow> string) \<Rightarrow> connection \<Rightarrow> string \<Rightarrow> string \<Rightarrow> string \<Rightarrow> tool" where
  "set_jira_url_tool shw call w tid url x =
     (if url = [] then (tool_refuse ''set_jira_url: url is required'', x)
      else done_or_err shw ''set_jira_url'' ''jira_url set'' (state_set_jira_url call w tid url x))"

definition open_pr_tool ::
  "(worker_error \<Rightarrow> string) \<Rightarrow> connection \<Rightarrow> string \<Rightarrow> string \<Rightarrow> string \<Rightarrow> tool" where
  "open_pr_tool shw call w tid url x =
     (if url = [] then (tool_refuse ''open_pr: github_pr_url is required'', x)
      else done_or_err shw ''open_pr'' ''PR opened; task parked. Worker is now idle.''
        (state_open_pr call w tid url x))"

definition complete_task_tool ::
  "(worker_error \<Rightarrow> string) \<Rightarrow> connection \<Rightarrow> string \<Rightarrow> string \<Rightarrow> tool" where
  "complete_task_tool shw call w tid x =
     done_or_err shw ''complete_task'' ''task completed'' (state_complete call w tid x)"

definition fail_task_tool ::
  "(worker_error \<Rightarrow> string) \<Rightarrow> connection \<Rightarrow> string \<Rightarrow> string \<Rightarrow> string \<Rightarrow> tool" where
  "fail_task_tool shw call w tid msg x =
     (if msg = [] then (tool_refuse ''fail_task: message is required'', x)
      else done_or_err shw ''fail_task'' ''task failed'' (state_fail call w tid msg x))"

subsection \<open>Claiming is idempotent\<close>

lemma claim_next_Inr_current:
  "claim_next call w x = (Inr a, x') \<Longrightarrow> current (fst x') = Some a"
  by (auto simp: claim_next_def claim_install_def start_heartbeat_def set_handle_def Let_def
      split: prod.splits sum.splits bool.splits if_splits)

lemma mark_finalized_current: "mark_finalized a st = Inr st' \<Longrightarrow> current st' = current st"
  by (auto simp: mark_finalized_def stop_heartbeat_def set_handle_def split: if_splits)

lemma claim_next_held_current:
  assumes "claim_next call w x = (Inl ErrAlreadyHaveTask, x')"
  shows "current (fst x') \<noteq> None"
proof (cases "current (fst x')")
  case None
  obtain st s where x: "x = (st, s)" by force
  show ?thesis
  proof (cases "current st")
    case None
    with assms x show ?thesis
      by (auto simp: claim_next_def claim_check_def client_claim_def claim_install_def
          start_heartbeat_def Let_def split: prod.splits sum.splits bool.splits if_splits response.splits)
  next
    case (Some a)
    with assms x show ?thesis by (auto simp: claim_next_def claim_check_def)
  qed
qed simp

text \<open>claim_next_task is idempotent, as its description promises: after a call that gave the agent
  a task, further calls of claim_next_task and get_current_task return the same task, send
  nothing to mastermind and change nothing, until the agent finalizes it.\<close>

lemma claim_tool_idempotent:
  assumes "claim_next_tool shw call w x = (r, x')" and "\<not> is_error r"
  shows "\<exists>v. out_of r = OutView v \<and>
    (\<forall>call'. claim_next_tool shw call' w x' =
       (tool_ok (''Already holding task '' @ id_and_name v @ ''; finalize it before claiming another.'') (OutView v), x')) \<and>
    get_current_tool shw w x' = (tool_ok (tv_id v @ em_dash @ tv_name v) (OutView v), x')"
proof -
  obtain a where a: "current (fst x') = Some a"
    and out: "out_of r = OutView (view_from_task w (handles (fst x') ! a))"
    using assms claim_next_Inr_current [of call w x] claim_next_held_current [of call w x]
    by (cases "claim_next call w x")
      (auto simp: claim_next_tool_def tool_ok_def tool_refuse_def tool_err_def Let_def
        split: sum.splits worker_error.splits)
  have "claim_next call' w x' = (Inl ErrAlreadyHaveTask, x')" for call'
    using a by (cases x') (simp add: claim_next_def claim_check_def)
  then show ?thesis
    using a out by (simp add: claim_next_tool_def get_current_tool_def current_task_def Let_def)
qed

subsection \<open>From the operator's payload to the agent's instructions\<close>

lemma valid_instructions:
  assumes "validate_create_input (RawDoc (JObj ms)) = None" and "exact_key ms"
  shows "\<exists>s. trim_space s \<noteq> [] \<and> member_last ''instructions'' ms = Some (JStr s)"
  using assms decode_exact [of ms None]
  by (auto simp: validate_create_input_def decode_instructions_ptr_def split: option.splits if_splits)

lemma view_instructions:
  assumes "member_last ''instructions'' ms = Some (JStr s)" and "h_payload h = jsonb (JObj ms)"
  shows "tv_instructions (view_from_task w h) = s"
proof -
  have "string_member ''instructions'' (jsonb (JObj ms)) = Some s"
    using assms(1) by (simp only: string_member_norm string_member_iff)
  moreover obtain ms' where "jsonb (JObj ms) = JObj ms'" by simp
  ultimately have "string_member ''instructions'' (go_any (jsonb (JObj ms))) = Some s"
    by (simp only: string_member_norm)
  then show ?thesis by (simp add: view_from_task_def view_payload_def assms(2) del: jsonb.simps)
qed


lemma sample_payload:
  "nt_payload sample_input = RawDoc (JObj [(''instructions'', JStr ''go'')])"
  "exact_key [(''instructions'', JStr ''go'')]" "inj (show_uuid number_config)"
  by (simp_all add: sample_input_def exact_key_def number_config_def inj_def)
    (metis length_replicate word_unat_eq_iff)


text \<open>The key in another case passes the validation of the store and does not reach the agent.\<close>

lemma case_variant_lost:
  "validate_create_input (RawDoc (JObj [(''Instructions'', JStr ''go'')])) = None"
  "tv_instructions (view_from_task w \<lparr>h_id = i, h_name = n,
     h_payload = jsonb (JObj [(''Instructions'', JStr ''go'')]), h_finalized = False, h_beating = True\<rparr>) = []"
proof -
  have "trim_space ''go'' = ''go''" by (simp add: trim_space_def space_seqs_def trim_seqs.simps)
  moreover have "instructions_key ''Instructions''" by code_simp
  ultimately show "validate_create_input (RawDoc (JObj [(''Instructions'', JStr ''go'')])) = None"
    by (simp add: validate_create_input_def decode_instructions_ptr_def)
qed (simp add: view_from_task_def view_payload_def string_member_def)

end
