(* ===== verification/Worker_Server.thy ===== *)
theory Worker_Server
  imports Worker_Tools
begin

section \<open>The worker's MCP server\<close>

text \<open>
  NewServer of worker/mcpserver/tools.go: a call arrives with the decoded input of one of the eight
  tools, and is handled by it. \<open>w\<close> is the worker's id, \<open>call\<close> its connection to mastermind; the MCP
  SDK decodes and transports.
\<close>

record update_progress_input =
  up_task_id :: string
  up_note :: string

record append_log_input =
  al_task_id :: string
  al_message :: string

record set_jira_url_input =
  sj_task_id :: string
  sj_url :: string

record open_pr_input =
  op_task_id :: string
  op_github_pr_url :: string

record complete_task_input =
  ct_task_id :: string

record fail_task_input =
  ft_task_id :: string
  ft_message :: string

datatype worker_call =
    ClaimNextTask
  | GetCurrentTask
  | UpdateProgressCall update_progress_input
  | AppendLogCall append_log_input
  | SetJiraURLCall set_jira_url_input
  | OpenPRCall open_pr_input
  | CompleteTaskCall complete_task_input
  | FailTaskCall fail_task_input

definition worker_mcp_server ::
  "(worker_error \<Rightarrow> string) \<Rightarrow> connection \<Rightarrow> string \<Rightarrow> worker_call \<Rightarrow> tool" where
  "worker_mcp_server shw call w c x =
     (case c of
        ClaimNextTask \<Rightarrow> claim_next_tool shw call w x
      | GetCurrentTask \<Rightarrow> get_current_tool shw w x
      | UpdateProgressCall i \<Rightarrow> update_progress_tool shw call w (up_task_id i) (up_note i) x
      | AppendLogCall i \<Rightarrow> append_log_tool shw call w (al_task_id i) (al_message i) x
      | SetJiraURLCall i \<Rightarrow> set_jira_url_tool shw call w (sj_task_id i) (sj_url i) x
      | OpenPRCall i \<Rightarrow> open_pr_tool shw call w (op_task_id i) (op_github_pr_url i) x
      | CompleteTaskCall i \<Rightarrow> complete_task_tool shw call w (ct_task_id i) x
      | FailTaskCall i \<Rightarrow> fail_task_tool shw call w (ft_task_id i) (ft_message i) x)"

text \<open>The task a call names; empty for the current one.\<close>

definition named_task :: "worker_call \<Rightarrow> string" where
  "named_task c =
     (case c of
        ClaimNextTask \<Rightarrow> [] | GetCurrentTask \<Rightarrow> []
      | UpdateProgressCall i \<Rightarrow> up_task_id i | AppendLogCall i \<Rightarrow> al_task_id i
      | SetJiraURLCall i \<Rightarrow> sj_task_id i | OpenPRCall i \<Rightarrow> op_task_id i
      | CompleteTaskCall i \<Rightarrow> ct_task_id i | FailTaskCall i \<Rightarrow> ft_task_id i)"

text \<open>An agent can only touch the task its worker holds: a call that needs a task is refused
  without any effect, at the worker or at mastermind, when the worker is idle or holds another.\<close>

lemma idle_or_other_refused:
  assumes "c \<notin> {ClaimNextTask, GetCurrentTask}"
    and "current (fst x) = None \<or>
      named_task c \<noteq> [] \<and> (\<exists>a. current (fst x) = Some a \<and> named_task c \<noteq> h_id (handles (fst x) ! a))"
  shows "\<exists>r. worker_mcp_server shw call w c x = (r, x) \<and> is_error r"
proof -
  have "\<exists>e. require_task (named_task c) (fst x) = Inl e"
    using assms(2) by (auto simp: require_task_def)
  then show ?thesis
    using assms(1)
    by (cases c)
      (auto simp: worker_mcp_server_def named_task_def update_progress_tool_def append_log_tool_def
        set_jira_url_tool_def open_pr_tool_def complete_task_tool_def fail_task_tool_def done_or_err_def
        state_progress_def state_call_def state_append_log_def state_set_jira_url_def state_open_pr_def
        state_complete_def state_fail_def state_finalize_def tool_err_def tool_refuse_def)
qed

end
