(* ===== verification/Runner.thy ===== *)
theory Runner
  imports Worker_Tools
begin

section \<open>The claim loop\<close>

text \<open>
  worker/runner/runner.go: claim, run the handler, report, again, until the context is cancelled
  at \<open>stop\<close> (never, when it is None). The clock is in nanoseconds; an RPC takes \<open>lag\<close> and is
  answered by the connection of its moment; \<open>rnd\<close> is math/rand. A handler maps the time and the
  system to an error message or nil and the time and system it ends in; what its heartbeats and
  the rest of the system do meanwhile is part of that. When a timer and the context are due at
  the same instant, the context wins. \<open>rn_claimed\<close> and \<open>rn_reported\<close> record the tasks claimed and
  the results sent. The loop is a \<open>partial_function\<close>: it has no value when it does not end.
\<close>

record runner_config =
  rc_poll :: int
  rc_heartbeat :: int
  rc_work :: int

definition new_with_handler :: "runner_config \<Rightarrow> runner_config" where
  "new_with_handler cfg =
     (let cfg = (if rc_work cfg = 0 then cfg\<lparr>rc_work := 60000000000\<rparr> else cfg);
          cfg = (if rc_poll cfg \<le> 0 then cfg\<lparr>rc_poll := 2000000000\<rparr> else cfg)
      in if rc_heartbeat cfg \<le> 0 then cfg\<lparr>rc_heartbeat := 10000000000\<rparr> else cfg)"

record runner =
  rn_clock :: int
  rn_sys :: sys
  rn_claimed :: "string list"
  rn_reported :: "(string \<times> fin) list"

type_synonym net = "int \<Rightarrow> connection"
type_synonym task_handler = "handle \<Rightarrow> int \<times> sys \<Rightarrow> string option \<times> (int \<times> sys)"

definition ctx_err :: "int option \<Rightarrow> int \<Rightarrow> bool" where
  "ctx_err stop t \<longleftrightarrow> (case stop of None \<Rightarrow> False | Some e \<Rightarrow> e \<le> t)"

text \<open>Waiting for a timer of \<open>d\<close> or the context: did the timer fire, and when.\<close>

definition wait_for :: "int option \<Rightarrow> int \<Rightarrow> int \<Rightarrow> bool \<times> int" where
  "wait_for stop d t =
     (let till = t + max 0 d in
      case stop of
        None \<Rightarrow> (True, till)
      | Some e \<Rightarrow> if e \<le> till then (False, max t e) else (True, till))"

definition sleep_with_jitter :: "int option \<Rightarrow> (int \<Rightarrow> int) \<Rightarrow> int \<Rightarrow> int \<Rightarrow> bool \<times> int" where
  "sleep_with_jitter stop rnd base t =
     (let q = quot base 4; jitter = (if q > 0 then rnd t mod q else 0)
      in wait_for stop (base + jitter) t)"

definition fake_handler ::
  "net \<Rightarrow> (int \<Rightarrow> nat) \<Rightarrow> string \<Rightarrow> int option \<Rightarrow> int \<Rightarrow> task_handler" where
  "fake_handler net lag w stop d h ts =
     (case ts of (t, s) \<Rightarrow>
        (case task_call (net t) (progress_request w h ''working'') s of (_, s') \<Rightarrow>
           (case wait_for stop d (t + int (lag t)) of
              (True, t') \<Rightarrow> (None, (t', s'))
            | (False, t') \<Rightarrow> (Some ''context canceled'', (t', s')))))"

definition run_one ::
  "net \<Rightarrow> (int \<Rightarrow> nat) \<Rightarrow> string \<Rightarrow> task_handler \<Rightarrow> handle \<Rightarrow> runner \<Rightarrow> runner" where
  "run_one net lag w handler h x =
     (case handler h (rn_clock x, rn_sys x) of (err, (t, s)) \<Rightarrow>
        (let f = (case err of None \<Rightarrow> FinComplete | Some m \<Rightarrow> FinFail m)
         in x\<lparr>rn_clock := t + int (lag t), rn_sys := snd (task_call (net t) (fin_request w h f) s),
              rn_reported := rn_reported x @ [(h_id h, f)]\<rparr>))"

partial_function (option) run_loop ::
  "int option \<Rightarrow> (int \<Rightarrow> int) \<Rightarrow> net \<Rightarrow> (int \<Rightarrow> nat) \<Rightarrow> runner_config \<Rightarrow> string \<Rightarrow> task_handler
     \<Rightarrow> runner \<Rightarrow> runner option" where
  "run_loop stop rnd net lag cfg w handler x =
     (if ctx_err stop (rn_clock x) then Some x
      else case client_claim (net (rn_clock x)) w (rn_sys x) of
        (Inl e, s') \<Rightarrow>
          (case sleep_with_jitter stop rnd (rc_poll cfg) (rn_clock x + int (lag (rn_clock x))) of
             (woke, t) \<Rightarrow>
               if woke then run_loop stop rnd net lag cfg w handler (x\<lparr>rn_clock := t, rn_sys := s'\<rparr>)
               else Some (x\<lparr>rn_clock := t, rn_sys := s'\<rparr>))
      | (Inr h, s') \<Rightarrow>
          run_loop stop rnd net lag cfg w handler
            (run_one net lag w handler h
              (x\<lparr>rn_clock := rn_clock x + int (lag (rn_clock x)), rn_sys := s',
                 rn_claimed := rn_claimed x @ [h_id h]\<rparr>)))"

definition runner_run where
  "runner_run stop rnd net lag cfg w handler x =
     run_loop stop rnd net lag (new_with_handler cfg) w handler x"

subsection \<open>The loop ends with the context\<close>

lemma poll_positive: "0 < rc_poll (new_with_handler cfg)"
  by (simp add: new_with_handler_def Let_def)

lemma wait_for_progress:
  assumes "wait_for (Some e) d t = (woke, t')" and "0 < d"
  shows "t < t' \<or> e \<le> t'" and "\<not> woke \<Longrightarrow> e \<le> t'" and "t \<le> t'"
  using assms by (auto simp: wait_for_def Let_def split: if_splits)

lemma sleep_progress:
  assumes "sleep_with_jitter (Some e) rnd base t = (woke, t')" and "0 < base"
  shows "t < t' \<or> e \<le> t'" and "\<not> woke \<Longrightarrow> e \<le> t'"
proof -
  define d where "d = base + (if quot base 4 > 0 then rnd t mod quot base 4 else 0)"
  have "0 < d" using assms(2) by (simp add: d_def add_pos_nonneg)
  moreover have "wait_for (Some e) d t = (woke, t')"
    using assms(1) by (simp add: sleep_with_jitter_def d_def Let_def)
  ultimately show "t < t' \<or> e \<le> t'" and "\<not> woke \<Longrightarrow> e \<le> t'" using wait_for_progress by blast+
qed

text \<open>A handler takes time, unless the context is over.\<close>

definition takes_time :: "int option \<Rightarrow> task_handler \<Rightarrow> bool" where
  "takes_time stop handler \<longleftrightarrow>
     (\<forall>h t s. t < fst (snd (handler h (t, s))) \<or> ctx_err stop (fst (snd (handler h (t, s)))))"

lemma fake_handler_takes_time: "0 < d \<Longrightarrow> takes_time (Some e) (fake_handler net lag w (Some e) d)"
  unfolding takes_time_def
proof (intro allI)
  fix h t s
  assume "0 < d"
  obtain woke t' where wait: "wait_for (Some e) d (t + int (lag t)) = (woke, t')" by force
  from wait_for_progress [OF this \<open>0 < d\<close>]
  have "t < t' \<or> e \<le> t'" by linarith
  with wait show "t < fst (snd (fake_handler net lag w (Some e) d h (t, s))) \<or>
      ctx_err (Some e) (fst (snd (fake_handler net lag w (Some e) d h (t, s))))"
    by (simp add: fake_handler_def ctx_err_def split: prod.split bool.split)
qed

definition reports_match :: "runner \<Rightarrow> bool" where
  "reports_match x \<longleftrightarrow> map fst (rn_reported x) = rn_claimed x"

lemma run_one_clock:
  assumes "takes_time (Some e) handler"
  shows "rn_clock x < rn_clock (run_one net lag w handler h x) \<or> e \<le> rn_clock (run_one net lag w handler h x)"
proof -
  obtain err t s where run: "handler h (rn_clock x, rn_sys x) = (err, (t, s))" by (metis prod.exhaust)
  have "rn_clock x < t \<or> e \<le> t"
    using assms run by (simp add: takes_time_def ctx_err_def) (metis fst_conv snd_conv)
  with run show ?thesis by (auto simp: run_one_def Let_def)
qed

lemma run_one_reports:
  "rn_claimed x = map fst (rn_reported x) @ [h_id h] \<Longrightarrow> reports_match (run_one net lag w handler h x)"
  by (simp add: reports_match_def run_one_def Let_def split: prod.split)

lemma run_loop_ends:
  assumes "takes_time (Some e) handler" and "0 < rc_poll cfg" and "reports_match x"
  shows "\<exists>y. run_loop (Some e) rnd net lag cfg w handler x = Some y \<and> e \<le> rn_clock y \<and> reports_match y"
  using assms(3)
proof (induction "nat (e - rn_clock x)" arbitrary: x rule: less_induct)
  case less
  show ?case
  proof (cases "e \<le> rn_clock x")
    case True
    with less.prems show ?thesis by (simp add: run_loop.simps [of _ _ _ _ _ _ _ x] ctx_err_def)
  next
    case False
    obtain r s' where claim: "client_claim (net (rn_clock x)) w (rn_sys x) = (r, s')" by force
    let ?t = "rn_clock x + int (lag (rn_clock x))"
    have again: "\<exists>y. run_loop (Some e) rnd net lag cfg w handler z = Some y \<and> e \<le> rn_clock y \<and> reports_match y"
      if "rn_clock x < rn_clock z \<or> e \<le> rn_clock z" "reports_match z" for z
      using that False by (intro less.hyps) auto
    show ?thesis
    proof (cases r)
      case (Inl err)
      obtain woke t where wake: "sleep_with_jitter (Some e) rnd (rc_poll cfg) ?t = (woke, t)" by force
      note p = sleep_progress [OF wake assms(2)]
      let ?z = "x\<lparr>rn_clock := t, rn_sys := s'\<rparr>"
      have z: "reports_match ?z" using less.prems by (simp add: reports_match_def)
      have "rn_clock x < rn_clock ?z \<or> e \<le> rn_clock ?z" using p(1) by auto
      from again [OF this z] p(2) z False claim Inl wake show ?thesis
        by (cases woke) (simp_all add: run_loop.simps [of _ _ _ _ _ _ _ x] ctx_err_def)
    next
      case (Inr h)
      let ?z = "run_one net lag w handler h (x\<lparr>rn_clock := ?t, rn_sys := s',
        rn_claimed := rn_claimed x @ [h_id h]\<rparr>)"
      have "rn_clock x < rn_clock ?z \<or> e \<le> rn_clock ?z"
        using run_one_clock [OF assms(1), of "x\<lparr>rn_clock := ?t, rn_sys := s',
          rn_claimed := rn_claimed x @ [h_id h]\<rparr>" net lag w h] by auto
      moreover have "reports_match ?z"
        using less.prems by (intro run_one_reports) (simp add: reports_match_def)
      ultimately show ?thesis
        using again [of ?z] False claim Inr
        by (simp add: run_loop.simps [of _ _ _ _ _ _ _ x] ctx_err_def)
    qed
  qed
qed



end
