(* ===== verification/Progress.thy ===== *)
theory Progress
  imports Refinement
begin

section \<open>Progress of the queue\<close>

text \<open>
  What keeps tasks moving: successive claims at one instant empty the queue in its order, and a
  task whose worker disappeared is given back by the reaper and handed out again (or failed, when
  its attempts are used up). The order is that of the claim's subselect: \<open>due n d\<close> is the whole
  queue at time n, by priority and age.
\<close>

definition due :: "time \<Rightarrow> db \<Rightarrow> task list" where
  "due n d = sort_key claim_key (filter (eligible n) (tasks d))"

text \<open>A transaction at time \<open>n\<close> that meets no error and no lock.\<close>

definition clean_at :: "time \<Rightarrow> env \<Rightarrow> bool" where
  "clean_at n en \<longleftrightarrow> now_at en = n \<and> fault en 0 = None \<and> locked_rows en = []"

lemma claim_candidate_due:
  "clean_at n en \<Longrightarrow> claim_candidate en (tasks d) = (case due n d of [] \<Rightarrow> None | t # _ \<Rightarrow> Some t)"
  by (simp add: clean_at_def claim_candidate_def due_def)

lemma set_due: "set (due n d) = {t \<in> set (tasks d). eligible n t}"
  by (auto simp: due_def)

lemma length_due: "length (due n d) = length (filter (eligible n) (tasks d))"
  by (simp add: due_def)

lemma distinct_due: "distinct (ids d) \<Longrightarrow> distinct (map t_id (due n d))"
proof -
  assume d: "distinct (ids d)"
  have "mset (map t_id (due n d)) = mset (map t_id (filter (eligible n) (tasks d)))"
    by (simp add: due_def)
  moreover have "distinct (map t_id (filter (eligible n) (tasks d)))"
    using d by (rule distinct_map_filter)
  ultimately show ?thesis by (metis mset_eq_imp_distinct_iff)
qed

text \<open>A claim takes the head of the queue and leaves its tail.\<close>

lemma due_after_claim:
  assumes "distinct (ids d)" and "due n d = c # rest"
  shows "due n (d\<lparr>tasks := sql_update (\<lambda>t. t_id t = t_id c) (claim_row w m) (tasks d)\<rparr>) = rest"
proof -
  have "filter (eligible n) (sql_update (\<lambda>t. t_id t = t_id c) (claim_row w m) rows) =
      filter (\<lambda>t. t_id t \<noteq> t_id c) (filter (eligible n) rows)" for rows
    by (induction rows) (auto simp: sql_update_Cons eligible_def row_defs)
  then have "due n (d\<lparr>tasks := sql_update (\<lambda>t. t_id t = t_id c) (claim_row w m) (tasks d)\<rparr>) =
      filter (\<lambda>t. t_id t \<noteq> t_id c) (due n d)"
    by (simp add: due_def filter_sort)
  also have "\<dots> = filter (\<lambda>t. t_id t \<noteq> t_id c) rest" by (simp add: assms(2))
  also have "\<dots> = rest"
    using distinct_due [OF assms(1), of n] by (auto simp: assms(2) filter_id_conv image_iff)
  finally show ?thesis .
qed

definition attempts_left :: "db \<Rightarrow> bool" where
  "attempts_left d \<longleftrightarrow> (\<forall>t \<in> set (tasks d). t_status t = Pending \<longrightarrow> int4 (t_attempt_count t + 1))"

lemma attempts_left_claim:
  "attempts_left d \<Longrightarrow>
     attempts_left (d\<lparr>tasks := sql_update (\<lambda>t. t_id t = i) (claim_row w m) (tasks d)\<rparr>)"
  by (auto simp: attempts_left_def set_sql_update row_defs)

lemma claims_follow_due:
  assumes "distinct (ids d)" and "attempts_left d" and "\<forall>(en, w) \<in> set txs. clean_at n en"
  shows "sequential_claims txs d =
    take (length txs) (map (\<lambda>t. Some (t_id t)) (due n d) @ replicate (length txs) None)"
  using assms
proof (induction txs arbitrary: d)
  case Nil
  then show ?case by simp
next
  case (Cons tx txs)
  obtain en w where tx: "tx = (en, w)" by force
  have clean: "clean_at n en" and fine: "fault en 0 = None"
    using Cons.prems(3) tx by (auto simp: clean_at_def)
  show ?case
  proof (cases "due n d")
    case Nil
    then have "claim_task en w d = (Inr None, d)"
      using Cons.prems(1) fine by (simp add: claim_task_eq claim_candidate_due [OF clean])
    moreover have "sequential_claims txs d = replicate (length txs) None"
      using Cons Nil by simp
    ultimately show ?thesis by (simp add: tx Nil)
  next
    case (Cons c rest)
    let ?d = "d\<lparr>tasks := sql_update (\<lambda>t. t_id t = t_id c) (claim_row w (now_at en)) (tasks d)\<rparr>"
    have c: "c \<in> set (tasks d)" "t_status c = Pending"
      using set_due [of n d] Cons by (auto simp: eligible_def)
    have "claim_task en w d = (Inr (Some (claim_row w (now_at en) c)), ?d)"
      using Cons Cons.prems(1,2) fine c
      by (simp add: claim_task_eq claim_candidate_due [OF clean] attempts_left_def)
    moreover have "sequential_claims txs ?d =
        take (length txs) (map (\<lambda>t. Some (t_id t)) (due n ?d) @ replicate (length txs) None)"
      using Cons.prems by (intro Cons.IH) (simp_all add: attempts_left_claim map_sql_update)
    ultimately show ?thesis
      using due_after_claim [OF Cons.prems(1) Cons]
      by (simp add: tx Cons replicate_append_same [symmetric])
  qed
qed

text \<open>C32: The queue drains in order: successive claims at one instant, by whatever workers, hand out
  exactly the due pending tasks, each once, by descending priority and then by age, and find the
  queue empty from then on. So no due task is ever passed over for one behind it, and k claims
  reach the first k tasks.\<close>

theorem queue_drains:
  assumes "db_wf d" and "\<forall>t \<in> set (tasks d). t_attempt_count t < 2 ^ 31 - 1"
    and "\<forall>(en, w) \<in> set txs. now_at en = n \<and> fault en 0 = None \<and> locked_rows en = []"
  shows "sequential_claims txs d =
    take (length txs)
      (map (\<lambda>t. Some (t_id t)) (sort_key claim_key (filter (eligible n) (tasks d))) @
       replicate (length txs) None)"
proof -
  have "attempts_left d"
    using assms(1,2) by (auto simp: attempts_left_def db_wf_def task_wf_def int4_def)
  with assms show ?thesis
    using claims_follow_due [of d txs n] by (simp add: db_wf_distinct clean_at_def due_def)
qed

lemma queue_drains_witness:
  "sequential_claims [(calm 1000 0, ''a''), (calm 1000 0, ''b'')] sample_db = [Some 1, None]"
proof -
  have "sort_key claim_key (filter (eligible 1000) (tasks sample_db)) = [sample_task 1 Pending]"
    by (simp add: eligible_def sample_defs)
  with queue_drains [OF sample_db_wf sample_attempts_bounds(1),
      of "[(calm 1000 0, ''a''), (calm 1000 0, ''b'')]" 1000]
  show ?thesis by (simp add: sample_task_def)
qed

lemma reap_runs_bounded:
  assumes "db_wf d" and "fault en 0 = None" and "\<forall>t \<in> set (tasks d). t_attempt_count t * 30 < 2 ^ 31"
  shows "reap_runs en v d"
  using assms
  by (auto simp: reap_runs_def list_all_iff retry_in_range_def int4_def db_wf_def task_wf_def)

lemma attempts_left_reap: "attempts_left d \<Longrightarrow> (\<forall>t \<in> set (tasks d). int4 (t_attempt_count t + 1)) \<Longrightarrow>
    attempts_left (snd (reap_stale en v d))"
  by (auto simp: attempts_left_def reap_stale_state set_sql_update row_defs)

text \<open>C33: A lost lease is recovered: when the last heartbeat of a claimed or in-progress task is older
  than the visibility timeout, one sweep of the reaper takes the task from its worker. With
  attempts left it is due after 30 seconds per attempt used, and from then on as many claims as
  tasks are due hand it out again; with its attempts used up it is failed.\<close>

theorem lost_lease_recovered:
  assumes "db_wf d" and "\<forall>t \<in> set (tasks d). t_attempt_count t * 30 < 2 ^ 31"
    and "find_task i d = Some t" and "t_status t \<in> {Claimed, InProgress}"
    and "t_last_heartbeat_at t = Some h" and "h < now_at en - microseconds v" and "fault en 0 = None"
    and "now_at en + t_attempt_count t * 30000000 \<le> n"
    and "\<forall>(en', w) \<in> set txs. now_at en' = n \<and> fault en' 0 = None \<and> locked_rows en' = []"
    and "length (filter (eligible n) (tasks (snd (reap_stale en v d)))) \<le> length txs"
  shows "if t_attempt_count t < t_max_attempts t
    then Some i \<in> set (sequential_claims txs (snd (reap_stale en v d)))
    else map_option t_status (find_task i (snd (reap_stale en v d))) = Some Failed"
proof -
  let ?d = "snd (reap_stale en v d)"
  have stale: "stale (now_at en) (microseconds v) t"
    using assms(4-6) by (simp add: stale_def active_status_def)
  have runs: "reap_runs en v d" by (rule reap_runs_bounded [OF assms(1,7,2)])
  have row: "find_task i ?d = Some (retry_row lease_expired (now_at en) t)"
    using assms(3) runs stale by (simp add: reap_stale_find)
  show ?thesis
  proof (cases "t_attempt_count t < t_max_attempts t")
    case True
    let ?t = "retry_row lease_expired (now_at en) t"
    have "eligible n ?t"
      using True assms(8) by (simp add: eligible_def retry_row_def exhausted_def second_def)
    moreover have "?t \<in> set (tasks ?d)" and id: "t_id ?t = i" using row by (auto dest: find_key_SomeD)
    ultimately have mem: "?t \<in> set (due n ?d)" by (simp add: set_due)
    have "\<forall>u \<in> set (tasks d). int4 (t_attempt_count u + 1)"
      using assms(1,2) by (fastforce simp: db_wf_def task_wf_def int4_def)
    then have "attempts_left ?d" by (intro attempts_left_reap) (simp_all add: attempts_left_def)
    then have "sequential_claims txs ?d =
        take (length txs) (map (\<lambda>t. Some (t_id t)) (due n ?d) @ replicate (length txs) None)"
      using assms(9) db_wf_distinct [OF reap_stale_db_wf [OF assms(1)]]
      by (intro claims_follow_due) (auto simp: clean_at_def)
    also have "\<dots> = map (\<lambda>t. Some (t_id t)) (due n ?d) @
        take (length txs - length (due n ?d)) (replicate (length txs) None)"
      using assms(10) by (simp add: length_due)
    finally have "(\<lambda>t. Some (t_id t)) ` set (due n ?d) \<subseteq> set (sequential_claims txs ?d)" by simp
    with imageI [OF mem, of "\<lambda>t. Some (t_id t)"] have "Some (t_id ?t) \<in> set (sequential_claims txs ?d)"
      by (rule rev_subsetD)
    with True show ?thesis unfolding id by simp
  next
    case False
    with row show ?thesis by (simp add: retry_row_def exhausted_def)
  qed
qed

lemma lost_lease_recovered_witness:
  "Some 3 \<in> set (sequential_claims (replicate 7 (calm 90000000 0, ''new'')) (snd (reap_stale (calm 9000000 0) 3000000000 sample_db)))"
proof -
  have hyps: "find_task 3 sample_db = Some (sample_task 3 InProgress)" "t_status (sample_task 3 InProgress) \<in> {Claimed, InProgress}"
    "t_last_heartbeat_at (sample_task 3 InProgress) = Some 0"
    "0 < now_at (calm 9000000 0) - microseconds 3000000000"
    "fault (calm 9000000 0) 0 = None"
    "now_at (calm 9000000 0) + t_attempt_count (sample_task 3 InProgress) * 30000000 \<le> 90000000"
    "\<forall>(en', w) \<in> set (replicate 7 (calm 90000000 0, ''new'')).
       now_at en' = 90000000 \<and> fault en' 0 = None \<and> locked_rows en' = []"
    by (simp_all add: sample_find sample_task_def active_status_def microseconds_def quot_def)
  have "length (tasks (snd (reap_stale (calm 9000000 0) 3000000000 sample_db))) = 7"
    by (simp add: reap_stale_state) (simp add: sample_db_def)
  then have "length (filter (eligible 90000000) (tasks (snd (reap_stale (calm 9000000 0) 3000000000 sample_db))))
      \<le> length (replicate 7 (calm 90000000 0, ''new''))"
    by (metis length_filter_le length_replicate)
  from lost_lease_recovered [OF sample_db_wf sample_attempts_bounds(2) hyps this]
  show ?thesis by (simp add: sample_task_def)
qed

end
