(* ===== verification/Append_Race.thy ===== *)
theory Append_Race
  imports Progress
begin

section \<open>AppendTaskLog and concurrent transactions\<close>

text \<open>
  AppendTaskLog (store/logs.go) is one transaction of several statements at READ COMMITTED: it
  reads owner and status without locking the row, inserts the entry and updates the task by its
  id alone. Other transactions can commit between the read and the insert; \<open>append_interleaved\<close>
  runs them there. Without interference it is \<open>append_task_log\<close>.
\<close>

definition append_interleaved ::
  "env \<Rightarrow> string \<Rightarrow> uuid \<Rightarrow> string \<Rightarrow> (env \<times> cmd) list \<Rightarrow> db \<Rightarrow> (store_error + task_log) \<times> db" where
  "append_interleaved en w i msg others d =
     (case append_check en w i d of
        Inl e \<Rightarrow> (Inl e, run others d)
      | Inr _ \<Rightarrow> append_commit en i msg (run others d))"

lemma append_interleaved_alone: "append_interleaved en w i msg [] d = append_task_log en w i msg d"
  by (simp add: append_interleaved_def append_task_log_def split: sum.split)

text \<open>C34: The ownership check of AppendTaskLog holds only at its own statement. When the task still
  belongs to the caller after the transactions in between, the call behaves as if it ran after
  them. When the caller has lost the task meanwhile (the reaper requeued it, another worker
  claimed it, it was completed), the stale call still succeeds: its entry is in the log and the
  lease of the present owner is refreshed, a claimed task is started for it, and a requeued task
  is left pending with a heartbeat, which no other call of the store produces.\<close>

theorem append_race:
  assumes "append_check en w i d = Inr ()" and "\<forall>k. fault en k = None"
    and "reachable d" and "find_task i (run others d) = Some t"
  shows "if t_claimed_by t = Some w \<and> t_status t \<in> {Claimed, InProgress}
    then append_interleaved en w i msg others d = append_task_log en w i msg (run others d)
    else \<exists>l d' t'. append_interleaved en w i msg others d = (Inr l, d') \<and>
      task_logs d' = task_logs (run others d) @ [l] \<and> l_message l = msg \<and> l_task_id l = i \<and>
      find_task i d' = Some t' \<and> t_claimed_by t' = t_claimed_by t \<and>
      t_last_heartbeat_at t' = Some (now_at en) \<and>
      t_status t' = (if t_status t = Claimed then InProgress else t_status t) \<and>
      (t_status t = Pending \<longrightarrow> \<not> reachable d')"
proof (cases "t_claimed_by t = Some w \<and> t_status t \<in> {Claimed, InProgress}")
  case True
  then have "append_check en w i (run others d) = Inr ()"
    using assms(2,4) by (auto simp: append_check_def)
  with True assms(1) show ?thesis by (simp add: append_interleaved_def append_task_log_def)
next
  case False
  let ?d = "run others d"
  define l where "l = \<lparr>l_id = log_seq ?d, l_task_id = i, l_message = msg, l_created_at = now_at en\<rparr>"
  define d' where "d' = ?d\<lparr>log_seq := log_seq ?d + 1, task_logs := task_logs ?d @ [l],
    tasks := sql_update (\<lambda>t. t_id t = i) (heartbeat_row (now_at en)) (tasks ?d)\<rparr>"
  have "i \<in> set (ids ?d)" using assms(4) by (auto dest: find_key_SomeD)
  then have run: "append_interleaved en w i msg others d = (Inr l, d')"
    using assms(1,2) by (simp add: append_interleaved_def append_commit_def l_def d'_def Let_def)
  have row: "find_task i d' = Some (heartbeat_row (now_at en) t)"
    using find_key_sql_update_one [OF assms(4), where f = "heartbeat_row (now_at en)" and j = i]
    by (simp add: d'_def)
  have "\<not> reachable d'" if "t_status t = Pending"
  proof
    assume "reachable d'"
    then have "task_wf (heartbeat_row (now_at en) t)" using db_wf_task [OF reachable_db_wf row] by blast
    with that show False by (simp add: row_defs task_wf_defs)
  qed
  moreover have "task_logs d' = task_logs ?d @ [l]" "l_message l = msg" "l_task_id l = i"
    by (simp_all add: d'_def l_def)
  moreover have "t_claimed_by (heartbeat_row (now_at en) t) = t_claimed_by t"
    "t_last_heartbeat_at (heartbeat_row (now_at en) t) = Some (now_at en)"
    "t_status (heartbeat_row (now_at en) t) = (if t_status t = Claimed then InProgress else t_status t)"
    by (simp_all add: heartbeat_row_def)
  ultimately have "\<exists>l d' t'. append_interleaved en w i msg others d = (Inr l, d') \<and>
      task_logs d' = task_logs (run others d) @ [l] \<and> l_message l = msg \<and> l_task_id l = i \<and>
      find_task i d' = Some t' \<and> t_claimed_by t' = t_claimed_by t \<and>
      t_last_heartbeat_at t' = Some (now_at en) \<and>
      t_status t' = (if t_status t = Claimed then InProgress else t_status t) \<and>
      (t_status t = Pending \<longrightarrow> \<not> reachable d')"
    using run row by blast
  with False show ?thesis by (simp only: if_not_P if_False)
qed

text \<open>The reaper takes the task from a worker between the two statements.\<close>

definition race_db :: db where
  "race_db = run [(calm 1 9, CreateTask sample_input), (calm 2 0, ClaimTask ''w'')] empty_db"

definition race_row :: task where
  "race_row = claim_row ''w'' 2 (new_row (calm 1 9) sample_input (JObj [(''instructions'', JStr ''go'')]) 3)"

lemma race_row_simps [simp]:
  "t_id race_row = 9" "t_status race_row = Claimed" "t_claimed_by race_row = Some ''w''"
  "t_last_heartbeat_at race_row = Some 2" "t_attempt_count race_row = 1" "t_max_attempts race_row = 3"
  by (simp_all add: race_row_def claim_row_def)

lemma race_db_eq: "race_db = empty_db\<lparr>tasks := [race_row]\<rparr>"
proof -
  let ?t = "new_row (calm 1 9) sample_input (JObj [(''instructions'', JStr ''go'')]) 3"
  have dist: "distinct (ids (empty_db\<lparr>tasks := [?t]\<rparr>))" by simp
  have "claim_candidate (calm 2 0) [?t] = Some ?t"
    by (simp add: claim_candidate_def eligible_def new_row_def sample_input_def)
  then have "snd (claim_task (calm 2 0) ''w'' (empty_db\<lparr>tasks := [?t]\<rparr>)) = empty_db\<lparr>tasks := [race_row]\<rparr>"
    by (simp add: claim_task_eq [OF dist] int4_def race_row_def sql_update_Cons)
  then show ?thesis by (simp add: race_db_def sample_created)
qed

lemma append_race_witness:
  "\<exists>l d'. append_interleaved (calm 90000001 0) ''w'' 9 ''late'' [(calm 90000000 0, ReapStale 1000)] race_db =
     (Inr l, d') \<and> \<not> reachable d'"
proof -
  let ?en = "calm 90000000 0"
  have check: "append_check (calm 90000001 0) ''w'' 9 race_db = Inr ()"
    by (simp add: append_check_def race_db_eq)
  have "reap_runs ?en 1000 race_db" "stale (now_at ?en) (microseconds 1000) race_row"
    by (simp_all add: reap_runs_def race_db_eq retry_in_range_def int4_def exhausted_def stale_def
        active_status_def microseconds_def quot_def)
  moreover have "find_task 9 race_db = Some race_row" by (simp add: race_db_eq)
  ultimately have row: "find_task 9 (run [(?en, ReapStale 1000)] race_db) =
      Some (retry_row lease_expired 90000000 race_row)"
    by (simp add: reap_stale_find)
  have "reachable race_db" unfolding race_db_def by (rule reachable_run [OF reachable.start])
  from append_race [OF check _ this row, of "''late''"] show ?thesis
    by (simp add: retry_row_def exhausted_def del: run.simps) blast
qed

end
