(* ===== verification/Issue_Refs.thy ===== *)
theory Issue_Refs
  imports Go_Text
begin

section \<open>Issue references\<close>

text \<open>
  issuerefs/issuerefs.go. Both regular expressions are deterministic (every repetition is followed
  by a character outside its class), so their matches are read off from left to right:
  \<open>span\<close> takes the longest prefix in a class. \<open>jira_match\<close> and \<open>pr_match\<close> return the submatches.
\<close>

definition span :: "(char \<Rightarrow> bool) \<Rightarrow> string \<Rightarrow> string \<times> string" where
  "span p s = (takeWhile p s, dropWhile p s)"

definition strip_prefix :: "string \<Rightarrow> string \<Rightarrow> string option" where
  "strip_prefix p s = (if has_prefix s p then Some (drop (length p) s) else None)"

definition is_digit :: "char \<Rightarrow> bool" where
  "is_digit c \<longleftrightarrow> digit_val c \<noteq> None"

definition is_upper :: "char \<Rightarrow> bool" where
  "is_upper c \<longleftrightarrow> (let n = of_char c in (65 :: nat) \<le> n \<and> n \<le> 90)"

definition key_char :: "char \<Rightarrow> bool" where
  "key_char c \<longleftrightarrow> is_upper c \<or> is_digit c \<or> c = CHR ''_''"

text \<open>\<open>https?://[^/]+\<close>: what follows it.\<close>

definition after_host :: "string \<Rightarrow> string option" where
  "after_host s =
     (case strip_prefix ''http'' s of
        None \<Rightarrow> None
      | Some r \<Rightarrow>
          (case strip_prefix ''://'' (case r of [] \<Rightarrow> [] | c # cs \<Rightarrow> if c = CHR ''s'' then cs else r) of
             None \<Rightarrow> None
           | Some r \<Rightarrow>
               (case span (\<lambda>c. c \<noteq> CHR ''/'') r of
                  (host, rest) \<Rightarrow> if host = [] then None else Some rest)))"

text \<open>\<open>(?:[?#].*)?$\<close>\<close>

definition url_tail :: "string \<Rightarrow> bool" where
  "url_tail s \<longleftrightarrow>
     (case s of
        [] \<Rightarrow> True
      | c # r \<Rightarrow> (c = CHR ''?'' \<or> c = CHR ''#'') \<and> CHR 0x0A \<notin> set r)"

definition jira_match :: "string \<Rightarrow> string option" where
  "jira_match s =
     (case after_host s of None \<Rightarrow> None | Some r \<Rightarrow>
     (case strip_prefix ''/browse/'' r of None \<Rightarrow> None | Some r \<Rightarrow>
     (case span key_char r of (project, r) \<Rightarrow>
        (case strip_prefix ''-'' r of None \<Rightarrow> None | Some r \<Rightarrow>
        (case span is_digit r of (number, r) \<Rightarrow>
           if 2 \<le> length project \<and> is_upper (hd project) \<and> number \<noteq> [] \<and> url_tail r
           then Some (project @ ''-'' @ number) else None)))))"

text \<open>\<open>/([^/]+)\<close>\<close>

definition segment :: "string \<Rightarrow> (string \<times> string) option" where
  "segment s =
     (case strip_prefix ''/'' s of None \<Rightarrow> None | Some r \<Rightarrow>
     (case span (\<lambda>c. c \<noteq> CHR ''/'') r of (seg, r) \<Rightarrow> if seg = [] then None else Some (seg, r)))"

definition pr_match :: "string \<Rightarrow> (string \<times> string \<times> string) option" where
  "pr_match s =
     (case after_host s of None \<Rightarrow> None | Some r \<Rightarrow>
     (case segment r of None \<Rightarrow> None | Some (org, r) \<Rightarrow>
     (case segment r of None \<Rightarrow> None | Some (repo, r) \<Rightarrow>
     (case strip_prefix ''/pull/'' r of None \<Rightarrow> None | Some r \<Rightarrow>
     (case span is_digit r of (number, r) \<Rightarrow>
        if number \<noteq> [] \<and> url_tail r then Some (org, repo, number) else None)))))"

definition validate_jira :: "string \<Rightarrow> bool" where
  "validate_jira s \<longleftrightarrow> jira_match s \<noteq> None"

definition validate_pr :: "string \<Rightarrow> bool" where
  "validate_pr s \<longleftrightarrow> pr_match s \<noteq> None"

definition jira_short :: "string \<Rightarrow> string" where
  "jira_short url =
     (if url = [] then [] else case jira_match url of None \<Rightarrow> url | Some k \<Rightarrow> k)"

definition pr_short :: "string \<Rightarrow> string" where
  "pr_short url =
     (if url = [] then [] else case pr_match url of
        None \<Rightarrow> url
      | Some (org, repo, n) \<Rightarrow> org @ ''/'' @ repo @ ''#'' @ n)"

lemma issue_refs_examples:
  "jira_short ''https://j.example.com/browse/PROJ-12?x=1'' = ''PROJ-12''"
  "validate_jira ''https://j/browse/P-1'' = False" "validate_jira ''ftp://j/browse/PR-1'' = False"
  "pr_short ''https://github.com/org/repo/pull/7'' = ''org/repo#7''"
  "validate_pr ''https://github.com/org/repo/pull/7/files'' = False"
  by code_simp+

end
