(* ===== verification/Http_Forms.thy ===== *)
theory Http_Forms
  imports Mastermind Issue_Refs
begin

section \<open>The task form of the admin pages\<close>

text \<open>
  parseTaskForm, formFromTask and instructionsFrom of httpserver/handlers.go. \<open>web\<close> holds what the
  pages use of libraries: uuid.Parse and UUID.String, encoding/json's decoder and Postgres's text
  of a JSONB value, and the parsing and formatting of a datetime-local field in the server's time
  zone. A request is the parts of \<open>http.Request\<close> the handlers look at. Reading a form can panic
  (assignment to an entry of a nil map): net/http then drops the connection, \<open>FormPanic\<close>.
\<close>

record web =
  web_user :: string
  web_password :: string
  web_parse :: "string \<Rightarrow> uuid option"
  web_show :: "uuid \<Rightarrow> string"
  json_of :: "string \<Rightarrow> raw_json"
  json_text :: "json \<Rightarrow> string"
  read_local :: "string \<Rightarrow> time option"
  show_local :: "time \<Rightarrow> string"

record http_request =
  rq_method :: string
  rq_path :: string
  rq_raw_path :: string
  rq_query :: "(string \<times> string) list"
  rq_body :: "(string \<times> string) list"
  rq_form_error :: "string option"
  rq_credentials :: "(string \<times> string) option"
  rq_htmx :: bool

definition first_value :: "string \<Rightarrow> (string \<times> string) list \<Rightarrow> string" where
  "first_value k kvs = or_empty (map_of kvs k)"

text \<open>\<open>PostFormValue\<close> and \<open>FormValue\<close>: the body counts for POST, PUT and PATCH, and comes first.\<close>

definition post_form :: "http_request \<Rightarrow> (string \<times> string) list" where
  "post_form rq = (if rq_method rq \<in> {''POST'', ''PUT'', ''PATCH''} then rq_body rq else [])"

definition post_form_value :: "string \<Rightarrow> http_request \<Rightarrow> string" where
  "post_form_value k rq = first_value k (post_form rq)"

definition form_value :: "string \<Rightarrow> http_request \<Rightarrow> string" where
  "form_value k rq = first_value k (post_form rq @ rq_query rq)"

subsection \<open>The form\<close>

record task_form =
  tf_name :: string
  tf_priority :: int
  tf_max_attempts :: int
  tf_scheduled_for :: string
  tf_instructions :: string
  tf_payload :: string
  tf_jira_url :: string
  tf_github_pr_url :: string

definition empty_form :: task_form where
  "empty_form = \<lparr>tf_name = [], tf_priority = 0, tf_max_attempts = 0, tf_scheduled_for = [],
     tf_instructions = [], tf_payload = [], tf_jira_url = [], tf_github_pr_url = []\<rparr>"

definition instructions_from :: "raw_json \<Rightarrow> string" where
  "instructions_from payload =
     (case payload of
        RawDoc j \<Rightarrow> or_empty (decode_instructions_str j)
      | _ \<Rightarrow> [])"

datatype form_result = FormPanic | FormError task_form string | FormOk task_form new_task_input

datatype merge_result = MergePanic | MergeError | Merged json

definition merge_instructions :: "json \<Rightarrow> string \<Rightarrow> merge_result" where
  "merge_instructions j s =
     (case go_any j of
        JObj ms \<Rightarrow> Merged (JObj (set_member ''instructions'' (JStr s) ms))
      | JNull \<Rightarrow> MergePanic
      | _ \<Rightarrow> MergeError)"

definition parse_int_field :: "string \<Rightarrow> int option" where
  "parse_int_field s = (if s = [] then Some 0 else atoi s)"

definition bad_jira :: string where
  "bad_jira = ''JIRA URL must look like https://<host>/browse/PROJ-123''"

definition bad_pr :: string where
  "bad_pr = ''GitHub PR URL must look like https://<host>/<org>/<repo>/pull/123''"

text \<open>The second half of parseTaskForm, from the payload on: \<open>f\<close> is the form so far.\<close>

definition finish_form :: "web \<Rightarrow> task_form \<Rightarrow> raw_json \<Rightarrow> form_result" where
  "finish_form env f payload =
     (if tf_jira_url f \<noteq> [] \<and> \<not> validate_jira (tf_jira_url f) then FormError f bad_jira
      else if tf_github_pr_url f \<noteq> [] \<and> \<not> validate_pr (tf_github_pr_url f) then FormError f bad_pr
      else
        let input = \<lparr>nt_name = tf_name f, nt_payload = payload, nt_priority = tf_priority f,
              nt_max_attempts = tf_max_attempts f, nt_scheduled_for = None,
              nt_jira_url = non_empty (tf_jira_url f),
              nt_github_pr_url = non_empty (tf_github_pr_url f)\<rparr>
        in if tf_scheduled_for f = [] then FormOk f input
           else case read_local env (tf_scheduled_for f) of
                  None \<Rightarrow> FormError f ''scheduled_for must be YYYY-MM-DDTHH:MM''
                | Some t \<Rightarrow> FormOk f (input\<lparr>nt_scheduled_for := Some t\<rparr>))"

definition parse_task_form :: "web \<Rightarrow> http_request \<Rightarrow> form_result" where
  "parse_task_form env rq =
     (case rq_form_error rq of Some e \<Rightarrow> FormError empty_form e | None \<Rightarrow>
      let f = \<lparr>tf_name = form_value ''name'' rq, tf_priority = 0, tf_max_attempts = 0,
               tf_scheduled_for = form_value ''scheduled_for'' rq,
               tf_instructions = post_form_value ''instructions'' rq,
               tf_payload = form_value ''payload'' rq,
               tf_jira_url = trim_space (form_value ''jira_url'' rq),
               tf_github_pr_url = trim_space (form_value ''github_pr_url'' rq)\<rparr>
      in case parse_int_field (form_value ''priority'' rq) of
           None \<Rightarrow> FormError f ''priority must be an integer''
         | Some p \<Rightarrow>
      (let f = f\<lparr>tf_priority := p\<rparr>
      in case parse_int_field (form_value ''max_attempts'' rq) of
           None \<Rightarrow> FormError f ''max_attempts must be an integer''
         | Some m \<Rightarrow>
      (let f = f\<lparr>tf_max_attempts := (if m \<le> 0 then 3 else m),
                 tf_payload := (if tf_payload f = [] then ''{}'' else tf_payload f)\<rparr>
      in case json_of env (tf_payload f) of
           RawDoc j \<Rightarrow>
             if tf_instructions f = [] then finish_form env f (RawDoc j)
             else (case merge_instructions j (tf_instructions f) of
                     MergePanic \<Rightarrow> FormPanic
                   | MergeError \<Rightarrow> FormError f ''payload must be valid JSON''
                   | Merged merged \<Rightarrow> finish_form env f (RawDoc merged))
         | _ \<Rightarrow> FormError f ''payload must be valid JSON'')))"

definition form_from_task :: "web \<Rightarrow> task \<Rightarrow> task_form" where
  "form_from_task env t =
     \<lparr>tf_name = t_name t, tf_priority = t_priority t, tf_max_attempts = t_max_attempts t,
      tf_scheduled_for = (case t_scheduled_for t of None \<Rightarrow> [] | Some s \<Rightarrow> show_local env s),
      tf_instructions = instructions_from (RawDoc (t_payload t)),
      tf_payload = json_text env (t_payload t),
      tf_jira_url = or_empty (t_jira_url t), tf_github_pr_url = or_empty (t_github_pr_url t)\<rparr>"

text \<open>The fields of templates/tasks_edit.html.\<close>

definition form_fields :: "task_form \<Rightarrow> (string \<times> string) list" where
  "form_fields f =
     [(''name'', tf_name f), (''priority'', itoa (tf_priority f)),
      (''max_attempts'', itoa (tf_max_attempts f)), (''scheduled_for'', tf_scheduled_for f),
      (''jira_url'', tf_jira_url f), (''github_pr_url'', tf_github_pr_url f),
      (''instructions'', tf_instructions f), (''payload'', tf_payload f)]"

definition edit_input :: "new_task_input \<Rightarrow> update_task_input" where
  "edit_input input =
     \<lparr>ut_name = nt_name input, ut_priority = nt_priority input,
      ut_max_attempts = nt_max_attempts input, ut_scheduled_for = nt_scheduled_for input,
      ut_payload = nt_payload input, ut_jira_url = nt_jira_url input,
      ut_github_pr_url = nt_github_pr_url input\<rparr>"

text \<open>Setting a member to the value it has changes nothing.\<close>

lemma set_member_same:
  assumes "distinct (map fst ms)" and "sorted (map fst ms)" and "(k, v) \<in> set ms"
  shows "set_member k v ms = ms"
proof -
  have "mset ((k, v) # filter (\<lambda>(k', _). k' \<noteq> k) ms) = mset ms"
    using assms(1,3)
  proof (induction ms)
    case (Cons m ms)
    show ?case
    proof (cases "m = (k, v)")
      case True
      with Cons.prems(1) have "k \<notin> fst ` set ms" by simp
      then have "filter (\<lambda>(k', _). k' \<noteq> k) ms = ms" by (intro filter_True) (auto simp: image_iff)
      with True show ?thesis by simp
    next
      case False
      with Cons.prems have "(k, v) \<in> set ms" "fst m \<noteq> k" by (auto simp: image_iff)
      with Cons show ?thesis by (cases m) (simp add: add_mset_commute)
    qed
  qed simp
  then show ?thesis
    unfolding set_member_def
    by (rule sort_key_inj_key_eq) (use assms in \<open>auto simp: distinct_map inj_on_def\<close>)
qed

subsection \<open>Saving the edit form unchanged\<close>

lemma instructions_from_member:
  assumes "exact_key ms" and "instructions_from (RawDoc (jsonb (JObj ms))) = s" and "s \<noteq> []"
  shows "member_last ''instructions'' ms = Some (JStr s)"
proof -
  obtain ms' where ms': "jsonb (JObj ms) = JObj ms'" by simp
  then have def': "ms' = sort_key key_rank (map (\<lambda>(k, v). (k, jsonb v)) (keep_last ms))"
    by (simp add: jsonb_obj del: jsonb.simps)
  have "mset (map fst ms') = mset (map fst (keep_last ms))"
    unfolding def' mset_map mset_sort by (simp add: image_mset.compositionality comp_def case_prod_beta)
  then have dist: "distinct (map fst ms')" and keys: "set (map fst ms') = set (map fst (keep_last ms))"
    by (metis distinct_keep_last mset_eq_imp_distinct_iff, metis set_mset_mset)
  have "exact_key ms'"
    using assms(1) keys keys_keep_last [of ms]
    by (fastforce simp: exact_key_def list_all_iff image_iff)
  from decode_str_distinct [OF dist this] assms(2,3) ms'
  have "member_last ''instructions'' ms' = Some (JStr s)"
    by (auto simp: instructions_from_def decode_instructions_str_def or_empty_def
        split: option.splits json.splits)
  then have "string_member ''instructions'' (jsonb (JObj ms)) = Some s"
    by (simp only: ms' string_member_iff)
  then show ?thesis by (simp only: string_member_norm string_member_iff)
qed

lemma merge_same:
  assumes "member_last ''instructions'' ms = Some (JStr s)"
  shows "\<exists>j. merge_instructions (jsonb (JObj ms)) s = Merged j \<and> jsonb j = jsonb (JObj ms)"
proof -
  obtain ms' where ms': "jsonb (JObj ms) = JObj ms'" by simp
  obtain ms2 where ms2: "go_any (JObj ms') = JObj ms2" "distinct (map fst ms2)" "sorted (map fst ms2)"
    using go_any_obj [of ms'] by blast
  have "string_member ''instructions'' (go_any (jsonb (JObj ms))) = Some s"
    unfolding ms' using assms string_member_norm(1) [of _ ms'] string_member_norm(2) [of _ ms]
    by (simp only: ms' string_member_iff)
  then have "member_last ''instructions'' ms2 = Some (JStr s)"
    by (simp only: ms' ms2(1) string_member_iff)
  then have "(''instructions'', JStr s) \<in> set ms2" using ms2(2) by (simp add: member_last_distinct)
  then have "set_member ''instructions'' (JStr s) ms2 = ms2" by (rule set_member_same [OF ms2(2,3)])
  then have "merge_instructions (jsonb (JObj ms)) s = Merged (JObj ms2)"
    by (simp only: merge_instructions_def ms' ms2(1)) simp
  moreover have "jsonb (JObj ms2) = jsonb (JObj ms)"
    unfolding ms2(1) [symmetric] jsonb_go_any ms' [symmetric] by (rule jsonb_jsonb)
  ultimately show ?thesis by blast
qed

lemma form_fields_values:
  assumes "rq_method rq = ''POST''" and "rq_body rq = form_fields f"
  shows "form_value ''name'' rq = tf_name f" "form_value ''priority'' rq = itoa (tf_priority f)"
    "form_value ''max_attempts'' rq = itoa (tf_max_attempts f)"
    "form_value ''scheduled_for'' rq = tf_scheduled_for f" "form_value ''jira_url'' rq = tf_jira_url f"
    "form_value ''github_pr_url'' rq = tf_github_pr_url f"
    "post_form_value ''instructions'' rq = tf_instructions f" "form_value ''payload'' rq = tf_payload f"
  by (simp_all add: form_value_def post_form_value_def post_form_def first_value_def form_fields_def
      or_empty_def assms)

definition minute :: time where
  "minute = 60000000"

text \<open>The URLs of a task that the form's validation accepts.\<close>

definition form_urls_ok :: "task \<Rightarrow> bool" where
  "form_urls_ok t \<longleftrightarrow>
     pred_option (\<lambda>u. validate_jira u \<and> trim_space u = u) (t_jira_url t) \<and>
     pred_option (\<lambda>u. validate_pr u \<and> trim_space u = u) (t_github_pr_url t)"

lemma trim_space_Nil [simp]: "trim_space [] = []"
  by (simp add: trim_space_def space_seqs_def trim_seqs.simps)

lemma not_valid_Nil [simp]: "\<not> validate_jira []" "\<not> validate_pr []"
  by (simp_all add: validate_jira_def jira_match_def validate_pr_def pr_match_def after_host_def
      strip_prefix_def)

lemma url_field:
  assumes "pred_option (\<lambda>u. P u \<and> trim_space u = u) x" and "\<not> P []"
  shows "trim_space (or_empty x) = or_empty x" "non_empty (or_empty x) = x"
    "\<not> (or_empty x \<noteq> [] \<and> \<not> P (or_empty x))"
  using assms by (cases x; auto simp: or_empty_def non_empty_def)+

lemma finish_form_ok:
  assumes "form_urls_ok t" and "tf_jira_url f = or_empty (t_jira_url t)"
    and "tf_github_pr_url f = or_empty (t_github_pr_url t)"
    and "tf_scheduled_for f = (case t_scheduled_for t of None \<Rightarrow> [] | Some x \<Rightarrow> show_local env x)"
    and "\<forall>x \<in> set_option (t_scheduled_for t). show_local env x \<noteq> [] \<and>
      read_local env (show_local env x) = Some (x - x mod minute)"
  shows "finish_form env f payload = FormOk f
    \<lparr>nt_name = tf_name f, nt_payload = payload, nt_priority = tf_priority f,
     nt_max_attempts = tf_max_attempts f,
     nt_scheduled_for = map_option (\<lambda>x. x - x mod minute) (t_scheduled_for t),
     nt_jira_url = t_jira_url t, nt_github_pr_url = t_github_pr_url t\<rparr>"
  using assms url_field [where P = validate_jira and x = "t_jira_url t"]
    url_field [where P = validate_pr and x = "t_github_pr_url t"]
  by (cases "t_scheduled_for t") (simp_all add: finish_form_def form_urls_ok_def Let_def)

lemma payload_kept:
  assumes "t_payload t = jsonb (JObj ms)" and "exact_key ms"
    and "s = instructions_from (RawDoc (t_payload t))"
  shows "\<exists>j. (if s = [] then j = t_payload t else merge_instructions (t_payload t) s = Merged j) \<and>
    jsonb j = t_payload t"
proof (cases "s = []")
  case True
  then show ?thesis by (simp add: assms(1) jsonb_jsonb del: jsonb.simps)
next
  case False
  have "member_last ''instructions'' ms = Some (JStr s)"
    using instructions_from_member [OF assms(2) _ False] assms(1,3) by (simp only:)
  from merge_same [OF this] False show ?thesis by (simp only: assms(1) if_False)
qed


text \<open>A pending task in its retry backoff, with its payload text and its start time in minutes.\<close>

definition sample_web :: web where
  "sample_web = \<lparr>web_user = ''admin'', web_password = ''pw'', web_parse = parse_uuid number_config,
     web_show = show_uuid number_config, json_of = (\<lambda>_. RawDoc (JObj [(''instructions'', JStr ''go'')])),
     json_text = (\<lambda>_. ''p''), read_local = (\<lambda>s. Some (minute * int (length s))),
     show_local = (\<lambda>x. replicate (nat (x div minute)) CHR ''x'')\<rparr>"

definition backoff_task :: task where
  "backoff_task = (sample_task 1 Pending)\<lparr>t_payload := JObj [(''instructions'', JStr ''go'')],
     t_scheduled_for := Some 90000000\<rparr>"

definition post_request :: "string \<Rightarrow> (string \<times> string) list \<Rightarrow> http_request" where
  "post_request path body = \<lparr>rq_method = ''POST'', rq_path = path, rq_raw_path = [], rq_query = [],
     rq_body = body, rq_form_error = None, rq_credentials = Some (''admin'', ''pw''), rq_htmx = False\<rparr>"


end
