(* ===== verification/Http_Pages.thy ===== *)
theory Http_Pages
  imports Http_Forms
begin

section \<open>Pages and templates\<close>

text \<open>
  The data of the pages (handlers.go, dashboard.go), New of httpserver/server.go, which parses the
  templates, and their execution. Of a template the model has what decides whether a page comes
  out: the names it defines, invokes and calls, and whether it follows the pointer \<open>.Task\<close> without
  a test. \<open>CutHtml\<close> is a page whose template failed on the way: its head is sent, the rest is
  missing. Markup and escaping are not modelled. \<open>Aborted\<close> is a connection dropped by a panic of
  the handler, \<open>MuxRedirect\<close> a redirect of \<open>http.ServeMux\<close> itself.
\<close>

subsection \<open>Data\<close>

datatype form_msg = NoMsg | Msg string | StoreMsg store_error

record list_page_data =
  lp_title :: string
  lp_items :: "task list"
  lp_total :: int
  lp_statuses :: "task_status list"
  lp_current :: string

record form_page_data =
  fp_title :: string
  fp_form :: task_form
  fp_task :: "task option"
  fp_error :: form_msg

record detail_page_data =
  dp_title :: string
  dp_task :: task
  dp_instructions :: string
  dp_logs :: "task_log list"
  dp_error :: string

record dashboard_data =
  dd_title :: string
  dd_queue :: "task list"
  dd_workers :: "dashboard_worker list"
  dd_busy :: nat
  dd_idle :: nat
  dd_offline :: nat

record agent_detail_data =
  ag_title :: string
  ag_detail :: agent_detail

datatype page_data =
    ListPage list_page_data
  | FormPage form_page_data
  | DetailPage detail_page_data
  | DashboardPage dashboard_data
  | AgentPage agent_detail_data

datatype body =
    NoBody | Plain string | StoreError store_error | Location string
  | Html string page_data | CutHtml string page_data

datatype http_reply = Reply int body | Aborted | MuxRedirect

type_synonym web_handler = "db \<Rightarrow> http_reply \<times> db"

definition not_found :: http_reply where
  "not_found = Reply 404 (Plain ''404 page not found'')"

definition method_not_allowed :: http_reply where
  "method_not_allowed = Reply 405 (Plain ''method not allowed'')"

definition unauthorized :: http_reply where
  "unauthorized = Reply 401 (Plain ''unauthorized'')"

definition see_other :: "string \<Rightarrow> http_reply" where
  "see_other path = Reply 303 (Location path)"

definition task_path :: "web \<Rightarrow> uuid \<Rightarrow> string" where
  "task_path env i = ''/tasks/'' @ web_show env i"

subsection \<open>The templates\<close>

record template_file =
  tpl_name :: string
  tpl_invokes :: "string list"
  tpl_calls :: "string list"
  tpl_follows_task :: bool

text \<open>The files of templates/, each of which defines one template.\<close>

definition templates_fs :: "(string \<times> template_file) list" where
  "templates_fs =
     [(''templates/base.html'',
        \<lparr>tpl_name = ''base'', tpl_invokes = [''content''], tpl_calls = [], tpl_follows_task = False\<rparr>),
      (''templates/tasks_list.html'',
        \<lparr>tpl_name = ''content'', tpl_invokes = [''tasks_fragment''], tpl_calls = [''eq''],
         tpl_follows_task = False\<rparr>),
      (''templates/tasks_fragment.html'',
        \<lparr>tpl_name = ''tasks_fragment'', tpl_invokes = [],
         tpl_calls = [''jiraShort'', ''deref'', ''prShort'', ''and'', ''not'', ''or'', ''eq''],
         tpl_follows_task = False\<rparr>),
      (''templates/tasks_new.html'',
        \<lparr>tpl_name = ''content'', tpl_invokes = [], tpl_calls = [], tpl_follows_task = False\<rparr>),
      (''templates/tasks_edit.html'',
        \<lparr>tpl_name = ''content'', tpl_invokes = [], tpl_calls = [], tpl_follows_task = True\<rparr>),
      (''templates/tasks_detail.html'',
        \<lparr>tpl_name = ''content'', tpl_invokes = [],
         tpl_calls = [''deref'', ''jiraShort'', ''prShort'', ''printf'', ''eq'', ''or'', ''ne''],
         tpl_follows_task = False\<rparr>),
      (''templates/dashboard.html'',
        \<lparr>tpl_name = ''dashboard'', tpl_invokes = [''dashboard_fragment''], tpl_calls = [],
         tpl_follows_task = False\<rparr>),
      (''templates/dashboard_fragment.html'',
        \<lparr>tpl_name = ''dashboard_fragment'', tpl_invokes = [],
         tpl_calls = [''len'', ''not'', ''priorityClass'', ''shortID'', ''relTime'', ''agentState'', ''eq'',
           ''urlEscape'', ''initials'', ''deref_time'', ''gt'', ''printf'', ''deref'', ''attemptPct'', ''logTime''],
         tpl_follows_task = False\<rparr>),
      (''templates/agent_detail.html'',
        \<lparr>tpl_name = ''agent_detail'', tpl_invokes = [''agent_detail_fragment''],
         tpl_calls = [''urlEscape''], tpl_follows_task = False\<rparr>),
      (''templates/agent_detail_fragment.html'',
        \<lparr>tpl_name = ''agent_detail_fragment'', tpl_invokes = [],
         tpl_calls = [''agentState'', ''initials'', ''relTime'', ''deref_time'', ''deref'', ''attemptPct'',
           ''len'', ''logTime'', ''not'', ''shortID''],
         tpl_follows_task = False\<rparr>)]"

text \<open>The functions of text/template that the files call.\<close>

definition builtin_funcs :: "string list" where
  "builtin_funcs = [''and'', ''eq'', ''gt'', ''len'', ''ne'', ''not'', ''or'', ''printf'']"

definition dashboard_funcs :: "string list" where
  "dashboard_funcs = [''priorityClass'', ''shortID'', ''relTime'', ''agentState'', ''initials'',
     ''deref_time'', ''attemptPct'', ''logTime'', ''urlEscape'']"

definition template_funcs :: "string list" where
  "template_funcs = [''jiraShort'', ''prShort'', ''deref''] @ dashboard_funcs"

definition page_files :: "(string \<times> string list) list" where
  "page_files =
     [(''tasks_list'', [''templates/base.html'', ''templates/tasks_list.html'', ''templates/tasks_fragment.html'']),
      (''tasks_new'', [''templates/base.html'', ''templates/tasks_new.html'']),
      (''tasks_edit'', [''templates/base.html'', ''templates/tasks_edit.html'']),
      (''tasks_detail'', [''templates/base.html'', ''templates/tasks_detail.html'']),
      (''dashboard'', [''templates/dashboard.html'', ''templates/dashboard_fragment.html'']),
      (''dashboard_fragment'', [''templates/dashboard_fragment.html'']),
      (''agent_detail'', [''templates/agent_detail.html'', ''templates/agent_detail_fragment.html'']),
      (''agent_detail_fragment'', [''templates/agent_detail_fragment.html''])]"

text \<open>\<open>ParseFS\<close>: fails for a missing file and for a call of an unknown function.\<close>

definition parse_fs :: "string list \<Rightarrow> string list \<Rightarrow> template_file list option" where
  "parse_fs funcs files =
     (case those (map (map_of templates_fs) files) of
        None \<Rightarrow> None
      | Some ts \<Rightarrow>
          if list_all (\<lambda>t. list_all (\<lambda>f. f \<in> set (builtin_funcs @ funcs)) (tpl_calls t)) ts
          then Some ts else None)"

type_synonym pages = "(string \<times> template_file list) list"

definition new_pages :: "pages option" where
  "new_pages =
     those (map (\<lambda>(key, files). map_option (Pair key) (parse_fs template_funcs files))
       (page_files @ [(''tasks_fragment'', [''templates/tasks_fragment.html''])]))"

definition server_pages :: pages where
  "server_pages = (case new_pages of None \<Rightarrow> [] | Some ps \<Rightarrow> ps)"

subsection \<open>Execution\<close>

text \<open>
  html/template checks a template with all it invokes before it writes anything. A chain of
  invocations without repetition is no longer than the list of files, which bounds the search.
\<close>

fun resolves :: "nat \<Rightarrow> template_file list \<Rightarrow> string \<Rightarrow> bool" where
  "resolves 0 ts name = False"
| "resolves (Suc n) ts name =
     (case find (\<lambda>t. tpl_name t = name) ts of
        None \<Rightarrow> False
      | Some t \<Rightarrow> list_all (resolves n ts) (tpl_invokes t))"

definition without_task :: "page_data \<Rightarrow> bool" where
  "without_task view = (case view of FormPage f \<Rightarrow> fp_task f = None | _ \<Rightarrow> False)"

datatype execution = NoSuchPage | NoSuchTemplate | Cut | Whole

text \<open>\<open>s.pages[key].ExecuteTemplate(w, name, view)\<close>: the zero value of the map is a nil template.\<close>

definition execute_template :: "pages \<Rightarrow> string \<Rightarrow> string \<Rightarrow> page_data \<Rightarrow> execution" where
  "execute_template ps key name view =
     (case map_of ps key of
        None \<Rightarrow> NoSuchPage
      | Some ts \<Rightarrow>
          if \<not> resolves (length ts) ts name then NoSuchTemplate
          else if list_ex tpl_follows_task ts \<and> without_task view then Cut else Whole)"

definition render_page :: "string \<Rightarrow> string \<Rightarrow> page_data \<Rightarrow> http_reply" where
  "render_page key name view =
     (case execute_template server_pages key name view of
        NoSuchPage \<Rightarrow> Aborted
      | NoSuchTemplate \<Rightarrow> Reply 500 (Plain ''render error'')
      | Cut \<Rightarrow> Reply 200 (CutHtml name view)
      | Whole \<Rightarrow> Reply 200 (Html name view))"

text \<open>The status is written first, so an error of the template can only be logged.\<close>

definition render_with_status :: "string \<Rightarrow> page_data \<Rightarrow> int \<Rightarrow> http_reply" where
  "render_with_status key view status =
     (case execute_template server_pages key ''base'' view of
        NoSuchPage \<Rightarrow> Aborted
      | NoSuchTemplate \<Rightarrow> Reply status NoBody
      | Cut \<Rightarrow> Reply status (CutHtml ''base'' view)
      | Whole \<Rightarrow> Reply status (Html ''base'' view))"

definition render_form_error :: "string \<Rightarrow> form_page_data \<Rightarrow> int \<Rightarrow> http_reply" where
  "render_form_error key view status = render_with_status key (FormPage view) status"

subsection \<open>Every page is found\<close>

text \<open>New does not fail on the templates of the repository.\<close>

lemma new_pages_parse: "new_pages = Some server_pages"
proof -
  have "new_pages \<noteq> None" by code_simp
  then obtain ps where ps: "new_pages = Some ps" by blast
  show ?thesis unfolding server_pages_def ps by simp
qed

text \<open>The pages the handlers execute, with their templates.\<close>

definition executed :: "(string \<times> string) list" where
  "executed =
     [(''tasks_list'', ''base''), (''tasks_fragment'', ''tasks_fragment''), (''tasks_new'', ''base''),
      (''tasks_edit'', ''base''), (''tasks_detail'', ''base''), (''dashboard'', ''dashboard''),
      (''dashboard_fragment'', ''dashboard_fragment''), (''agent_detail'', ''agent_detail''),
      (''agent_detail_fragment'', ''agent_detail_fragment'')]"

definition page_found :: "pages \<Rightarrow> string \<times> string \<Rightarrow> bool" where
  "page_found ps e =
     (case map_of ps (fst e) of
        None \<Rightarrow> False
      | Some ts \<Rightarrow> resolves (length ts) ts (snd e) \<and> (list_ex tpl_follows_task ts \<longleftrightarrow> fst e = ''tasks_edit''))"

lemma all_found: "list_all (page_found server_pages) executed"
  by code_simp

lemma executed_found:
  assumes "(key, name) \<in> set executed"
  shows "execute_template server_pages key name view =
    (if key = ''tasks_edit'' \<and> without_task view then Cut else Whole)"
proof -
  have "page_found server_pages (key, name)"
    using all_found assms by (simp add: list_all_iff)
  then show ?thesis
    by (auto simp: page_found_def execute_template_def split: option.splits)
qed

lemmas render_defs = render_page_def render_with_status_def render_form_error_def

lemma render_executed:
  assumes "(key, name) \<in> set executed" and "key \<noteq> ''tasks_edit'' \<or> \<not> without_task view"
  shows "render_page key name view = Reply 200 (Html name view)"
  using assms by (simp add: render_page_def executed_found)

lemma render_status_executed:
  assumes "(key, ''base'') \<in> set executed"
  shows "render_with_status key view status =
    Reply status (if key = ''tasks_edit'' \<and> without_task view then CutHtml ''base'' view else Html ''base'' view)"
  using assms by (simp add: render_with_status_def executed_found)

lemma rendered:
  "render_page ''tasks_list'' ''base'' view = Reply 200 (Html ''base'' view)"
  "render_page ''tasks_fragment'' ''tasks_fragment'' view = Reply 200 (Html ''tasks_fragment'' view)"
  "render_page ''tasks_new'' ''base'' view = Reply 200 (Html ''base'' view)"
  "render_page ''tasks_detail'' ''base'' view = Reply 200 (Html ''base'' view)"
  "render_page ''dashboard'' ''dashboard'' view = Reply 200 (Html ''dashboard'' view)"
  "render_page ''dashboard_fragment'' ''dashboard_fragment'' view =
     Reply 200 (Html ''dashboard_fragment'' view)"
  "render_page ''agent_detail'' ''agent_detail'' view = Reply 200 (Html ''agent_detail'' view)"
  "render_page ''agent_detail_fragment'' ''agent_detail_fragment'' view =
     Reply 200 (Html ''agent_detail_fragment'' view)"
  "fp_task f = Some t \<Longrightarrow>
     render_page ''tasks_edit'' ''base'' (FormPage f) = Reply 200 (Html ''base'' (FormPage f))"
  "render_form_error ''tasks_new'' f status = Reply status (Html ''base'' (FormPage f))"
  "fp_task f = None \<Longrightarrow>
     render_form_error ''tasks_edit'' f status = Reply status (CutHtml ''base'' (FormPage f))"
  "render_with_status ''tasks_detail'' view status = Reply status (Html ''base'' view)"
  by (simp_all add: render_executed render_status_executed render_form_error_def executed_def without_task_def)

end
