(* ===== verification/Http_Mux.thy ===== *)
theory Http_Mux
  imports Go_Text
begin

section \<open>URL paths and the request multiplexer\<close>

text \<open>
  What the two HTTP servers use of net/url and net/http: escaping and unescaping of paths, the split
  of a request target into \<open>Path\<close> and \<open>RawPath\<close>, \<open>EscapedPath\<close>, and \<open>http.ServeMux\<close> for
  patterns without methods, hosts and wildcards. A pattern is its list of segments with a flag: a
  pattern that ends in a slash stands for everything below it.
\<close>

subsection \<open>Escaping\<close>

definition hex_digit :: "nat \<Rightarrow> char" where
  "hex_digit n = char_of (if n < 10 then 48 + n else 55 + n)"

definition hex_val :: "char \<Rightarrow> nat option" where
  "hex_val c =
     (let n = of_char c in
      if (48 :: nat) \<le> n \<and> n \<le> 57 then Some (n - 48)
      else if 65 \<le> n \<and> n \<le> 70 then Some (n - 55)
      else if 97 \<le> n \<and> n \<le> 102 then Some (n - 87)
      else None)"

fun path_unescape :: "string \<Rightarrow> string option" where
  "path_unescape [] = Some []"
| "path_unescape (c # r) =
     (if c \<noteq> CHR ''%'' then map_option ((#) c) (path_unescape r)
      else case r of
        h # l # rest \<Rightarrow>
          (case (hex_val h, hex_val l) of
             (Some a, Some b) \<Rightarrow> map_option ((#) (char_of (16 * a + b))) (path_unescape rest)
           | _ \<Rightarrow> None)
      | _ \<Rightarrow> None)"

definition escaped_char :: "char \<Rightarrow> string" where
  "escaped_char c = [CHR ''%'', hex_digit (of_char c div 16), hex_digit (of_char c mod 16)]"

fun url_escape :: "(char \<Rightarrow> bool) \<Rightarrow> string \<Rightarrow> string" where
  "url_escape bad [] = []"
| "url_escape bad (c # r) = (if bad c then escaped_char c else [c]) @ url_escape bad r"

definition unreserved :: "char \<Rightarrow> bool" where
  "unreserved c \<longleftrightarrow>
     (let n = (of_char c :: nat) in
      97 \<le> n \<and> n \<le> 122 \<or> 65 \<le> n \<and> n \<le> 90 \<or> 48 \<le> n \<and> n \<le> 57 \<or> c \<in> set ''-_.~'')"

definition escape_in_path :: "char \<Rightarrow> bool" where
  "escape_in_path c \<longleftrightarrow> \<not> unreserved c \<and> c \<notin> set ''$&+,/:;=@''"

definition escape_in_segment :: "char \<Rightarrow> bool" where
  "escape_in_segment c \<longleftrightarrow> \<not> unreserved c \<and> c \<notin> set ''$&+:=@''"

definition path_escape :: "string \<Rightarrow> string" where
  "path_escape = url_escape escape_in_segment"

text \<open>\<open>URL.setPath\<close>: the decoded path, and the path as sent where decoding loses it.\<close>

definition request_path :: "string \<Rightarrow> (string \<times> string) option" where
  "request_path p =
     (case path_unescape p of
        None \<Rightarrow> None
      | Some q \<Rightarrow> Some (q, if url_escape escape_in_path q = p then [] else p))"

definition valid_encoded :: "string \<Rightarrow> bool" where
  "valid_encoded s \<longleftrightarrow>
     list_all (\<lambda>c. c \<in> set ''!$&()*+,;=:@[]%'' \<or> c = CHR 0x27 \<or> \<not> escape_in_path c) s"

definition escaped_path :: "string \<Rightarrow> string \<Rightarrow> string" where
  "escaped_path path raw =
     (if raw \<noteq> [] \<and> valid_encoded raw \<and> path_unescape raw = Some path then raw
      else if path = ''*'' then ''*''
      else url_escape escape_in_path path)"

lemma hex_val_digit [simp]: "n < 16 \<Longrightarrow> hex_val (hex_digit n) = Some n"
  by (simp add: hex_val_def hex_digit_def of_char_of take_bit_eq_mod Let_def)

lemma char_split: "char_of (16 * (of_char c div 16 :: nat) + of_char c mod 16) = c"
proof -
  have "16 * (of_char c div 16) + of_char c mod 16 = (of_char c :: nat)"
    by (rule mult_div_mod_eq)
  then show ?thesis by simp
qed

lemma of_char_div: "(of_char c :: nat) div 16 < 16"
proof -
  have "(of_char c :: nat) mod 256 = of_char c" by (rule of_char_mod_256)
  then have "(of_char c :: nat) < 256" by (metis mod_less_divisor zero_less_numeral)
  then show ?thesis by linarith
qed

lemma unescape_escaped: "path_unescape (escaped_char c @ r) = map_option ((#) c) (path_unescape r)"
  by (simp add: escaped_char_def of_char_div char_split)

lemma unescape_escape:
  assumes "bad CHR ''%''"
  shows "path_unescape (url_escape bad s @ t) = map_option ((@) s) (path_unescape t)"
proof (induction s)
  case Nil
  show ?case by (cases "path_unescape t") simp_all
next
  case (Cons c s)
  have "bad c \<or> c \<noteq> CHR ''%''" using assms by blast
  then show ?case
    using Cons by (auto simp: unescape_escaped option.map_comp comp_def)
qed

lemma path_unescape_plain: "CHR ''%'' \<notin> set s \<Longrightarrow> path_unescape s = Some s"
  by (induction s) auto

lemma path_unescape_length:
  "path_unescape s = Some t \<Longrightarrow> length t \<le> length s \<and> (CHR ''%'' \<in> set s \<longrightarrow> length t < length s)"
proof (induction s arbitrary: t rule: path_unescape.induct)
  case (2 c r)
  show ?case
  proof (cases "c = CHR ''%''")
    case True
    with 2(3) obtain h l rest u where "r = h # l # rest" "path_unescape rest = Some u" "length t = Suc (length u)"
      by (auto split: list.splits option.splits)
    with 2(2) [OF _ \<open>r = h # l # rest\<close> HOL.refl HOL.refl] True 2(3) show ?thesis
      by (fastforce split: option.splits)
  next
    case False
    with 2 show ?thesis by fastforce
  qed
qed simp

lemma url_escape_append: "url_escape bad (s @ t) = url_escape bad s @ url_escape bad t"
  by (induction s) simp_all

lemma unreserved_hex: "n < 16 \<Longrightarrow> unreserved (hex_digit n)"
  by (simp add: hex_digit_def unreserved_def Let_def of_char_of take_bit_eq_mod)

lemma escaped_char_set: "c \<in> set (escaped_char x) \<Longrightarrow> c = CHR ''%'' \<or> unreserved c"
  using of_char_div [of x] unreserved_hex [of "of_char x mod 16"] unreserved_hex [of "of_char x div 16"]
  by (auto simp: escaped_char_def)

lemma url_escape_set: "c \<in> set (url_escape bad s) \<Longrightarrow> c = CHR ''%'' \<or> unreserved c \<or> \<not> bad c \<and> c \<in> set s"
  by (induction s) (auto split: if_splits dest: escaped_char_set)

lemma url_escape_id: "\<forall>c \<in> set s. \<not> bad c \<Longrightarrow> url_escape bad s = s"
  by (induction s) auto

lemma url_escape_cong: "\<forall>c \<in> set s. bad c \<longleftrightarrow> bad' c \<Longrightarrow> url_escape bad s = url_escape bad' s"
  by (induction s) auto

lemma escaped_char_neq: "c \<noteq> CHR ''%'' \<Longrightarrow> escaped_char c @ s \<noteq> c # t"
  by (simp add: escaped_char_def)

lemma url_escape_eq:
  assumes "\<And>c. good c \<Longrightarrow> c \<noteq> CHR ''%''"
  shows "url_escape (\<lambda>c. bad c \<or> good c) s = url_escape (\<lambda>c. bad c \<and> \<not> good c) s
    \<longleftrightarrow> (\<forall>c \<in> set s. \<not> good c)"
proof (induction s)
  case (Cons c s)
  then show ?case
    using assms [of c] escaped_char_neq [of c]
    by (cases "good c"; cases "bad c") (auto simp: escaped_char_def)
qed simp

text \<open>The characters that are escaped in a segment but not in a path.\<close>

definition segment_only :: "char \<Rightarrow> bool" where
  "segment_only c \<longleftrightarrow> c \<in> set '',/;''"

lemma segment_only_escape:
  "escape_in_segment c \<longleftrightarrow> escape_in_path c \<or> segment_only c"
  "escape_in_path c \<longleftrightarrow> escape_in_path c \<and> \<not> segment_only c"
  by (auto simp: escape_in_segment_def escape_in_path_def segment_only_def unreserved_def)

lemma path_escape_eq: "url_escape escape_in_path s = path_escape s \<longleftrightarrow> (\<forall>c \<in> set s. \<not> segment_only c)"
proof -
  have fns: "(\<lambda>c. escape_in_path c \<or> segment_only c) = escape_in_segment"
    "(\<lambda>c. escape_in_path c \<and> \<not> segment_only c) = escape_in_path"
    using segment_only_escape by blast+
  have "c \<noteq> CHR ''%''" if "segment_only c" for c
    using that by (auto simp: segment_only_def)
  then show ?thesis
    using url_escape_eq [of segment_only escape_in_path s, unfolded fns] by (auto simp: path_escape_def)
qed

subsection \<open>Clean paths\<close>

fun split_on :: "char \<Rightarrow> string \<Rightarrow> string list" where
  "split_on c [] = [[]]"
| "split_on c (x # s) =
     (if x = c then [] # split_on c s
      else case split_on c s of [] \<Rightarrow> [[x]] | w # ws \<Rightarrow> (x # w) # ws)"

lemma split_on_last: "c \<notin> set a \<Longrightarrow> split_on c a = [a]"
  by (induction a) auto

lemma split_on_append: "c \<notin> set a \<Longrightarrow> split_on c (a @ c # b) = a # split_on c b"
  by (induction a) auto

lemma split_on_nonempty [simp]: "split_on c s \<noteq> []"
  by (cases s) (auto split: list.split)

text \<open>A path that \<open>ServeMux\<close> does not redirect to its cleaned form.\<close>

definition clean_path :: "string \<Rightarrow> bool" where
  "clean_path p \<longleftrightarrow>
     (case p of
        [] \<Rightarrow> False
      | c # r \<Rightarrow> c = CHR ''/'' \<and>
          (let ws = split_on CHR ''/'' r in
           list_all (\<lambda>w. w \<noteq> [] \<and> w \<noteq> ''.'' \<and> w \<noteq> ''..'') (butlast ws) \<and>
           last ws \<noteq> ''.'' \<and> last ws \<noteq> ''..''))"

subsection \<open>ServeMux\<close>

type_synonym pattern = "string list \<times> bool"

datatype 'h mux_answer = MuxTo 'h | MuxMoved | MuxNone

definition pattern_matches :: "string list \<Rightarrow> pattern \<Rightarrow> bool" where
  "pattern_matches segs pat =
     (case pat of (ps, below) \<Rightarrow>
        if below then length ps < length segs \<and> take (length ps) segs = ps else segs = ps)"

text \<open>The most specific pattern of a path is the longest one that matches.\<close>

fun best_match :: "(pattern \<times> 'h) list \<Rightarrow> string list \<Rightarrow> (pattern \<times> 'h) option" where
  "best_match [] segs = None"
| "best_match ((pat, h) # rs) segs =
     (if \<not> pattern_matches segs pat then best_match rs segs
      else case best_match rs segs of
        None \<Rightarrow> Some (pat, h)
      | Some (pat', h') \<Rightarrow> Some (if length (fst pat') \<le> length (fst pat) then (pat, h) else (pat', h')))"

definition exact_match :: "(pattern \<times> 'h) option \<Rightarrow> string list \<Rightarrow> bool" where
  "exact_match m segs =
     (case m of
        None \<Rightarrow> False
      | Some ((ps, below), h) \<Rightarrow> \<not> below \<or> last segs = [] \<and> length ps + 1 = length segs)"

definition mux_segment :: "string \<Rightarrow> string" where
  "mux_segment w = (case path_unescape w of None \<Rightarrow> w | Some v \<Rightarrow> v)"

definition serve_mux :: "(pattern \<times> 'h) list \<Rightarrow> string \<Rightarrow> string \<Rightarrow> 'h mux_answer" where
  "serve_mux rs meth p =
     (if p = [] \<or> meth \<noteq> ''CONNECT'' \<and> \<not> clean_path p then MuxMoved
      else
        let segs = map mux_segment (split_on CHR ''/'' (tl p)); found = best_match rs segs in
        if \<not> exact_match found segs \<and> last segs \<noteq> [] \<and>
           exact_match (best_match rs (segs @ [[]])) (segs @ [[]]) then MuxMoved
        else case found of None \<Rightarrow> MuxNone | Some (pat, h) \<Rightarrow> MuxTo h)"

lemma best_match_some: "best_match rs segs = Some (pat, h) \<Longrightarrow> (pat, h) \<in> set rs \<and> pattern_matches segs pat"
proof (induction rs)
  case (Cons r rs)
  then show ?case by (cases r) (auto split: if_splits option.splits)
qed simp

lemma best_match_longest:
  "(pat, h) \<in> set rs \<Longrightarrow> pattern_matches segs pat \<Longrightarrow>
     \<exists>pat' h'. best_match rs segs = Some (pat', h') \<and> length (fst pat) \<le> length (fst pat')"
proof (induction rs)
  case (Cons r rs)
  then show ?case by (cases r) (auto split: option.splits)
qed simp

lemma serve_mux_handler: "serve_mux rs meth p = MuxTo h \<Longrightarrow> \<exists>pat. (pat, h) \<in> set rs"
  by (auto simp: serve_mux_def Let_def split: if_splits option.splits dest: best_match_some)

end
