(* ===== verification/Http_Server.thy ===== *)
theory Http_Server
  imports Http_Pages Http_Mux
begin

section \<open>The admin pages\<close>

text \<open>
  httpserver/server.go, handlers.go and dashboard.go. A handler maps the request and the database
  to a reply and the new database; the pages call the store directly, not the RPCs. \<open>ens k\<close> is
  the environment of the request's k-th store call, \<open>clock k\<close> the k-th reading of its clock. Pages
  are rendered as in \<open>Http_Pages\<close>.
\<close>

subsection \<open>The task pages\<close>

definition build_list_data :: "env \<Rightarrow> http_request \<Rightarrow> db \<Rightarrow> list_page_data" where
  "build_list_data en rq d =
     (let st = first_value ''status'' (rq_query rq);
          (items, n_all) =
            (case list_tasks en \<lparr>f_status = non_empty st, f_limit = 200, f_offset = 0\<rparr> d of
               Inl e \<Rightarrow> ([], 0)
             | Inr listed \<Rightarrow> listed)
      in \<lparr>lp_title = ''Tasks'', lp_items = items, lp_total = n_all,
          lp_statuses = [Pending, Claimed, InProgress, PROpened, ReviewRequested, Completed, Failed],
          lp_current = st\<rparr>)"

definition tasks_list :: "env \<Rightarrow> http_request \<Rightarrow> db \<Rightarrow> http_reply" where
  "tasks_list en rq d = render_page ''tasks_list'' ''base'' (ListPage (build_list_data en rq d))"

definition tasks_fragment :: "env \<Rightarrow> http_request \<Rightarrow> db \<Rightarrow> http_reply" where
  "tasks_fragment en rq d =
     render_page ''tasks_fragment'' ''tasks_fragment'' (ListPage (build_list_data en rq d))"

definition form_page :: "string \<Rightarrow> task_form \<Rightarrow> form_msg \<Rightarrow> form_page_data" where
  "form_page title f msg = \<lparr>fp_title = title, fp_form = f, fp_task = None, fp_error = msg\<rparr>"

definition tasks_new_form :: "http_request \<Rightarrow> http_reply" where
  "tasks_new_form rq =
     (if rq_method rq \<noteq> ''GET'' then method_not_allowed
      else render_page ''tasks_new'' ''base'' (FormPage (form_page ''New task''
        (empty_form\<lparr>tf_max_attempts := 3, tf_payload := ''{}''\<rparr>) NoMsg)))"

definition tasks_create :: "web \<Rightarrow> (nat \<Rightarrow> env) \<Rightarrow> http_request \<Rightarrow> web_handler" where
  "tasks_create env ens rq d =
     (case parse_task_form env rq of
        FormPanic \<Rightarrow> (Aborted, d)
      | FormError f e \<Rightarrow> (render_form_error ''tasks_new'' (form_page ''New task'' f (Msg e)) 400, d)
      | FormOk f input \<Rightarrow>
          (case create_task (ens 0) input d of
             (Inl e, d') \<Rightarrow>
               (render_form_error ''tasks_new'' (form_page ''New task'' f (StoreMsg e))
                  (case e of ErrInvalidInput _ \<Rightarrow> 400 | _ \<Rightarrow> 500), d')
           | (Inr _, d') \<Rightarrow> (see_other ''/tasks'', d')))"

definition tasks_detail :: "(nat \<Rightarrow> env) \<Rightarrow> uuid \<Rightarrow> db \<Rightarrow> http_reply" where
  "tasks_detail ens i d =
     (case get_task (ens 0) 0 i d of
        Inl e \<Rightarrow> if e = ErrNotFound then not_found else Reply 500 (StoreError e)
      | Inr t \<Rightarrow>
          render_page ''tasks_detail'' ''base'' (DetailPage
            \<lparr>dp_title = t_name t, dp_task = t, dp_instructions = instructions_from (RawDoc (t_payload t)),
             dp_logs = (case list_task_logs (ens 1) 0 i 500 d of Inl _ \<Rightarrow> [] | Inr ls \<Rightarrow> ls),
             dp_error = []\<rparr>))"

definition tasks_edit_form :: "web \<Rightarrow> (nat \<Rightarrow> env) \<Rightarrow> uuid \<Rightarrow> db \<Rightarrow> http_reply" where
  "tasks_edit_form env ens i d =
     (case get_task (ens 0) 0 i d of
        Inl e \<Rightarrow> if e = ErrNotFound then not_found else Reply 500 (StoreError e)
      | Inr t \<Rightarrow>
          render_page ''tasks_edit'' ''base'' (FormPage
            \<lparr>fp_title = ''Edit '' @ t_name t, fp_form = form_from_task env t, fp_task = Some t,
             fp_error = NoMsg\<rparr>))"

definition not_editable_msg :: string where
  "not_editable_msg = ''task is not pending '' @ [CHR 0xE2, CHR 0x80, CHR 0x94] @ '' cannot edit''"

definition tasks_update_page :: "web \<Rightarrow> (nat \<Rightarrow> env) \<Rightarrow> http_request \<Rightarrow> uuid \<Rightarrow> web_handler" where
  "tasks_update_page env ens rq i d =
     (case parse_task_form env rq of
        FormPanic \<Rightarrow> (Aborted, d)
      | FormError f e \<Rightarrow> (Reply 400 (Plain e), d)
      | FormOk f input \<Rightarrow>
          (case update_task (ens 0) i (edit_input input) d of
             (Inl ErrNotFound, d') \<Rightarrow> (not_found, d')
           | (Inl ErrNotEditable, d') \<Rightarrow>
               (render_form_error ''tasks_edit'' (form_page ''Edit'' f (Msg not_editable_msg)) 409, d')
           | (Inl e, d') \<Rightarrow> (Reply 500 (StoreError e), d')
           | (Inr _, d') \<Rightarrow> (see_other (task_path env i), d')))"

definition render_detail_error :: "(nat \<Rightarrow> env) \<Rightarrow> uuid \<Rightarrow> string \<Rightarrow> int \<Rightarrow> db \<Rightarrow> http_reply" where
  "render_detail_error ens i msg status d =
     (case get_task (ens 0) 0 i d of
        Inl e \<Rightarrow> if e = ErrNotFound then not_found else Reply 500 (StoreError e)
      | Inr t \<Rightarrow>
          render_with_status ''tasks_detail'' (DetailPage
            \<lparr>dp_title = t_name t, dp_task = t, dp_instructions = [],
             dp_logs = (case list_task_logs (ens 1) 0 i 500 d of Inl _ \<Rightarrow> [] | Inr ls \<Rightarrow> ls),
             dp_error = msg\<rparr>) status)"

definition tasks_update_links :: "web \<Rightarrow> (nat \<Rightarrow> env) \<Rightarrow> http_request \<Rightarrow> uuid \<Rightarrow> web_handler" where
  "tasks_update_links env ens rq i d =
     (case rq_form_error rq of Some e \<Rightarrow> (Reply 400 (Plain e), d) | None \<Rightarrow>
      let jira = trim_space (form_value ''jira_url'' rq);
          pr = trim_space (form_value ''github_pr_url'' rq)
      in if jira \<noteq> [] \<and> \<not> validate_jira jira then (render_detail_error ens i bad_jira 400 d, d)
         else if pr \<noteq> [] \<and> \<not> validate_pr pr then (render_detail_error ens i bad_pr 400 d, d)
         else case update_task_links (ens 0) i (non_empty jira) (non_empty pr) d of
           (Inl e, d') \<Rightarrow> (if e = ErrNotFound then not_found else Reply 500 (StoreError e), d')
         | (Inr _, d') \<Rightarrow> (see_other (task_path env i), d'))"

definition tasks_delete :: "(nat \<Rightarrow> env) \<Rightarrow> uuid \<Rightarrow> web_handler" where
  "tasks_delete ens i d =
     (case delete_task (ens 0) i d of
        (Inl ErrNotFound, d') \<Rightarrow> (not_found, d')
      | (Inl ErrNotDeletable, d') \<Rightarrow> (Reply 409 (Plain ''cannot delete active task''), d')
      | (Inl e, d') \<Rightarrow> (Reply 500 (StoreError e), d')
      | (Inr _, d') \<Rightarrow> (see_other ''/tasks'', d'))"

definition tasks_request_review :: "web \<Rightarrow> (nat \<Rightarrow> env) \<Rightarrow> uuid \<Rightarrow> web_handler" where
  "tasks_request_review env ens i d =
     (case request_review (ens 0) i d of
        (Inr _, d') \<Rightarrow> (see_other (task_path env i), d')
      | (Inl ErrNotFound, d') \<Rightarrow> (not_found, d')
      | (Inl ErrInvalidTransition, d') \<Rightarrow> (Reply 409 (Plain ''task is not in pr_opened''), d')
      | (Inl e, d') \<Rightarrow> (Reply 500 (StoreError e), d'))"

definition bad_outcome :: string where
  "bad_outcome = ''outcome must be \"success\" or \"failure\"''"

definition tasks_finalize :: "web \<Rightarrow> (nat \<Rightarrow> env) \<Rightarrow> http_request \<Rightarrow> uuid \<Rightarrow> web_handler" where
  "tasks_finalize env ens rq i d =
     (case rq_form_error rq of Some e \<Rightarrow> (Reply 400 (Plain e), d) | None \<Rightarrow>
      let out = post_form_value ''outcome'' rq in
      if out \<noteq> ''success'' \<and> out \<noteq> ''failure'' then (Reply 400 (Plain bad_outcome), d)
      else
        (case finalize_task (ens 0) i (out = ''success'') (post_form_value ''message'' rq) d of
           (Inr _, d') \<Rightarrow> (see_other (task_path env i), d')
         | (Inl ErrNotFound, d') \<Rightarrow> (not_found, d')
         | (Inl ErrInvalidTransition, d') \<Rightarrow>
             (Reply 409 (Plain ''task is not in pr_opened or review_requested''), d')
         | (Inl e, d') \<Rightarrow> (Reply 500 (StoreError e), d')))"

definition tasks_requeue :: "web \<Rightarrow> (nat \<Rightarrow> env) \<Rightarrow> http_request \<Rightarrow> uuid \<Rightarrow> web_handler" where
  "tasks_requeue env ens rq i d =
     (case requeue_task (ens 0) i d of
        (Inl ErrNotFound, d') \<Rightarrow> (not_found, d')
      | (Inl ErrNotRequeueable, d') \<Rightarrow> (Reply 409 (Plain ''cannot requeue active task''), d')
      | (Inl e, d') \<Rightarrow> (Reply 500 (StoreError e), d')
      | (Inr _, d') \<Rightarrow>
          (if rq_htmx rq then tasks_fragment (ens 1) rq d' else see_other (task_path env i), d'))"

definition tasks_collection :: "web \<Rightarrow> (nat \<Rightarrow> env) \<Rightarrow> http_request \<Rightarrow> web_handler" where
  "tasks_collection env ens rq d =
     (if rq_method rq = ''GET'' then (tasks_list (ens 0) rq d, d)
      else if rq_method rq = ''POST'' then tasks_create env ens rq d
      else (method_not_allowed, d))"

text \<open>/tasks/{id}/{verb}\<close>

definition tasks_member :: "web \<Rightarrow> (nat \<Rightarrow> env) \<Rightarrow> http_request \<Rightarrow> web_handler" where
  "tasks_member env ens rq d =
     (case cut_at CHR ''/'' (drop (length ''/tasks/'') (rq_path rq)) of (id_str, verb) \<Rightarrow>
     (case web_parse env id_str of
        None \<Rightarrow> (not_found, d)
      | Some i \<Rightarrow>
          let get = (rq_method rq = ''GET''); post = (rq_method rq = ''POST'') in
          if verb = [] \<and> get then (tasks_detail ens i d, d)
          else if verb = [] \<and> post then tasks_update_page env ens rq i d
          else if verb = ''edit'' \<and> get then (tasks_edit_form env ens i d, d)
          else if verb = ''delete'' \<and> post then tasks_delete ens i d
          else if verb = ''requeue'' \<and> post then tasks_requeue env ens rq i d
          else if verb = ''links'' \<and> post then tasks_update_links env ens rq i d
          else if verb = ''request-review'' \<and> post then tasks_request_review env ens i d
          else if verb = ''finalize'' \<and> post then tasks_finalize env ens rq i d
          else (not_found, d)))"

subsection \<open>The dashboard\<close>

definition dashboard_logs_per_worker :: int where
  "dashboard_logs_per_worker = 4"

definition idle_window :: int where
  "idle_window = 60000000000"

definition dashboard_worker_stale_after :: int where
  "dashboard_worker_stale_after = 3600000000000"

definition agent_recent_tasks_limit :: int where
  "agent_recent_tasks_limit = 10"

definition agent_log_tail_limit :: int where
  "agent_log_tail_limit = 500"

datatype agent_state = Busy | Idle_Agent | Offline

definition agent_state_name :: "time \<Rightarrow> time option \<Rightarrow> task option \<Rightarrow> agent_state" where
  "agent_state_name now last_seen cur =
     (if cur \<noteq> None then Busy
      else case last_seen of
        None \<Rightarrow> Offline
      | Some l \<Rightarrow> if (now - l) * 1000 \<le> idle_window then Idle_Agent else Offline)"

definition worker_state :: "time \<Rightarrow> dashboard_worker \<Rightarrow> agent_state" where
  "worker_state now w = agent_state_name now (wi_last_seen (dw_info w)) (dw_current w)"

fun count_states :: "time \<Rightarrow> dashboard_worker list \<Rightarrow> nat \<times> nat \<times> nat \<Rightarrow> nat \<times> nat \<times> nat" where
  "count_states now [] cs = cs"
| "count_states now (w # ws) (busy, idle, offline) =
     count_states now ws
       (case worker_state now w of
          Busy \<Rightarrow> (busy + 1, idle, offline)
        | Idle_Agent \<Rightarrow> (busy, idle + 1, offline)
        | Offline \<Rightarrow> (busy, idle, offline + 1))"

text \<open>\<open>clock k\<close> is the k-th reading of the server's clock.\<close>

definition build_dashboard_data :: "(nat \<Rightarrow> time) \<Rightarrow> env \<Rightarrow> db \<Rightarrow> dashboard_data" where
  "build_dashboard_data clock en d =
     (case (case get_dashboard en (clock 0) dashboard_logs_per_worker dashboard_worker_stale_after d of
              Inl e \<Rightarrow> ([], []) | Inr snap \<Rightarrow> (db_queue snap, db_workers snap)) of
        (queue, ws) \<Rightarrow>
          (case count_states (clock 1) ws (0, 0, 0) of
             (busy, idle, offline) \<Rightarrow>
               \<lparr>dd_title = ''Dashboard'', dd_queue = queue, dd_workers = ws,
                dd_busy = busy, dd_idle = idle, dd_offline = offline\<rparr>))"

definition dashboard_page :: "bool \<Rightarrow> (nat \<Rightarrow> time) \<Rightarrow> env \<Rightarrow> http_request \<Rightarrow> db \<Rightarrow> http_reply" where
  "dashboard_page fragment clock en rq d =
     (if rq_method rq \<noteq> ''GET'' then method_not_allowed
      else
        let view = DashboardPage (build_dashboard_data clock en d) in
        if fragment then render_page ''dashboard_fragment'' ''dashboard_fragment'' view
        else render_page ''dashboard'' ''dashboard'' view)"

definition build_agent_detail_data ::
  "(nat \<Rightarrow> time) \<Rightarrow> env \<Rightarrow> string \<Rightarrow> db \<Rightarrow> http_reply + agent_detail_data" where
  "build_agent_detail_data clock en w d =
     (case get_agent_detail en (clock 0) w agent_recent_tasks_limit agent_log_tail_limit d of
        Inl e \<Rightarrow> Inl (if e = ErrAgentNotFound then not_found else Reply 500 (Plain ''render error''))
      | Inr detail \<Rightarrow> Inr \<lparr>ag_title = w, ag_detail = detail\<rparr>)"

definition build_agent_page ::
  "bool \<Rightarrow> (nat \<Rightarrow> time) \<Rightarrow> env \<Rightarrow> string \<Rightarrow> db \<Rightarrow> http_reply" where
  "build_agent_page fragment clock en w d =
     (case build_agent_detail_data clock en w d of
        Inl refused \<Rightarrow> refused
      | Inr view \<Rightarrow>
          if fragment then render_page ''agent_detail_fragment'' ''agent_detail_fragment'' (AgentPage view)
          else render_page ''agent_detail'' ''agent_detail'' (AgentPage view))"

definition agent_detail_router ::
  "(nat \<Rightarrow> time) \<Rightarrow> env \<Rightarrow> http_request \<Rightarrow> db \<Rightarrow> http_reply" where
  "agent_detail_router clock en rq d =
     (if rq_method rq \<noteq> ''GET'' then method_not_allowed
      else
        let raw = (if rq_raw_path rq = [] then rq_path rq else rq_raw_path rq);
            rest = trim_suffix (trim_prefix raw ''/dashboard/agents/'') ''/''
        in if rest = [] then not_found
           else (case cut_at CHR ''/'' rest of (id_esc, verb) \<Rightarrow>
             (case path_unescape id_esc of
                None \<Rightarrow> not_found
              | Some w \<Rightarrow>
                  if w = [] then not_found
                  else if verb = [] then build_agent_page False clock en w d
                  else if verb = ''fragment'' then build_agent_page True clock en w d
                  else not_found)))"

definition priority_class :: "int \<Rightarrow> string" where
  "priority_class p = (if p \<ge> 7 then ''high'' else if p \<ge> 3 then ''med'' else ''low'')"

definition short_id :: "string \<Rightarrow> string" where
  "short_id i = (if length i \<le> 8 then i else take 8 i)"

subsection \<open>Routes\<close>

text \<open>The routing table: what routes, registerTasksRoutes and registerDashboardRoutes register.\<close>

datatype web_route =
    Healthz | Readyz | Metrics | Static | Wireframes | Root
  | TasksCollection | TasksMember | TasksFragment | TasksNew
  | Dashboard bool | Agents

definition tasks_routes :: "(pattern \<times> web_route) list" where
  "tasks_routes =
     [(([''tasks''], False), TasksCollection),
      (([''tasks''], True), TasksMember),
      (([''tasks'', ''fragment''], False), TasksFragment),
      (([''tasks'', ''new''], False), TasksNew)]"

definition dashboard_routes :: "(pattern \<times> web_route) list" where
  "dashboard_routes =
     [(([''dashboard''], False), Dashboard False),
      (([''dashboard'', ''fragment''], False), Dashboard True),
      (([''dashboard'', ''agents''], True), Agents)]"

definition web_routes :: "(pattern \<times> web_route) list" where
  "web_routes =
     [(([''healthz''], False), Healthz),
      (([''readyz''], False), Readyz),
      (([''metrics''], False), Metrics),
      (([''static''], True), Static)] @ tasks_routes @ dashboard_routes @
     [(([''wireframes''], False), Wireframes),
      (([], True), Root)]"

text \<open>\<open>files\<close> is the file server of the embedded static files, \<open>prom\<close> the text of
  the Prometheus handler. The wrapper \<open>protected\<close> is BasicAuth with the configured credentials.\<close>

definition protected :: "web \<Rightarrow> http_request \<Rightarrow> web_handler \<Rightarrow> web_handler" where
  "protected env rq = basic_auth unauthorized (web_user env) (web_password env) (rq_credentials rq)"

definition route_handler ::
  "web \<Rightarrow> (http_request \<Rightarrow> http_reply) \<Rightarrow> string \<Rightarrow> (nat \<Rightarrow> time) \<Rightarrow> (nat \<Rightarrow> env) \<Rightarrow> http_request
     \<Rightarrow> web_route \<Rightarrow> web_handler" where
  "route_handler env files prom clock ens rq r d =
     (let safe = protected env rq in
      case r of
        Healthz \<Rightarrow> (Reply 200 (Plain ''ok''), d)
      | Readyz \<Rightarrow>
          (if fault (ens 0) 0 = None then Reply 200 (Plain ''ready'') else Reply 503 (Plain ''not ready''), d)
      | Metrics \<Rightarrow> (Reply 200 (Plain prom), d)
      | Static \<Rightarrow> safe (\<lambda>d. (files rq, d)) d
      | Wireframes \<Rightarrow> safe (\<lambda>d. (Reply 302 (Location ''/static/wireframes/''), d)) d
      | Root \<Rightarrow> (if rq_path rq = ''/'' then Reply 302 (Location ''/tasks'') else not_found, d)
      | TasksCollection \<Rightarrow> safe (tasks_collection env ens rq) d
      | TasksMember \<Rightarrow> safe (tasks_member env ens rq) d
      | TasksFragment \<Rightarrow> safe (\<lambda>d. (tasks_fragment (ens 0) rq d, d)) d
      | TasksNew \<Rightarrow> safe (\<lambda>d. (tasks_new_form rq, d)) d
      | Dashboard fragment \<Rightarrow> safe (\<lambda>d. (dashboard_page fragment clock (ens 0) rq d, d)) d
      | Agents \<Rightarrow> safe (\<lambda>d. (agent_detail_router clock (ens 0) rq d, d)) d)"

definition http_serve ::
  "web \<Rightarrow> (http_request \<Rightarrow> http_reply) \<Rightarrow> string \<Rightarrow> (nat \<Rightarrow> time) \<Rightarrow> (nat \<Rightarrow> env) \<Rightarrow> http_request \<Rightarrow> web_handler" where
  "http_serve env files prom clock ens rq d =
     (case serve_mux web_routes (rq_method rq) (escaped_path (rq_path rq) (rq_raw_path rq)) of
        MuxMoved \<Rightarrow> (MuxRedirect, d)
      | MuxNone \<Rightarrow> (not_found, d)
      | MuxTo r \<Rightarrow> route_handler env files prom clock ens rq r d)"

subsection \<open>A request is at most one store command\<close>

lemma form_handlers_exec:
  "snd (tasks_create env ens rq d) =
     (case parse_task_form env rq of FormOk f inp \<Rightarrow> exec (ens 0) (CreateTask inp) d | _ \<Rightarrow> d)"
  "snd (tasks_update_page env ens rq i d) =
     (case parse_task_form env rq of
        FormOk f inp \<Rightarrow> exec (ens 0) (UpdateTask i (edit_input inp)) d | _ \<Rightarrow> d)"
  by (simp_all add: tasks_create_def tasks_update_page_def
      split: form_result.split prod.split sum.split store_error.split)

lemma links_exec:
  "snd (tasks_update_links env ens rq i d) = d \<or>
   snd (tasks_update_links env ens rq i d) =
     exec (ens 0) (UpdateTaskLinks i (non_empty (trim_space (form_value ''jira_url'' rq)))
       (non_empty (trim_space (form_value ''github_pr_url'' rq)))) d"
  by (simp add: tasks_update_links_def Let_def split: option.split prod.split sum.split)

lemma member_handlers_exec:
  "snd (tasks_delete ens i d) = exec (ens 0) (DeleteTask i) d"
  "snd (tasks_requeue env ens rq i d) = exec (ens 0) (RequeueTask i) d"
  "snd (tasks_request_review env ens i d) = exec (ens 0) (RequestReview i) d"
  by (simp_all add: tasks_delete_def tasks_requeue_def tasks_request_review_def
      split: prod.split sum.split store_error.split)

lemma finalize_exec:
  "snd (tasks_finalize env ens rq i d) =
     (if rq_form_error rq = None \<and> post_form_value ''outcome'' rq \<in> {''success'', ''failure''}
      then exec (ens 0) (FinalizeTask i (post_form_value ''outcome'' rq = ''success'')
             (post_form_value ''message'' rq)) d
      else d)"
  by (auto simp: tasks_finalize_def Let_def split: option.split prod.split sum.split store_error.split)

lemma member_exec: "at_most_one_cmd (ens 0) d (snd (tasks_member env ens rq d))"
proof -
  have "at_most_one_cmd (ens 0) d (snd (tasks_update_page env ens rq i d))" for i
    unfolding form_handlers_exec by (auto intro: at_most_one_cmdI simp del: exec.simps split: form_result.split)
  moreover have "at_most_one_cmd (ens 0) d (snd (tasks_update_links env ens rq i d))" for i
    using links_exec [of env ens rq i d] by (elim disjE) (simp_all only: at_most_one_cmdI)
  moreover have "at_most_one_cmd (ens 0) d (snd (tasks_finalize env ens rq i d))" for i
    unfolding finalize_exec by (auto intro: at_most_one_cmdI simp del: exec.simps)
  ultimately show ?thesis
    by (simp add: tasks_member_def member_handlers_exec at_most_one_cmdI Let_def del: exec.simps
        split: prod.split option.split)
qed

lemma collection_exec: "at_most_one_cmd (ens 0) d (snd (tasks_collection env ens rq d))"
  by (auto simp: tasks_collection_def form_handlers_exec intro: at_most_one_cmdI simp del: exec.simps
      split: form_result.split)

text \<open>The middleware runs the handler exactly for the configured credentials.\<close>

lemma protected_eq:
  "protected env rq h d =
     (if rq_credentials rq = Some (web_user env, web_password env) then h d else (unauthorized, d))"
  by (auto simp: protected_def basic_auth_def split: option.split)

lemma http_exec: "at_most_one_cmd (ens 0) d (snd (http_serve env files prom clock ens rq d))"
  by (simp add: http_serve_def route_handler_def protected_eq member_exec collection_exec at_most_one_cmdI Let_def
      split: mux_answer.split web_route.split)

text \<open>Only a POST request changes anything.\<close>

lemma get_unchanged:
  "rq_method rq \<noteq> ''POST'' \<Longrightarrow> snd (tasks_member env ens rq d) = d"
  "rq_method rq \<noteq> ''POST'' \<Longrightarrow> snd (tasks_collection env ens rq d) = d"
  by (simp_all add: tasks_member_def tasks_collection_def Let_def split: prod.split option.split)

lemma route_unchanged:
  assumes "rq_credentials rq \<noteq> Some (web_user env, web_password env) \<or> rq_method rq \<noteq> ''POST''"
  shows "snd (route_handler env files prom clock ens rq r d) = d"
  using assms by (cases r) (auto simp: route_handler_def protected_eq get_unchanged Let_def)

lemma route_hidden:
  assumes "rq_credentials rq \<noteq> Some (web_user env, web_password env)"
  shows "fst (route_handler env files prom clock ens rq r d) =
      fst (route_handler env files prom clock ens rq r d')"
    and "fst (route_handler env files prom clock ens rq r d) \<notin> {Reply c (Html n p), Reply c (CutHtml n p)}"
  using assms by (cases r; simp add: route_handler_def protected_eq unauthorized_def not_found_def Let_def)+

text \<open>
  Every page comes out whole, with one exception: the page that should explain that a task is not
  editable any more breaks off at the address of its form, since it is rendered without the task.
\<close>

lemma edit_conflict_cut:
  assumes "parse_task_form env rq = FormOk f input"
    and "fst (update_task (ens 0) i (edit_input input) d) = Inl ErrNotEditable"
  shows "fst (tasks_update_page env ens rq i d) =
    Reply 409 (CutHtml ''base'' (FormPage (form_page ''Edit'' f (Msg not_editable_msg))))"
  using assms by (cases "update_task (ens 0) i (edit_input input) d")
    (simp add: tasks_update_page_def rendered form_page_def)

definition comes_out :: "web \<Rightarrow> http_request \<Rightarrow> http_reply \<Rightarrow> bool" where
  "comes_out env rq r \<longleftrightarrow>
     (case r of
        Aborted \<Rightarrow> parse_task_form env rq = FormPanic
      | Reply c (CutHtml n v) \<Rightarrow> c = 409 \<and> (\<exists>f. v = FormPage (form_page ''Edit'' f (Msg not_editable_msg)))
      | _ \<Rightarrow> True)"

lemma comes_out_simps [simp]:
  "comes_out env rq not_found" "comes_out env rq method_not_allowed" "comes_out env rq unauthorized"
  "comes_out env rq (see_other p)" "comes_out env rq MuxRedirect"
  "comes_out env rq (Reply c (Html n v))" "comes_out env rq (Reply c (Plain t))"
  "comes_out env rq (Reply c (Location t))" "comes_out env rq (Reply c (StoreError e))"
  by (simp_all add: comes_out_def not_found_def method_not_allowed_def unauthorized_def see_other_def)

lemma comes_out_cut [simp]:
  "comes_out env rq (Reply 409 (CutHtml n (FormPage (form_page ''Edit'' f (Msg not_editable_msg)))))"
  by (auto simp: comes_out_def)

lemma handlers_come_out:
  "comes_out env rq (tasks_detail ens i d)"
  "comes_out env rq (tasks_edit_form env ens i d)"
  "comes_out env rq (render_detail_error ens i msg status d)"
  "comes_out env rq (fst (tasks_delete ens i d))"
  "comes_out env rq (fst (tasks_requeue env ens rq i d))"
  "comes_out env rq (fst (tasks_request_review env ens i d))"
  by (simp_all add: tasks_detail_def tasks_edit_form_def render_detail_error_def tasks_delete_def
      tasks_requeue_def tasks_fragment_def tasks_request_review_def rendered
      split: sum.split prod.split store_error.split)

lemma update_comes_out: "comes_out env rq (fst (tasks_update_page env ens rq i d))"
proof (cases "parse_task_form env rq")
  case (FormOk f input)
  moreover have "fp_task (form_page title f msg) = None" for title f msg
    by (simp add: form_page_def)
  ultimately show ?thesis
    by (simp add: tasks_update_page_def rendered split: sum.split prod.split store_error.split)
qed (simp_all add: tasks_update_page_def comes_out_def)

lemma finalize_comes_out: "comes_out env rq (fst (tasks_finalize env ens rq i d))"
  by (simp add: tasks_finalize_def Let_def split: sum.split prod.split store_error.split option.split)

lemma links_come_out: "comes_out env rq (fst (tasks_update_links env ens rq i d))"
  by (simp add: tasks_update_links_def handlers_come_out Let_def split: sum.split prod.split option.split)

lemma member_comes_out: "comes_out env rq (fst (tasks_member env ens rq d))"
  by (simp add: tasks_member_def handlers_come_out update_comes_out finalize_comes_out links_come_out Let_def
      split: prod.split option.split)

lemma pages_come_out:
  assumes "comes_out env rq (files rq)"
  shows "comes_out env rq (fst (http_serve env files prom clock ens rq d))"
proof -
  have c: "comes_out env rq (fst (tasks_collection env ens rq d))"
    by (auto simp: tasks_collection_def tasks_list_def tasks_create_def rendered comes_out_def [of _ _ Aborted]
        split: form_result.split sum.split prod.split)
  have a: "comes_out env rq (build_agent_page f clock en w d)" for f en w
    by (auto simp: build_agent_page_def build_agent_detail_data_def rendered split: sum.split)
  have "comes_out env rq (fst (route_handler env files prom clock ens rq r d))" for r
    using assms c a member_comes_out [of env rq ens d]
    by (cases r) (auto simp: route_handler_def protected_eq tasks_fragment_def tasks_new_form_def
        dashboard_page_def agent_detail_router_def rendered Let_def split: option.split prod.split)
  then show ?thesis
    by (simp add: http_serve_def split: mux_answer.split)
qed

text \<open>C28: The pages need the password: a request without the configured credentials changes nothing,
  is answered without any page, and its answer does not depend on the tables (only /metrics, whose
  text \<open>prom\<close> anybody may read, publishes counts of them). With the credentials, only POST
  requests change anything.\<close>

theorem pages_need_password:
  assumes "rq_credentials rq \<noteq> Some (web_user env, web_password env) \<or> rq_method rq \<noteq> ''POST''"
  shows "snd (http_serve env files prom clock ens rq d) = d \<and>
    (rq_credentials rq \<noteq> Some (web_user env, web_password env) \<longrightarrow>
       fst (http_serve env files prom clock ens rq d) = fst (http_serve env files prom clock ens rq d') \<and>
       (\<forall>c n p. fst (http_serve env files prom clock ens rq d) \<notin> {Reply c (Html n p), Reply c (CutHtml n p)}))"
  using route_unchanged [OF assms] route_hidden
  by (auto simp: http_serve_def not_found_def split: mux_answer.split)

lemma pages_need_password_witness:
  "snd (http_serve sample_web (\<lambda>_. not_found) [] (\<lambda>_. 0) (\<lambda>_. calm 5 0)
     ((post_request ''/tasks'' [])\<lparr>rq_credentials := None\<rparr>) sample_db) = sample_db"
  using pages_need_password [of "(post_request ''/tasks'' [])\<lparr>rq_credentials := None\<rparr>" sample_web]
  by simp

end
