(* ===== verification/Dashboard_Links.thy ===== *)
theory Dashboard_Links
  imports Http_Server
begin

section \<open>The links of the dashboard\<close>

text \<open>
  The cards of dashboard_fragment.html and the refresh of agent_detail.html address an agent as
  \<open>/dashboard/agents/{{ urlEscape id }}\<close>, the latter followed by \<open>/fragment\<close>. \<open>follow\<close> is the
  request a browser sends for such a target, split by net/url.
\<close>

definition agents_prefix :: string where
  "agents_prefix = ''/dashboard/agents/''"

definition fragment_suffix :: "bool \<Rightarrow> string" where
  "fragment_suffix fragment = (if fragment then ''/fragment'' else [])"

definition agent_link :: "string \<Rightarrow> bool \<Rightarrow> string" where
  "agent_link w fragment = agents_prefix @ path_escape w @ fragment_suffix fragment"

definition follow :: "string \<Rightarrow> http_request \<Rightarrow> http_request option" where
  "follow target rq =
     map_option (\<lambda>(p, raw). rq\<lparr>rq_path := p, rq_raw_path := raw\<rparr>) (request_path target)"

lemma escape_percent: "escape_in_segment CHR ''%''" "escape_in_path CHR ''%''"
  by (simp_all add: escape_in_segment_def escape_in_path_def unreserved_def Let_def)

lemma plain_suffix:
  "path_unescape (fragment_suffix f) = Some (fragment_suffix f)"
  "url_escape escape_in_path (fragment_suffix f) = fragment_suffix f"
  "path_unescape agents_prefix = Some agents_prefix"
  "url_escape escape_in_path agents_prefix = agents_prefix"
  by (cases f; simp add: fragment_suffix_def agents_prefix_def escape_in_path_def unreserved_def Let_def)+

lemma unescape_plain_append:
  "CHR ''%'' \<notin> set s \<Longrightarrow> path_unescape (s @ t) = map_option ((@) s) (path_unescape t)"
  by (induction s) (cases "path_unescape t"; auto)+

lemma unescape_path_escape: "path_unescape (path_escape w @ t) = map_option ((@) w) (path_unescape t)"
  by (simp add: path_escape_def unescape_escape escape_percent)

lemma unescape_path_escape_nil: "path_unescape (path_escape w) = Some w"
  using unescape_path_escape [of w "[]"] by simp

text \<open>What net/url makes of a link: \<open>RawPath\<close> is kept only where the id has a character that is
  escaped in a segment but not in a path.\<close>

lemma link_request:
  "request_path (agent_link w f) =
     Some (agents_prefix @ w @ fragment_suffix f,
       if \<exists>c \<in> set w. segment_only c then agent_link w f else [])"
proof -
  have "CHR ''%'' \<notin> set agents_prefix" by (simp add: agents_prefix_def)
  then have target: "path_unescape (agent_link w f) = Some (agents_prefix @ w @ fragment_suffix f)"
    by (simp add: agent_link_def unescape_plain_append unescape_path_escape plain_suffix)
  have "url_escape escape_in_path (agents_prefix @ w @ fragment_suffix f) = agent_link w f
      \<longleftrightarrow> (\<forall>c \<in> set w. \<not> segment_only c)"
    using path_escape_eq [of w] by (simp only: agent_link_def url_escape_append plain_suffix) simp
  then show ?thesis by (simp add: request_path_def target)
qed

lemma path_escape_valid: "valid_encoded (path_escape w)"
proof -
  have "c = CHR ''%'' \<or> \<not> escape_in_path c" if "c \<in> set (path_escape w)" for c
    using url_escape_set [OF that [unfolded path_escape_def]]
    by (simp add: escape_in_path_def escape_in_segment_def) blast
  then show ?thesis unfolding valid_encoded_def list_all_iff by fastforce
qed

lemma path_escape_no_slash: "CHR ''/'' \<notin> set (path_escape w)"
  using url_escape_set [of "CHR ''/''" escape_in_segment w]
  by (auto simp: path_escape_def escape_in_segment_def unreserved_def Let_def)

lemma link_valid: "valid_encoded (agent_link w f)"
proof -
  have "valid_encoded agents_prefix" "valid_encoded (fragment_suffix f)"
    by (cases f; simp add: valid_encoded_def agents_prefix_def fragment_suffix_def escape_in_path_def
        unreserved_def Let_def)+
  with path_escape_valid [of w] show ?thesis by (simp add: agent_link_def valid_encoded_def)
qed

lemma link_escaped:
  assumes "request_path (agent_link w f) = Some (q, raw)"
  shows "escaped_path q raw = agent_link w f"
proof -
  have "q \<noteq> ''*''" using assms by (auto simp: link_request agents_prefix_def)
  then show ?thesis
    using assms link_valid [of w f]
    by (auto simp: request_path_def escaped_path_def split: option.splits if_splits)
qed

text \<open>The multiplexer hands every link to the router of the agent pages.\<close>

lemma link_split:
  "split_on CHR ''/'' (tl (agent_link w f)) =
     [''dashboard'', ''agents'', path_escape w] @ (if f then [''fragment''] else [])"
  using split_on_append [of "CHR ''/''" "path_escape w" "''fragment''"] path_escape_no_slash [of w]
  by (auto simp: agent_link_def agents_prefix_def fragment_suffix_def split_on_last)

lemma link_segments:
  "map mux_segment (split_on CHR ''/'' (tl (agent_link w f))) =
     [''dashboard'', ''agents'', w] @ (if f then [''fragment''] else [])"
  unfolding link_split by (simp add: mux_segment_def unescape_path_escape_nil)

lemma link_clean:
  assumes "w \<notin> {[], ''.'', ''..''}"
  shows "clean_path (agent_link w f)"
proof -
  have "path_escape w \<notin> {[], ''.'', ''..''}"
    using assms unescape_path_escape_nil [of w] by auto
  with link_split [of w f] show ?thesis
    by (auto simp: clean_path_def agent_link_def agents_prefix_def)
qed

lemma link_route:
  assumes "w \<notin> {[], ''.'', ''..''}"
  shows "serve_mux web_routes m (agent_link w f) = MuxTo Agents"
proof -
  have "agent_link w f \<noteq> []" by (simp add: agent_link_def agents_prefix_def)
  then show ?thesis
    using assms link_clean [OF assms, of f]
    by (auto simp: serve_mux_def link_segments Let_def web_routes_def tasks_routes_def dashboard_routes_def
        pattern_matches_def exact_match_def)
qed

lemma router_page:
  assumes "rq_method rq = ''GET''"
    and "(if rq_raw_path rq = [] then rq_path rq else rq_raw_path rq) = agents_prefix @ x @ fragment_suffix f"
    and "x \<noteq> []" and "CHR ''/'' \<notin> set x"
  shows "agent_detail_router clock en rq d =
    (case path_unescape x of
       None \<Rightarrow> not_found
     | Some w \<Rightarrow> if w = [] then not_found else build_agent_page f clock en w d)"
proof -
  have "trim_suffix (x @ fragment_suffix f) ''/'' = x @ fragment_suffix f"
    using assms(3,4)
    by (cases f; cases x rule: rev_cases)
      (auto simp: trim_suffix_def trim_prefix_def fragment_suffix_def)
  moreover have "cut_at CHR ''/'' (x @ fragment_suffix f) = (x, if f then ''fragment'' else [])"
    using assms(4) cut_at_append [of "CHR ''/''" x "''fragment''"] cut_at_none [of "CHR ''/''" x]
    by (auto simp: fragment_suffix_def)
  ultimately show ?thesis
    using assms(1,3) trim_prefix_append [of agents_prefix "x @ fragment_suffix f"]
    unfolding agent_detail_router_def assms(2) Let_def
    by (simp add: agents_prefix_def split: option.split)
qed

text \<open>The ids whose links keep their \<open>RawPath\<close>, or need none.\<close>

definition link_survives :: "string \<Rightarrow> bool" where
  "link_survives w \<longleftrightarrow> CHR ''%'' \<notin> set w \<or> (\<exists>c \<in> set w. segment_only c)"

text \<open>C26: A link of the dashboard leads to the agent it names: a GET with the credentials on the link made
  from a worker id answers with that worker's page, and a refresh with its fragment, whatever bytes
  the id has, slashes included. The exceptions are the ids \<open>.\<close> and \<open>..\<close>, and ids with a percent sign
  but without a comma, slash or semicolon: net/url drops \<open>RawPath\<close> for them, the router unescapes
  the already decoded path again, and the page is another worker's or missing.\<close>

theorem agent_link_round_trip:
  assumes "follow (agent_link w f) rq = Some rq'" and "w \<notin> {[], ''.'', ''..''}"
    and "rq_method rq = ''GET''" and "rq_credentials rq = Some (web_user env, web_password env)"
  shows "http_serve env files prom clock ens rq' d =
      (if link_survives w then build_agent_page f clock (ens 0) w d
       else case path_unescape w of
         None \<Rightarrow> not_found
       | Some v \<Rightarrow> build_agent_page f clock (ens 0) v d, d) \<and>
    (\<not> link_survives w \<longrightarrow> path_unescape w \<noteq> Some w)"
proof -
  define kept where "kept \<longleftrightarrow> (\<exists>c \<in> set w. segment_only c)"
  define x where "x = (if kept then path_escape w else w)"
  have rq': "rq_method rq' = ''GET''" "rq_credentials rq' = rq_credentials rq"
    "rq_path rq' = agents_prefix @ w @ fragment_suffix f"
    "rq_raw_path rq' = (if kept then agent_link w f else [])"
    using assms(1,3) by (auto simp: follow_def link_request kept_def)
  have "serve_mux web_routes (rq_method rq') (escaped_path (rq_path rq') (rq_raw_path rq')) = MuxTo Agents"
    using link_escaped [of w f "rq_path rq'" "rq_raw_path rq'"] link_route [OF assms(2)] rq'(3,4)
    by (simp add: link_request kept_def)
  then have served: "http_serve env files prom clock ens rq' d = (agent_detail_router clock (ens 0) rq' d, d)"
    using rq'(2) assms(4) by (simp add: http_serve_def route_handler_def protected_eq)
  have "x \<noteq> []" "CHR ''/'' \<notin> set x"
    using assms(2) path_escape_no_slash [of w] unescape_path_escape_nil [of w]
    by (auto simp: x_def kept_def segment_only_def)
  moreover have "(if rq_raw_path rq' = [] then rq_path rq' else rq_raw_path rq') = agents_prefix @ x @ fragment_suffix f"
    using rq'(3,4) by (auto simp: x_def agent_link_def agents_prefix_def)
  ultimately have page: "agent_detail_router clock (ens 0) rq' d =
      (case path_unescape x of None \<Rightarrow> not_found
       | Some v \<Rightarrow> if v = [] then not_found else build_agent_page f clock (ens 0) v d)"
    using router_page [OF rq'(1)] by blast
  have "path_unescape x = (if link_survives w then Some w else path_unescape w)"
    by (auto simp: x_def link_survives_def kept_def [symmetric] unescape_path_escape_nil path_unescape_plain)
  moreover have "path_unescape w \<noteq> Some []" using assms(2) by (cases w) (auto split: list.splits option.splits)
  ultimately show ?thesis
    using assms(2) path_unescape_length [of w w]
    by (auto simp: served page link_survives_def split: option.split)
qed

lemma agent_link_round_trip_witness:
  "\<exists>rq'. follow (agent_link ''a/b'' True) ((post_request [] [])\<lparr>rq_method := ''GET''\<rparr>) = Some rq' \<and>
     http_serve sample_web (\<lambda>_. not_found) [] (\<lambda>_. 0) (\<lambda>_. calm 5 0) rq' sample_db =
       (build_agent_page True (\<lambda>_. 0) (calm 5 0) ''a/b'' sample_db, sample_db)"
proof -
  let ?rq = "(post_request [] [])\<lparr>rq_method := ''GET''\<rparr>"
  obtain rq' where rq': "follow (agent_link ''a/b'' True) ?rq = Some rq'"
    by (simp add: follow_def link_request)
  have "link_survives ''a/b''" by (simp add: link_survives_def)
  with agent_link_round_trip [OF rq', of sample_web "\<lambda>_. not_found" "[]" "\<lambda>_. 0" "\<lambda>_. calm 5 0" sample_db] rq'
  show ?thesis by (simp add: post_request_def sample_web_def)
qed

text \<open>The double unescaping: a worker called \<open>100%\<close> has no page, and the link of \<open>a%41\<close> shows \<open>aA\<close>.\<close>

lemma percent_unescaped_twice:
  "\<not> link_survives ''100%''" "path_unescape ''100%'' = None"
  "\<not> link_survives ''a%41''" "path_unescape ''a%41'' = Some ''aA''"
  by code_simp+

end
