(* ===== verification/Go_Float.thy ===== *)
theory Go_Float
  imports Complex_Main
begin

section \<open>Floating point\<close>

text \<open>
  The float64 arithmetic of Go on the values the program computes with: finite, and far inside the
  range of normal numbers, so overflow, subnormal numbers and NaN do not arise. A float is the
  rational number it stands for; an operation is the exact one followed by \<open>float64\<close>, which rounds
  to 53 significant bits, ties to even. \<open>math.Round\<close> rounds ties away from zero, a conversion to
  an integer truncates.
\<close>

subsection \<open>Rounding\<close>

fun bits :: "nat \<Rightarrow> nat" where
  "bits n = (if n = 0 then 0 else Suc (bits (n div 2)))"

declare bits.simps [simp del]

text \<open>The e with \<open>2 ^ e \<le> x < 2 ^ (e + 1)\<close>.\<close>

definition exponent2 :: "rat \<Rightarrow> int" where
  "exponent2 x =
     (case quotient_of x of (n, d) \<Rightarrow>
        let k = int (bits (nat n)) - int (bits (nat d)) in if 2 powi k \<le> x then k else k - 1)"

definition round_even :: "rat \<Rightarrow> int" where
  "round_even x =
     (let f = \<lfloor>x\<rfloor>; r = x - of_int f in
      if r < 1 / 2 then f else if 1 / 2 < r then f + 1 else if even f then f else f + 1)"

definition float64 :: "rat \<Rightarrow> rat" where
  "float64 x =
     (if x = 0 then 0
      else let u = 2 powi (exponent2 \<bar>x\<bar> - 52) in of_int (round_even (x / u)) * u)"

definition trunc :: "rat \<Rightarrow> int" where
  "trunc x = (if 0 \<le> x then \<lfloor>x\<rfloor> else - \<lfloor>- x\<rfloor>)"

definition round_away :: "rat \<Rightarrow> int" where
  "round_away x = (if 0 \<le> x then \<lfloor>x + 1 / 2\<rfloor> else - \<lfloor>- x + 1 / 2\<rfloor>)"

subsection \<open>The exponent\<close>

lemma bits_bounds: "0 < n \<Longrightarrow> 2 ^ (bits n - 1) \<le> n \<and> n < 2 ^ bits n \<and> 0 < bits n"
proof (induction n rule: bits.induct)
  case (1 n)
  then have b: "bits n = Suc (bits (n div 2))" by (simp add: bits.simps [of n])
  show ?case
  proof (cases "n = 1")
    case True
    then show ?thesis by (simp add: bits.simps)
  next
    case False
    with 1 have "2 ^ (bits (n div 2) - 1) \<le> n div 2" "n div 2 < 2 ^ bits (n div 2)" "0 < bits (n div 2)"
      by auto
    moreover from this(3) have "(2 :: nat) ^ bits (n div 2) = 2 * 2 ^ (bits (n div 2) - 1)"
      by (cases "bits (n div 2)") simp_all
    ultimately show ?thesis by (simp add: b) linarith
  qed
qed

lemma bits_rat:
  assumes "0 < m"
  shows "(2 :: rat) powi (int (bits (nat m)) - 1) \<le> of_int m" "of_int m < (2 :: rat) powi (int (bits (nat m)))"
proof -
  have b: "2 ^ (bits (nat m) - 1) \<le> nat m" "nat m < 2 ^ bits (nat m)" "0 < bits (nat m)"
    using bits_bounds [of "nat m"] assms by auto
  have "int (bits (nat m)) - 1 = int (bits (nat m) - 1)" using b(3) by simp
  then have "(2 :: rat) powi (int (bits (nat m)) - 1) = of_nat (2 ^ (bits (nat m) - 1))"
    by (simp only: power_int_of_nat) simp
  also have "\<dots> \<le> of_nat (nat m)" using b(1) by (simp only: of_nat_le_iff)
  finally show "(2 :: rat) powi (int (bits (nat m)) - 1) \<le> of_int m" using assms by simp
  have "(of_nat (nat m) :: rat) < of_nat (2 ^ bits (nat m))" using b(2) by (simp only: of_nat_less_iff)
  then show "of_int m < (2 :: rat) powi (int (bits (nat m)))" using assms by simp
qed

lemma exponent2_bounds:
  assumes "0 < x"
  shows "2 powi exponent2 x \<le> x" "x < 2 powi (exponent2 x + 1)"
proof -
  obtain n d where q: "quotient_of x = (n, d)" by fastforce
  then have x: "x = of_int n / of_int d" and d: "0 < d"
    by (simp_all add: quotient_of_div quotient_of_denom_pos)
  with assms have n: "0 < n" by (simp add: zero_less_divide_iff)
  define a b k where "a = int (bits (nat n))" and "b = int (bits (nat d))" and "k = a - b"
  note N = bits_rat [OF n, folded a_def] and D = bits_rat [OF d, folded b_def]
  have "2 powi (k - 1) * of_int d \<le> (2 :: rat) powi (k - 1) * 2 powi b"
    using D(2) by (simp add: less_imp_le)
  also have "\<dots> = 2 powi (a - 1)" by (simp add: k_def flip: power_int_add)
  finally have low: "2 powi (k - 1) \<le> x" using N(1) d by (simp add: x field_simps)
  have "of_int n < (2 :: rat) powi (k + 1) * 2 powi (b - 1)"
    using N(2) by (simp add: k_def flip: power_int_add)
  also have "\<dots> \<le> 2 powi (k + 1) * of_int d" using D(1) by simp
  finally have high: "x < 2 powi (k + 1)" using d by (simp add: x field_simps)
  have "exponent2 x = (if 2 powi k \<le> x then k else k - 1)"
    by (simp add: exponent2_def q a_def b_def k_def)
  then show "2 powi exponent2 x \<le> x" "x < 2 powi (exponent2 x + 1)"
    using low high by (auto split: if_splits)
qed

lemma powi_less_cancel: "(2 :: rat) powi a < 2 powi b \<Longrightarrow> a < b"
  by (rule ccontr) (use power_int_increasing [of b a "2 :: rat"] in simp)

lemma exponent2_mono:
  assumes "0 < x" and "x \<le> y"
  shows "exponent2 x \<le> exponent2 y"
proof -
  have "2 powi exponent2 x < (2 :: rat) powi (exponent2 y + 1)"
    using exponent2_bounds [OF assms(1)] exponent2_bounds [of y] assms by linarith
  then show ?thesis using powi_less_cancel by fastforce
qed

subsection \<open>Rounding is monotone and close\<close>

lemma round_even_int [simp]: "round_even (of_int k) = k"
  by (simp add: round_even_def)

lemma round_even_floor: "round_even x = \<lfloor>x\<rfloor> \<or> round_even x = \<lfloor>x\<rfloor> + 1"
  by (simp add: round_even_def Let_def)

lemma round_even_near: "\<bar>of_int (round_even x) - x\<bar> \<le> 1 / 2"
proof -
  have "of_int \<lfloor>x\<rfloor> \<le> x" "x < of_int \<lfloor>x\<rfloor> + 1" by linarith+
  then show ?thesis by (simp add: round_even_def Let_def abs_le_iff)
qed

lemma round_even_mono:
  assumes "x \<le> y"
  shows "round_even x \<le> round_even y"
proof (cases "\<lfloor>x\<rfloor> = \<lfloor>y\<rfloor>")
  case True
  then show ?thesis using assms by (simp add: round_even_def Let_def)
next
  case False
  then have "\<lfloor>x\<rfloor> + 1 \<le> \<lfloor>y\<rfloor>" using floor_mono [OF assms] by linarith
  then show ?thesis using round_even_floor [of x] round_even_floor [of y] by linarith
qed

lemma round_even_ge: "of_int k \<le> x \<Longrightarrow> k \<le> round_even x"
  using round_even_mono [of "of_int k" x] by simp

lemma round_even_le: "x \<le> of_int k \<Longrightarrow> round_even x \<le> k"
  using round_even_mono [of x "of_int k"] by simp

lemma float64_0 [simp]: "float64 0 = 0"
  by (simp add: float64_def)

lemma float64_scaled:
  assumes "0 < x"
  shows "float64 x = of_int (round_even (x / 2 powi (exponent2 x - 52))) * 2 powi (exponent2 x - 52)"
    and "(2 ^ 52 :: rat) \<le> x / 2 powi (exponent2 x - 52)" and "x / 2 powi (exponent2 x - 52) < (2 ^ 53 :: rat)"
proof -
  let ?u = "2 powi (exponent2 x - 52) :: rat"
  show "float64 x = of_int (round_even (x / ?u)) * ?u" using assms by (simp add: float64_def Let_def)
  have u: "2 powi exponent2 x = 2 ^ 52 * ?u" "2 powi (exponent2 x + 1) = 2 ^ 53 * ?u"
    by (simp_all add: power_int_diff power_int_add)
  show "(2 ^ 52 :: rat) \<le> x / ?u" "x / ?u < (2 ^ 53 :: rat)"
    using exponent2_bounds [OF assms] unfolding u by (simp_all add: field_simps)
qed

lemma float64_range:
  assumes "0 < x"
  shows "2 powi exponent2 x \<le> float64 x" "float64 x \<le> 2 powi (exponent2 x + 1)"
proof -
  let ?u = "2 powi (exponent2 x - 52) :: rat"
  note s = float64_scaled [OF assms]
  have u: "2 powi exponent2 x = 2 ^ 52 * ?u" "2 powi (exponent2 x + 1) = 2 ^ 53 * ?u"
    by (simp_all add: power_int_diff power_int_add)
  have "2 ^ 52 \<le> round_even (x / ?u)" using s(2) by (intro round_even_ge) simp
  then have "(of_int (2 ^ 52) :: rat) \<le> of_int (round_even (x / ?u))" by (simp only: of_int_le_iff)
  then show "2 powi exponent2 x \<le> float64 x" unfolding u s(1) by simp
  have "round_even (x / ?u) \<le> 2 ^ 53" using s(3) by (intro round_even_le) simp
  then have "of_int (round_even (x / ?u)) \<le> (of_int (2 ^ 53) :: rat)" by (simp only: of_int_le_iff)
  then show "float64 x \<le> 2 powi (exponent2 x + 1)" unfolding u s(1) by simp
qed

lemma float64_nonneg: "0 \<le> x \<Longrightarrow> 0 \<le> float64 x"
proof (cases "x = 0")
  case False
  assume "0 \<le> x"
  with False have "0 < x" by simp
  from float64_range(1) [OF this] show ?thesis by (meson order_trans zero_le_power_int zero_le_numeral)
qed simp

lemma float64_mono:
  assumes "0 \<le> x" and "x \<le> y"
  shows "float64 x \<le> float64 y"
proof (cases "x = 0")
  case True
  then show ?thesis using assms by (simp add: float64_nonneg)
next
  case False
  then have x: "0 < x" and y: "0 < y" using assms by simp_all
  show ?thesis
  proof (cases "exponent2 x = exponent2 y")
    case True
    let ?u = "2 powi (exponent2 y - 52) :: rat"
    have "round_even (x / ?u) \<le> round_even (y / ?u)"
      using assms(2) by (intro round_even_mono) (simp add: divide_right_mono)
    then have "of_int (round_even (x / ?u)) * ?u \<le> of_int (round_even (y / ?u)) * ?u"
      by (intro mult_right_mono) simp_all
    then show ?thesis using float64_scaled(1) [OF x] float64_scaled(1) [OF y] True by simp
  next
    case False
    then have "exponent2 x + 1 \<le> exponent2 y" using exponent2_mono [OF x assms(2)] by linarith
    then have "(2 :: rat) powi (exponent2 x + 1) \<le> 2 powi exponent2 y" by (intro power_int_increasing) simp_all
    with float64_range(2) [OF x] float64_range(1) [OF y] show ?thesis by linarith
  qed
qed

text \<open>A float: an integer below 2^53 times a power of two.\<close>

lemma float64_exact:
  assumes "0 \<le> k" and "k < 2 ^ 53"
  shows "float64 (of_int k * 2 powi j) = of_int k * 2 powi j"
proof (cases "k = 0")
  case False
  let ?x = "of_int k * 2 powi j :: rat"
  have x: "0 < ?x" using False assms(1) by simp
  have "(of_int k :: rat) < of_int (2 ^ 53)" using assms(2) by (simp only: of_int_less_iff)
  then have "?x < 2 ^ 53 * 2 powi j" by simp
  also have "\<dots> = 2 powi (53 + j)" by (simp add: power_int_add)
  finally have "(2 :: rat) powi exponent2 ?x < 2 powi (53 + j)"
    using exponent2_bounds(1) [OF x] by linarith
  then have "exponent2 ?x - 52 \<le> j" using powi_less_cancel by fastforce
  then obtain n where n: "j = exponent2 ?x - 52 + int n" by (metis zle_iff_zadd)
  define u :: rat where "u = 2 powi (exponent2 ?x - 52)"
  have u: "0 < u" by (simp add: u_def)
  have "2 powi j = u * 2 powi int n"
    using n power_int_add [of "2 :: rat" "exponent2 ?x - 52" "int n"] by (simp only: u_def) simp
  then have "?x / u = of_int (k * 2 ^ n)" using u by simp
  then have r: "of_int (round_even (?x / u)) = ?x / u" by (simp only: round_even_int)
  have "float64 ?x = of_int (round_even (?x / u)) * u" using float64_scaled(1) [OF x] by (simp only: u_def)
  with r u show ?thesis by simp
qed simp

lemma float64_int: "0 \<le> k \<Longrightarrow> k < 2 ^ 53 \<Longrightarrow> float64 (of_int k) = of_int k"
  using float64_exact [of k 0] by simp

lemma float64_numeral [simp]: "numeral k < (2 ^ 53 :: int) \<Longrightarrow> float64 (numeral k) = numeral k"
  using float64_int [of "numeral k"] by simp

lemma float64_1 [simp]: "float64 1 = 1"
  using float64_int [of 1] by simp

lemma float64_error:
  assumes "0 \<le> x"
  shows "\<bar>float64 x - x\<bar> \<le> x / 2 ^ 53"
proof (cases "x = 0")
  case False
  then have x: "0 < x" using assms by simp
  let ?u = "2 powi (exponent2 x - 52) :: rat"
  have u: "0 < ?u" by simp
  have "float64 x - x = (of_int (round_even (x / ?u)) - x / ?u) * ?u"
    using float64_scaled(1) [OF x] by (simp add: algebra_simps)
  then have "\<bar>float64 x - x\<bar> = \<bar>of_int (round_even (x / ?u)) - x / ?u\<bar> * ?u"
    using u by (simp add: abs_mult)
  also have "\<dots> \<le> 1 / 2 * ?u" using round_even_near u by (intro mult_right_mono) simp_all
  also have "\<dots> \<le> x / 2 ^ 53" using float64_scaled(2) [OF x] u by (simp add: field_simps)
  finally show ?thesis .
qed simp

subsection \<open>Conversions to integers\<close>

lemma trunc_floor: "0 \<le> x \<Longrightarrow> trunc x = \<lfloor>x\<rfloor>"
  by (simp add: trunc_def)

lemma round_away_bounds: "0 \<le> x \<Longrightarrow> \<bar>of_int (round_away x) - x\<bar> \<le> 1 / 2"
  using of_int_floor_le [of "x + 1 / 2"] floor_correct [of "x + 1 / 2"]
  unfolding round_away_def abs_le_iff by simp linarith

lemma round_away_mono: "0 \<le> x \<Longrightarrow> x \<le> y \<Longrightarrow> round_away x \<le> round_away y"
  by (simp add: round_away_def floor_mono)

lemma round_away_int: "round_away (of_int k) = k"
  by (simp add: round_away_def floor_unique)

end
