(* ===== verification/Go_Duration.thy ===== *)
theory Go_Duration
  imports Go_Text Go_Float
begin

section \<open>Durations\<close>

text \<open>
  \<open>time.Duration\<close> is a number of nanoseconds in 64 bits. \<open>parse_duration\<close> is
  \<open>time.ParseDuration\<close>, which reads the duration flags and environment variables, with the
  floating point product it uses for fractions and its overflow checks; \<open>duration_in\<close> is
  \<open>Seconds\<close>, \<open>Minutes\<close> and \<open>Hours\<close>.
\<close>

subsection \<open>Reading a duration\<close>

fun leading_int :: "string \<Rightarrow> nat \<Rightarrow> (nat \<times> string) option" where
  "leading_int [] x = Some (x, [])"
| "leading_int (c # s) x =
     (case digit_val c of
        None \<Rightarrow> Some (x, c # s)
      | Some d \<Rightarrow>
          if 2 ^ 63 div 10 < x then None
          else if 2 ^ 63 < x * 10 + d then None
          else leading_int s (x * 10 + d))"

text \<open>Digits after an overflow are skipped.\<close>

fun leading_fraction :: "string \<Rightarrow> nat \<Rightarrow> rat \<Rightarrow> bool \<Rightarrow> nat \<times> rat \<times> string" where
  "leading_fraction [] x scale over = (x, scale, [])"
| "leading_fraction (c # s) x scale over =
     (case digit_val c of
        None \<Rightarrow> (x, scale, c # s)
      | Some d \<Rightarrow>
          if over \<or> (2 ^ 63 - 1) div 10 < x \<or> 2 ^ 63 < x * 10 + d then leading_fraction s x scale True
          else leading_fraction s (x * 10 + d) (float64 (scale * 10)) False)"

definition unit_map :: "(string \<times> nat) list" where
  "unit_map =
     [(''ns'', 1), (''us'', 1000), ([CHR 0xC2, CHR 0xB5, CHR ''s''], 1000),
      ([CHR 0xCE, CHR 0xBC, CHR ''s''], 1000), (''ms'', 1000000), (''s'', 1000000000),
      (''m'', 60000000000), (''h'', 3600000000000)]"

definition fraction_part :: "string \<Rightarrow> nat \<times> rat \<times> string \<times> bool" where
  "fraction_part s =
     (case s of
        [] \<Rightarrow> (0, 1, s, False)
      | c # r \<Rightarrow>
          if c = CHR ''.'' then (case leading_fraction r 0 1 False of (f, scale, r') \<Rightarrow> (f, scale, r', r' \<noteq> r))
          else (0, 1, s, False))"

definition unit_char :: "char \<Rightarrow> bool" where
  "unit_char c \<longleftrightarrow> c \<noteq> CHR ''.'' \<and> digit_val c = None"

definition scaled_fraction :: "nat \<Rightarrow> nat \<Rightarrow> rat \<Rightarrow> nat" where
  "scaled_fraction f unit scale =
     nat (trunc (float64 (float64 (of_nat f) * float64 (float64 (of_nat unit) / scale))))"

text \<open>One number with its unit: its value in nanoseconds and the rest of the text.\<close>

definition duration_part :: "string \<Rightarrow> (nat \<times> string) option" where
  "duration_part s =
     (if s = [] \<or> unit_char (hd s) then None
      else case leading_int s 0 of
        None \<Rightarrow> None
      | Some (v, s1) \<Rightarrow>
      (case fraction_part s1 of (f, scale, s2, post) \<Rightarrow>
        if s1 = s \<and> \<not> post then None
        else
          (case map_of unit_map (takeWhile unit_char s2) of
             None \<Rightarrow> None
           | Some unit \<Rightarrow>
               if 2 ^ 63 div unit < v then None
               else
                 let v' = v * unit + (if 0 < f then scaled_fraction f unit scale else 0) in
                 if 0 < f \<and> 2 ^ 63 < v' then None else Some (v', dropWhile unit_char s2))))"

lemma leading_int_suffix: "leading_int s x = Some (v, r) \<Longrightarrow> length r \<le> length s"
  by (induction s x rule: leading_int.induct) (auto split: option.splits if_splits)

lemma leading_fraction_suffix: "leading_fraction s x scale over = (f, sc, r) \<Longrightarrow> length r \<le> length s"
proof (induction s arbitrary: x scale over)
  case (Cons c s)
  then show ?case by (auto split: option.splits if_splits) (meson le_SucI)+
qed simp

lemma fraction_part_suffix: "fraction_part s = (f, sc, r, post) \<Longrightarrow> length r \<le> length s"
  using leading_fraction_suffix
  by (auto simp: fraction_part_def split: list.splits if_splits prod.splits) (meson le_SucI)

lemma unit_nonempty: "map_of unit_map u = Some k \<Longrightarrow> u \<noteq> [] \<and> 0 < k"
  by (auto simp: unit_map_def split: if_splits)

lemma duration_part_shorter: "duration_part s = Some (v, r) \<Longrightarrow> length r < length s"
proof -
  assume "duration_part s = Some (v, r)"
  then obtain v0 s1 f sc s2 post u where p: "leading_int s 0 = Some (v0, s1)" "fraction_part s1 = (f, sc, s2, post)"
    "map_of unit_map (takeWhile unit_char s2) = Some u" "r = dropWhile unit_char s2"
    by (auto simp: duration_part_def Let_def split: option.splits if_splits prod.splits)
  have "length (takeWhile unit_char s2) + length r = length s2"
    using p(4) by (metis length_append takeWhile_dropWhile_id)
  moreover have "0 < length (takeWhile unit_char s2)" using unit_nonempty [OF p(3)] by simp
  ultimately show ?thesis
    using leading_int_suffix [OF p(1)] fraction_part_suffix [OF p(2)] by linarith
qed

text \<open>The sum is computed in 64 bits.\<close>

function duration_sum :: "string \<Rightarrow> nat \<Rightarrow> nat option" where
  "duration_sum s d =
     (if s = [] then Some d
      else case duration_part s of
        None \<Rightarrow> None
      | Some (v, r) \<Rightarrow>
          let d' = (d + v) mod 2 ^ 64 in if 2 ^ 63 < d' then None else duration_sum r d')"
  by pat_completeness auto

termination
  by (relation "measure (\<lambda>(s, d). length s)") (auto dest: duration_part_shorter)

declare duration_sum.simps [simp del]

definition parse_duration :: "string \<Rightarrow> int option" where
  "parse_duration s =
     (case split_sign s of (neg, body) \<Rightarrow>
        if body = ''0'' then Some 0
        else if body = [] then None
        else case duration_sum body 0 of
          None \<Rightarrow> None
        | Some d \<Rightarrow> if neg then Some (- int d) else if 2 ^ 63 - 1 < d then None else Some (int d))"

text \<open>A duration is in the range of its type.\<close>

lemma duration_sum_bound: "duration_sum s d = Some n \<Longrightarrow> d \<le> 2 ^ 63 \<Longrightarrow> n \<le> 2 ^ 63"
proof (induction s d rule: duration_sum.induct)
  case (1 s d)
  from 1(2) show ?case
    using 1(1,3) by (auto simp: duration_sum.simps [of s] Let_def not_less split: if_splits option.splits prod.splits)
qed

lemma parse_duration_range: "parse_duration s = Some d \<Longrightarrow> go_int d"
proof -
  assume d: "parse_duration s = Some d"
  have "n \<le> 2 ^ 63" if "duration_sum b 0 = Some n" for b n
    using duration_sum_bound [OF that] by simp
  then have "int n \<le> 2 ^ 63" if "duration_sum b 0 = Some n" for b n
    using that by (metis of_nat_le_iff of_nat_numeral of_nat_power)
  with d show ?thesis
    by (fastforce simp: parse_duration_def go_int_def split: prod.splits if_splits option.splits)
qed

text \<open>A decimal number of a unit is read as the product.\<close>

lemma digits_val_ge: "digits_val ds y = Some m \<Longrightarrow> y \<le> m"
  by (induction ds arbitrary: y) (fastforce split: option.splits)+

lemma leading_int_digits:
  "digits_val ds x = Some n \<Longrightarrow> n \<le> 2 ^ 63 \<Longrightarrow> (r = [] \<or> digit_val (hd r) = None) \<Longrightarrow>
     leading_int (ds @ r) x = Some (n, r)"
proof (induction ds arbitrary: x)
  case Nil
  then show ?case by (cases r) auto
next
  case (Cons c ds)
  from Cons.prems(1) obtain d where d: "digit_val c = Some d" "digits_val ds (x * 10 + d) = Some n"
    by (auto split: option.splits)
  from digits_val_ge [OF d(2)] have "x * 10 + d \<le> 2 ^ 63" using Cons.prems(2) by simp
  then have "\<not> 2 ^ 63 div 10 < x" by simp
  then show ?case using Cons d \<open>x * 10 + d \<le> 2 ^ 63\<close> by simp
qed

lemma parse_duration_unit:
  assumes "map_of unit_map u = Some k" and "n * k < 2 ^ 63"
  shows "parse_duration (itoa (int n) @ u) = Some (int (n * k))"
proof -
  have unit: "u \<noteq> []" "0 < k" using unit_nonempty [OF assms(1)] by simp_all
  have chars: "\<forall>c \<in> set u. unit_char c"
    using assms(1) by (auto simp: unit_map_def unit_char_def digit_val_def Let_def split: if_splits)
  obtain d ds where head: "nat_digits n = digit d # ds" "d < 10" using nat_digits_head by blast
  then have sign: "split_sign (itoa (int n) @ u) = (False, nat_digits n @ u)"
    using digit_not_sign by (simp add: itoa_def split_sign_def)
  have digits: "\<not> unit_char (digit d)" using head(2) by (simp add: unit_char_def)
  have "n \<le> n * k" using unit(2) by simp
  then have n: "n \<le> 2 ^ 63" using assms(2) by linarith
  have "digits_val (nat_digits n) 0 = Some n"
    using digits_val_nat_digits [of n] by (metis add_0 mult_0)
  then have int: "leading_int (nat_digits n @ u) 0 = Some (n, u)"
    using leading_int_digits [of "nat_digits n" 0 n u] n chars unit(1) by (cases u) (auto simp: unit_char_def)
  have frac: "fraction_part u = (0, 1, u, False)"
    using chars unit(1) by (cases u) (auto simp: fraction_part_def unit_char_def)
  have whole: "takeWhile unit_char u = u" "dropWhile unit_char u = []"
    using chars by (simp_all add: takeWhile_eq_all_conv dropWhile_eq_Nil_conv)
  have "n \<le> 2 ^ 63 div k" using assms(2) unit(2) by (simp add: less_eq_div_iff_mult_less_eq)
  then have "duration_part (nat_digits n @ u) = Some (n * k, [])"
    using int frac head digits assms(1) by (simp add: duration_part_def whole Let_def)
  then have "duration_sum (nat_digits n @ u) 0 = Some (n * k)"
    using assms(2) head
    by (simp add: duration_sum.simps [of "digit d # ds @ u"] duration_sum.simps [of "[]"] Let_def)
  then show ?thesis
    using sign head unit(1) assms(2) by (cases u) (simp_all add: parse_duration_def)
qed

lemma parse_duration_examples:
  "parse_duration ''1h30m'' = Some 5400000000000"
  "parse_duration ''0'' = Some 0"
  "parse_duration ''5'' = None" "parse_duration [] = None" "parse_duration ''.s'' = None"
  by (simp_all add: parse_duration_def split_sign_def duration_sum.simps duration_part_def unit_char_def
      digit_val_def fraction_part_def unit_map_def Let_def)

lemma parse_fraction_example: "parse_duration ''-1.5s'' = Some (-1500000000)"
  by (simp add: parse_duration_def split_sign_def duration_sum.simps duration_part_def unit_char_def
      digit_val_def fraction_part_def unit_map_def scaled_fraction_def trunc_floor Let_def)

end
