(* ===== verification/Dash_Format.thy ===== *)
theory Dash_Format
  imports Http_Server Go_Duration
begin

section \<open>The helpers of the dashboard templates\<close>

text \<open>
  The template functions of httpserver/dashboard.go beside \<open>priority_class\<close>, \<open>short_id\<close> and
  \<open>agent_state_name\<close>: the age of a time stamp, the progress of the attempts (both through
  floating point), the initials of a worker id (through UTF-8). \<open>now\<close> is the clock in nanoseconds;
  columns have microseconds. Go's Unicode tables beyond ASCII are the parameter \<open>unicode\<close>. The
  local time of logTime is not modelled.
\<close>

subsection \<open>Ages\<close>

definition duration_in :: "int \<Rightarrow> int \<Rightarrow> rat" where
  "duration_in unit d =
     (let whole = quot d unit; rest = d - unit * whole
      in float64 (float64 (of_int whole) + float64 (float64 (of_int rest) / of_int unit)))"

definition second_ns :: int where "second_ns = 1000000000"
definition minute_ns :: int where "minute_ns = 60 * second_ns"
definition hour_ns :: int where "hour_ns = 60 * minute_ns"

text \<open>\<open>time.Since\<close> saturates.\<close>

definition since :: "int \<Rightarrow> time \<Rightarrow> int" where
  "since now t = max (- (2 ^ 63)) (min (2 ^ 63 - 1) (now - t * 1000))"

definition zero_time :: time where
  "zero_time = -62135596800000000"

definition deref_time :: "time option \<Rightarrow> time" where
  "deref_time t = (case t of None \<Rightarrow> zero_time | Some x \<Rightarrow> x)"

definition rel_time :: "int \<Rightarrow> time \<Rightarrow> string" where
  "rel_time now t =
     (if t = zero_time then [CHR 0xE2, CHR 0x80, CHR 0x94]
      else
        let d = since now t in
        if d < 0 then ''soon''
        else if d < minute_ns then itoa (trunc (duration_in second_ns d)) @ ''s ago''
        else if d < hour_ns then itoa (trunc (duration_in minute_ns d)) @ ''m ago''
        else if d < 24 * hour_ns then itoa (trunc (duration_in hour_ns d)) @ ''h ago''
        else itoa (trunc (float64 (duration_in hour_ns d / 24))) @ ''d ago'')"

lemma duration_in_nonneg:
  "0 \<le> d \<Longrightarrow> 0 < unit \<Longrightarrow> duration_in unit d =
     float64 (float64 (of_int (d div unit)) + float64 (float64 (of_int (d mod unit)) / of_int unit))"
  by (simp only: duration_in_def quot_nonneg minus_mult_div_eq_mod Let_def)

text \<open>The rounding keeps the whole part, or takes the next one.\<close>

lemma duration_in_bounds:
  assumes "0 \<le> d" and "0 < unit" and "unit < 2 ^ 53" and "d div unit < 2 ^ 52"
  shows "of_int (d div unit) \<le> duration_in unit d" "duration_in unit d \<le> of_int (d div unit + 1)"
proof -
  let ?w = "d div unit" and ?r = "d mod unit"
  have r: "0 \<le> ?r" "?r < unit" and w: "0 \<le> ?w"
    using assms(1,2) by (simp_all add: pos_imp_zdiv_nonneg_iff)
  then have ints: "float64 (of_int ?w) = of_int ?w" "float64 (of_int ?r) = of_int ?r"
    "float64 (of_int (?w + 1)) = of_int (?w + 1)"
    using assms(3,4) by - (rule float64_int; simp)+
  have q: "0 \<le> (of_int ?r / of_int unit :: rat)" "(of_int ?r / of_int unit :: rat) \<le> 1"
    using r assms(2) by (simp_all add: divide_le_eq less_imp_le)
  have f: "0 \<le> float64 (of_int ?r / of_int unit)" "float64 (of_int ?r / of_int unit) \<le> 1"
    using float64_nonneg [OF q(1)] float64_mono [OF q] by simp_all
  have d: "duration_in unit d = float64 (of_int ?w + float64 (of_int ?r / of_int unit))"
    using assms(1,2) ints by (simp add: duration_in_nonneg)
  show "of_int ?w \<le> duration_in unit d"
    unfolding d using float64_mono [of "of_int ?w"] f w ints(1) by fastforce
  have "float64 (of_int ?w + float64 (of_int ?r / of_int unit)) \<le> float64 (of_int (?w + 1))"
    using f w by (intro float64_mono) simp_all
  then show "duration_in unit d \<le> of_int (?w + 1)" unfolding d using ints(3) by simp
qed

text \<open>Below 64 units the rounding does not reach the next whole number.\<close>

lemma duration_in_whole:
  assumes "0 \<le> d" and "0 < unit" and "unit \<le> hour_ns" and "d div unit < 64"
  shows "trunc (duration_in unit d) = d div unit"
proof -
  let ?w = "d div unit" and ?r = "d mod unit"
  have r: "0 \<le> ?r" "?r < unit" and w: "0 \<le> ?w"
    using assms(1,2) by (simp_all add: pos_imp_zdiv_nonneg_iff)
  have u: "unit < 2 ^ 53" using assms(3) by (simp add: hour_ns_def minute_ns_def second_ns_def)
  define top :: rat where "top = of_int (2 ^ 46 - 1) * 2 powi (- 46)"
  have top: "float64 top = top" "top < 1"
    unfolding top_def by (rule float64_exact) (simp_all add: power_int_minus)
  have "of_int (?r + 1) \<le> (of_int unit :: rat)" using r(2) by (simp only: of_int_le_iff)
  then have "(of_int ?r / of_int unit :: rat) \<le> 1 - 1 / of_int unit"
    using assms(2) by (simp add: field_simps)
  also have "\<dots> \<le> top"
    using assms(2,3) by (simp add: top_def power_int_minus hour_ns_def minute_ns_def second_ns_def field_simps)
  finally have q: "(of_int ?r / of_int unit :: rat) \<le> top" .
  have q0: "0 \<le> (of_int ?r / of_int unit :: rat)" using r(1) assms(2) by simp
  have f: "float64 (of_int ?r / of_int unit) \<le> top" using float64_mono [OF q0 q] top(1) by simp
  have ints: "float64 (of_int ?w) = of_int ?w" "float64 (of_int ?r) = of_int ?r"
    using w r u assms(4) by - (rule float64_int; simp)+
  define next_below :: rat where "next_below = of_int (?w * 2 ^ 46 + (2 ^ 46 - 1)) * 2 powi (- 46)"
  have nb: "next_below = of_int ?w + top" by (simp add: next_below_def top_def power_int_minus field_simps)
  have "float64 next_below = next_below"
    unfolding next_below_def using w assms(4) by (intro float64_exact) simp_all
  then have "duration_in unit d \<le> of_int ?w + top"
    using float64_mono [of "of_int ?w + float64 (of_int ?r / of_int unit)" next_below] f w float64_nonneg [OF q0]
    by (simp add: duration_in_nonneg [OF assms(1,2)] ints nb)
  then have "duration_in unit d < of_int ?w + 1" using top(2) by linarith
  moreover have "of_int ?w \<le> duration_in unit d"
    using duration_in_bounds(1) [OF assms(1,2) u] assms(4) by simp
  ultimately have "\<lfloor>duration_in unit d\<rfloor> = ?w" by (intro floor_unique) simp_all
  moreover have "0 \<le> duration_in unit d" using \<open>of_int ?w \<le> _\<close> w by (meson of_int_0_le_iff order_trans)
  ultimately show ?thesis by (simp add: trunc_floor)
qed

lemma div_less_int: "0 < (u :: int) \<Longrightarrow> d < k * u \<Longrightarrow> d div u < k"
proof (rule ccontr)
  assume "0 < u" "d < k * u" "\<not> d div u < k"
  then have "k * u \<le> d div u * u" by simp
  also have "\<dots> \<le> d" using \<open>0 < u\<close> by (metis div_mult_mod_eq le_add_same_cancel1 pos_mod_sign)
  finally show False using \<open>d < k * u\<close> by simp
qed

text \<open>The largest number of seconds, minutes, hours or days that fits, as an exact division.\<close>

definition age_text :: "int \<Rightarrow> string" where
  "age_text d =
     (if d < minute_ns then itoa (d div second_ns) @ ''s ago''
      else if d < hour_ns then itoa (d div minute_ns) @ ''m ago''
      else if d < 24 * hour_ns then itoa (d div hour_ns) @ ''h ago''
      else itoa (d div (24 * hour_ns)) @ ''d ago'')"

lemmas unit_defs = second_ns_def minute_ns_def hour_ns_def

lemma rel_time_below_a_day:
  assumes "t \<noteq> zero_time" and "0 \<le> since now t" and "since now t < 24 * hour_ns"
  shows "rel_time now t = age_text (since now t)"
proof -
  have "trunc (duration_in u d) = d div u"
    if "0 \<le> d" "d < 64 * u" "0 < u" "u \<le> hour_ns" for u d
    using that by (intro duration_in_whole) (simp_all add: div_less_int mult.commute)
  then show ?thesis
    using assms by (simp add: rel_time_def age_text_def Let_def unit_defs)
qed

lemma div_24: "24 * (h div 24) \<le> (h :: int)" "h + 1 \<le> 24 * (h div 24 + 1)"
  by presburger+

lemma days_bounds:
  assumes "0 \<le> d" and "d < 2 ^ 63"
  defines "n \<equiv> trunc (float64 (duration_in hour_ns d / 24))"
  shows "n = d div (24 * hour_ns) \<or> n = d div (24 * hour_ns) + 1"
proof -
  let ?x = "duration_in hour_ns d" and ?h = "d div hour_ns" and ?n = "d div (24 * hour_ns)"
  have h: "0 \<le> ?h" "?h < 2 ^ 52" using assms(1,2) by (simp_all add: unit_defs div_less_int pos_imp_zdiv_nonneg_iff)
  note x = duration_in_bounds [OF assms(1) _ _ h(2)]
  have x: "of_int ?h \<le> ?x" "?x \<le> of_int (?h + 1)" by (rule x; simp add: unit_defs)+
  have n: "?n = ?h div 24" by (simp add: zdiv_zmult2_eq mult.commute [of 24])
  have n0: "0 \<le> ?n" "?n < 2 ^ 52"
    unfolding n using h by simp_all
  have "24 * ?n \<le> ?h" "?h + 1 \<le> 24 * (?n + 1)"
    unfolding n by (rule div_24)+
  then have "of_int (24 * ?n) \<le> ?x" "?x \<le> of_int (24 * (?n + 1))"
    using x by (meson of_int_le_iff order_trans)+
  then have q: "of_int ?n \<le> ?x / 24" "?x / 24 \<le> of_int (?n + 1)" by simp_all
  have "float64 (of_int ?n) = of_int ?n" "float64 (of_int (?n + 1)) = of_int (?n + 1)"
    using n0 by - (rule float64_int; simp)+
  moreover have "(0 :: rat) \<le> of_int ?n" using n0(1) by simp
  ultimately have f: "of_int ?n \<le> float64 (?x / 24)" "float64 (?x / 24) \<le> of_int (?n + 1)"
    using float64_mono [of "of_int ?n" "?x / 24"] float64_mono [of "?x / 24" "of_int (?n + 1)"] q
    by (metis, metis order_trans)
  have "0 \<le> float64 (?x / 24)" using f(1) n0(1) by (meson of_int_0_le_iff order_trans)
  then have "n = \<lfloor>float64 (?x / 24)\<rfloor>" by (simp add: n_def trunc_floor)
  moreover have "?n \<le> \<lfloor>float64 (?x / 24)\<rfloor>" using f(1) by (simp add: le_floor_iff)
  moreover have "\<lfloor>float64 (?x / 24)\<rfloor> \<le> ?n + 1"
    using floor_mono [OF f(2)] by (simp only: floor_of_int)
  ultimately show ?thesis by linarith
qed

subsection \<open>The progress of the attempts\<close>

definition attempt_pct :: "int \<Rightarrow> int \<Rightarrow> int" where
  "attempt_pct attempt mx =
     (if mx \<le> 0 then 0
      else
        let pct = float64 (float64 (float64 (of_int attempt) / float64 (of_int mx)) * 100);
            pct = (if pct < 0 then 0 else pct);
            pct = (if pct > 100 then 100 else pct)
        in round_away pct)"

lemma attempt_pct_range: "0 \<le> attempt_pct a m \<and> attempt_pct a m \<le> 100"
proof -
  have "0 \<le> round_away p \<and> round_away p \<le> 100" if "0 \<le> p" "p \<le> 100" for p
    using round_away_mono [of 0 p] round_away_mono [of p 100] round_away_int [of 0] round_away_int [of 100] that
    by simp
  then show ?thesis by (simp add: attempt_pct_def Let_def)
qed

text \<open>The percentage before it is cut off and rounded.\<close>

definition raw_pct :: "int \<Rightarrow> int \<Rightarrow> rat" where
  "raw_pct a m = float64 (float64 (of_int a / of_int m) * 100)"

lemma attempt_pct_nonneg:
  assumes "0 \<le> a" and "a < 2 ^ 53" and "0 < m" and "m < 2 ^ 53"
  shows "attempt_pct a m = round_away (min 100 (raw_pct a m))" and "0 \<le> raw_pct a m"
proof -
  have "float64 (of_int a) = of_int a" "float64 (of_int m) = of_int m"
    using assms by (simp_all add: float64_int)
  moreover show "0 \<le> raw_pct a m"
    using assms by (simp add: raw_pct_def float64_nonneg)
  ultimately show "attempt_pct a m = round_away (min 100 (raw_pct a m))"
    using assms(3) by (simp add: attempt_pct_def raw_pct_def Let_def min_def)
qed

lemma raw_pct_mono: "0 \<le> a \<Longrightarrow> a \<le> b \<Longrightarrow> 0 < m \<Longrightarrow> raw_pct a m \<le> raw_pct b m"
  unfolding raw_pct_def
  by (intro float64_mono mult_right_mono mult_nonneg_nonneg float64_nonneg divide_right_mono) simp_all

lemma raw_pct_near:
  assumes "0 \<le> a" and "a \<le> m" and "0 < m"
  shows "\<bar>raw_pct a m - 100 * of_int a / of_int m\<bar> \<le> 1 / 2 ^ 40" "raw_pct a m \<le> 100"
proof -
  define x :: rat where "x = of_int a / of_int m"
  have x: "0 \<le> x" "x \<le> 1" using assms by (simp_all add: x_def)
  define q where "q = float64 x"
  have q: "0 \<le> q" "q \<le> 1" using float64_nonneg [OF x(1)] float64_mono [OF x] by (simp_all add: q_def)
  have e: "\<bar>q - x\<bar> \<le> 1 / 2 ^ 53" using float64_error [OF x(1)] x(2) by (simp add: q_def)
  have "\<bar>float64 (q * 100) - q * 100\<bar> \<le> 100 / 2 ^ 53"
    using float64_error [of "q * 100"] q by simp
  moreover have "raw_pct a m = float64 (q * 100)" "100 * of_int a / of_int m = 100 * x"
    by (simp_all add: raw_pct_def x_def q_def)
  ultimately show "\<bar>raw_pct a m - 100 * of_int a / of_int m\<bar> \<le> 1 / 2 ^ 40"
    using e unfolding abs_le_iff by simp
  show "raw_pct a m \<le> 100"
    using float64_mono [of "q * 100" 100] q by (simp add: raw_pct_def x_def q_def)
qed

text \<open>C27: The numbers of the dashboard's cards are right in spite of floating point. The age of a time
  stamp less than a day old is the whole number of seconds, minutes or hours that have passed; of an
  older one the number of days, or that number and one. The progress fill of a task is between 0 and
  100, grows with the attempts, and, for a task within its attempts, is the percentage up to half a
  point, but for a rounding error of 2^-40; all attempts used is 100.\<close>

theorem dashboard_numbers:
  assumes "t \<noteq> zero_time" and "0 \<le> since now t"
    and "0 \<le> a" and "a \<le> m" and "0 < m" and "m < 2 ^ 31"
  shows "(since now t < 24 * hour_ns \<longrightarrow> rel_time now t = age_text (since now t)) \<and>
    (24 * hour_ns \<le> since now t \<longrightarrow>
       rel_time now t = itoa (since now t div (24 * hour_ns)) @ ''d ago'' \<or>
       rel_time now t = itoa (since now t div (24 * hour_ns) + 1) @ ''d ago'') \<and>
    0 \<le> attempt_pct a m \<and> attempt_pct a m \<le> 100 \<and>
    (\<forall>b. 0 \<le> b \<and> b \<le> a \<longrightarrow> attempt_pct b m \<le> attempt_pct a m) \<and>
    \<bar>of_int (attempt_pct a m) - (100 * of_int a / of_int m :: rat)\<bar> \<le> 1 / 2 + 1 / 2 ^ 40 \<and>
    attempt_pct m m = 100"
proof (intro conjI)
  show "since now t < 24 * hour_ns \<longrightarrow> rel_time now t = age_text (since now t)"
    using rel_time_below_a_day assms(1,2) by blast
  have "since now t < 2 ^ 63" by (simp add: since_def)
  then show "24 * hour_ns \<le> since now t \<longrightarrow>
       rel_time now t = itoa (since now t div (24 * hour_ns)) @ ''d ago'' \<or>
       rel_time now t = itoa (since now t div (24 * hour_ns) + 1) @ ''d ago''"
    using days_bounds [OF assms(2)] assms(1) by (auto simp: rel_time_def Let_def unit_defs)
  show "0 \<le> attempt_pct a m" "attempt_pct a m \<le> 100" using attempt_pct_range by blast+
  have pct: "attempt_pct b m = round_away (raw_pct b m)" "0 \<le> raw_pct b m" if "0 \<le> b" "b \<le> m" for b
    using attempt_pct_nonneg [of b m] raw_pct_near(2) [OF that assms(5)] that assms(5,6)
    by (simp_all add: min_def)
  show "\<forall>b. 0 \<le> b \<and> b \<le> a \<longrightarrow> attempt_pct b m \<le> attempt_pct a m"
    using pct assms(3-5) raw_pct_mono [of _ a m] by (simp add: round_away_mono)
  show "\<bar>of_int (attempt_pct a m) - (100 * of_int a / of_int m :: rat)\<bar> \<le> 1 / 2 + 1 / 2 ^ 40"
    using raw_pct_near(1) [OF assms(3-5)] round_away_bounds [OF pct(2) [OF assms(3,4)]] pct(1) [OF assms(3,4)]
    unfolding abs_le_iff by simp
  have "raw_pct m m = of_int 100" using assms(5) by (simp add: raw_pct_def)
  with pct(1) [of m] assms(5) show "attempt_pct m m = 100" by (metis order_refl round_away_int less_imp_le)
qed

lemma dashboard_numbers_witness:
  "rel_time 7265000000001 1 = age_text (since 7265000000001 1) \<and> age_text (since 7265000000001 1) = ''2h ago'' \<and>
   attempt_pct 2 2 = 100 \<and> attempt_pct 1 3 \<le> attempt_pct 2 3"
proof -
  have d: "since 7265000000001 1 = 7264999999001" by (simp add: since_def)
  have "(1 :: time) \<noteq> zero_time" by (simp add: zero_time_def)
  note at = dashboard_numbers [OF this, of 7265000000001, unfolded d]
  have "age_text 7264999999001 = itoa 2 @ ''h ago''" by (simp add: age_text_def unit_defs)
  moreover have "itoa 2 = ''2''" by code_simp
  ultimately show ?thesis
    using at [of 2 3] at [of 2 2] by (simp add: d unit_defs)
qed

subsection \<open>The initials of a worker\<close>

text \<open>UTF-8 as Go reads it: a byte that starts no valid encoding is the rune U+FFFD of width one.\<close>

definition continuation :: "nat \<Rightarrow> nat \<Rightarrow> nat \<Rightarrow> bool" where
  "continuation lo hi b \<longleftrightarrow> lo \<le> b \<and> b \<le> hi"

definition second_range :: "nat \<Rightarrow> nat \<times> nat" where
  "second_range b =
     (if b = 0xE0 then (0xA0, 0xBF) else if b = 0xED then (0x80, 0x9F)
      else if b = 0xF0 then (0x90, 0xBF) else if b = 0xF4 then (0x80, 0x8F) else (0x80, 0xBF))"

definition decode_rune :: "nat \<Rightarrow> nat list \<Rightarrow> nat \<times> nat" where
  "decode_rune b bs =
     (let ok = (\<lambda>n. n \<le> length bs \<and> continuation (fst (second_range b)) (snd (second_range b)) (bs ! 0) \<and>
                list_all (continuation 0x80 0xBF) (take (n - 1) (tl bs)));
          low = (\<lambda>k. bs ! k mod 64)
      in if b < 0x80 then (b, 0)
         else if 0xC2 \<le> b \<and> b \<le> 0xDF \<and> ok 1 then (b mod 32 * 64 + low 0, 1)
         else if 0xE0 \<le> b \<and> b \<le> 0xEF \<and> ok 2 then (b mod 16 * 4096 + low 0 * 64 + low 1, 2)
         else if 0xF0 \<le> b \<and> b \<le> 0xF4 \<and> ok 3
         then (b mod 8 * 262144 + low 0 * 4096 + low 1 * 64 + low 2, 3)
         else (0xFFFD, 0))"

function decode_runes :: "nat list \<Rightarrow> nat list" where
  "decode_runes [] = []"
| "decode_runes (b # bs) = (case decode_rune b bs of (r, k) \<Rightarrow> r # decode_runes (drop k bs))"
  by pat_completeness auto

termination
  by (relation "measure length") (auto simp: le_imp_less_Suc)

definition runes :: "string \<Rightarrow> nat list" where
  "runes s = decode_runes (map of_char s)"

definition encode_rune :: "nat \<Rightarrow> string" where
  "encode_rune r =
     map char_of
       (let r = (if 0x10FFFF < r \<or> 0xD800 \<le> r \<and> r \<le> 0xDFFF then 0xFFFD else r) in
        if r < 0x80 then [r]
        else if r < 0x800 then [0xC0 + r div 64, 0x80 + r mod 64]
        else if r < 0x10000 then [0xE0 + r div 4096, 0x80 + r div 64 mod 64, 0x80 + r mod 64]
        else [0xF0 + r div 262144, 0x80 + r div 4096 mod 64, 0x80 + r div 64 mod 64, 0x80 + r mod 64])"

record unicode =
  other_letter :: "nat \<Rightarrow> bool"
  other_digit :: "nat \<Rightarrow> bool"
  other_upper :: "nat \<Rightarrow> nat"

definition letter_or_digit :: "unicode \<Rightarrow> nat \<Rightarrow> bool" where
  "letter_or_digit u r =
     (if r < 0x80 then 65 \<le> r \<and> r \<le> 90 \<or> 97 \<le> r \<and> r \<le> 122 \<or> 48 \<le> r \<and> r \<le> 57
      else other_letter u r \<or> other_digit u r)"

definition to_upper :: "unicode \<Rightarrow> nat \<Rightarrow> nat" where
  "to_upper u r = (if r < 0x80 then (if 97 \<le> r \<and> r \<le> 122 then r - 32 else r) else other_upper u r)"

text \<open>\<open>strings.FieldsFunc\<close> at ASCII separators.\<close>

fun fields_at :: "(char \<Rightarrow> bool) \<Rightarrow> string \<Rightarrow> string \<Rightarrow> string list" where
  "fields_at sep [] acc = (if acc = [] then [] else [rev acc])"
| "fields_at sep (c # s) acc =
     (if sep c then (if acc = [] then fields_at sep s [] else rev acc # fields_at sep s [])
      else fields_at sep s (c # acc))"

definition pick_rune :: "unicode \<Rightarrow> string \<Rightarrow> nat" where
  "pick_rune u s = (case find (letter_or_digit u) (runes s) of None \<Rightarrow> 0 | Some r \<Rightarrow> to_upper u r)"

definition initials :: "unicode \<Rightarrow> string \<Rightarrow> string" where
  "initials u i =
     (let i = trim_space i in
      if i = [] then ''??''
      else
        let parts = fields_at (\<lambda>c. c \<in> set ''-_ '') i [];
            out = take 2 (filter (\<lambda>r. r \<noteq> 0) (map (pick_rune u) parts))
        in if out = [] then ''??''
           else if length out = 1 then concat (map (\<lambda>r. encode_rune (to_upper u r)) (take 2 (runes i)))
           else concat (map encode_rune out))"

definition ascii_only :: unicode where
  "ascii_only = \<lparr>other_letter = (\<lambda>_. False), other_digit = (\<lambda>_. False), other_upper = (\<lambda>r. r)\<rparr>"

lemma initials_examples:
  "initials ascii_only ''worker-A-1'' = ''WA''" "initials ascii_only ''x'' = ''X''"
  "initials ascii_only ''--'' = ''??''" "initials ascii_only [] = ''??''"
  by (simp_all add: initials_def trim_space_def space_seqs_def trim_seqs.simps pick_rune_def runes_def
      decode_rune_def letter_or_digit_def to_upper_def encode_rune_def ascii_only_def Let_def)
    (code_simp+)

end
