(* ===== verification/Admin_Client.thy ===== *)
theory Admin_Client
  imports Mastermind Go_Text
begin

section \<open>The operators' channel to mastermind\<close>

text \<open>
  The AdminService client that the CLI (cli/cli.go) and the MCP server (cmd/mastermind-mcp) dial:
  every RPC carries BearerCredentials of the admin token. \<open>client\<close> is a gRPC channel and the server
  behind it; \<open>call_detail\<close>, \<open>call_list\<close>, \<open>call_workers\<close> and \<open>call_empty\<close> are the generated stubs
  with a TaskDetail, a page of tasks, a list of workers or nothing to return (a stub never gets a
  response of another type; the last equation only makes the functions total).
\<close>

type_synonym client = "request \<Rightarrow> sys \<Rightarrow> (rpc_error + response) \<times> sys"

definition admin_conn :: "config \<Rightarrow> env \<Rightarrow> string \<Rightarrow> client" where
  "admin_conn cfg en token = serves cfg en (bearer_metadata token)"

definition typed :: "(response \<Rightarrow> 'a option) \<Rightarrow> (rpc_error + response) \<times> sys \<Rightarrow> (rpc_error + 'a) \<times> sys" where
  "typed f res =
     (case res of
        (Inl e, s) \<Rightarrow> (Inl e, s)
      | (Inr r, s) \<Rightarrow> (case f r of None \<Rightarrow> (Inl (Internal, []), s) | Some x \<Rightarrow> (Inr x, s)))"

definition call_detail :: "client \<Rightarrow> request \<Rightarrow> sys \<Rightarrow> (rpc_error + task_detail) \<times> sys" where
  "call_detail call req s = typed (\<lambda>r. case r of RespDetail d \<Rightarrow> Some d | _ \<Rightarrow> None) (call req s)"

definition call_list :: "client \<Rightarrow> request \<Rightarrow> sys \<Rightarrow> (rpc_error + task_detail list \<times> int) \<times> sys" where
  "call_list call req s = typed (\<lambda>r. case r of RespDetails ds n \<Rightarrow> Some (ds, n) | _ \<Rightarrow> None) (call req s)"

definition call_workers :: "client \<Rightarrow> request \<Rightarrow> sys \<Rightarrow> (rpc_error + wire_worker list) \<times> sys" where
  "call_workers call req s = typed (\<lambda>r. case r of RespWorkers ws \<Rightarrow> Some ws | _ \<Rightarrow> None) (call req s)"

definition call_empty :: "client \<Rightarrow> request \<Rightarrow> sys \<Rightarrow> (rpc_error + unit) \<times> sys" where
  "call_empty call req s = typed (\<lambda>r. case r of RespEmpty \<Rightarrow> Some () | _ \<Rightarrow> None) (call req s)"

lemma typed_db [simp]: "snd (typed f res) = snd res"
  by (simp add: typed_def split: prod.split sum.split option.split)

lemma call_db [simp]:
  "snd (call_detail call req s) = snd (call req s)" "snd (call_list call req s) = snd (call req s)"
  "snd (call_workers call req s) = snd (call req s)" "snd (call_empty call req s) = snd (call req s)"
  by (simp_all add: call_detail_def call_list_def call_workers_def call_empty_def)

lemma admin_conn_dispatch:
  "\<not> worker_request req \<Longrightarrow>
     admin_conn cfg en (admin_token cfg) req s = dispatch (parse_uuid cfg) (show_uuid cfg) en req s"
  by (simp add: admin_conn_def serves_presents)

lemma finalize_task_exec:
  "parse_uuid cfg tid = Some i \<Longrightarrow>
     sys_db (snd (admin_conn cfg en (admin_token cfg) (ReqFinalizeTask tid (if ok then OutcomeSuccess else OutcomeFailure msg)) s)) =
       exec en (FinalizeTask i ok (if ok then [] else msg)) (sys_db s)"
  by (simp add: admin_conn_dispatch rpc_finalize_task_def)

end
