(* ===== verification/Mcp_Admin.thy ===== *)
theory Mcp_Admin
  imports Admin_Client
begin

section \<open>The operators' MCP tools\<close>

text \<open>
  mcpserver/tools.go: the five tools of mastermind-mcp, each one RPC of the AdminService. A tool's
  input is its decoded arguments (\<open>JNull\<close> for an absent payload); an error is a tool error with a
  text, never a protocol error.
\<close>

record mcp_detail =
  md_id :: string
  md_name :: string
  md_payload :: json
  md_priority :: int
  md_status :: string
  md_scheduled_for :: "time option"
  md_attempt_count :: int
  md_max_attempts :: int
  md_claimed_by :: string
  md_claimed_at :: "time option"
  md_last_heartbeat_at :: "time option"
  md_completed_at :: "time option"
  md_last_error :: string
  md_jira_url :: string
  md_github_pr_url :: string
  md_created_at :: time
  md_updated_at :: time

text \<open>Decoding the payload of a TaskDetail into \<open>any\<close>.\<close>

definition payload_value :: "raw_json \<Rightarrow> json" where
  "payload_value raw = (case raw of RawDoc j \<Rightarrow> go_any j | _ \<Rightarrow> JObj [])"

definition from_proto_task :: "task_detail \<Rightarrow> mcp_detail" where
  "from_proto_task p =
     \<lparr>md_id = td_id p, md_name = td_name p, md_payload = payload_value (RawDoc (td_payload p)),
      md_priority = td_priority p, md_status = td_status p, md_scheduled_for = td_scheduled_for p,
      md_attempt_count = td_attempt_count p, md_max_attempts = td_max_attempts p,
      md_claimed_by = td_claimed_by p, md_claimed_at = td_claimed_at p,
      md_last_heartbeat_at = td_last_heartbeat_at p, md_completed_at = td_completed_at p,
      md_last_error = td_last_error p, md_jira_url = td_jira_url p,
      md_github_pr_url = td_github_pr_url p, md_created_at = td_created_at p,
      md_updated_at = td_updated_at p\<rparr>"

datatype mcp_result =
    ToolError string
  | ToolDetail string mcp_detail
  | ToolPage string "mcp_detail list" int

definition mcp_tool_err :: "rpc_error \<Rightarrow> string \<Rightarrow> mcp_result" where
  "mcp_tool_err e tool =
     ToolError (tool @ '': '' @
       (case fst e of
          InvalidArgument \<Rightarrow> snd e
        | NotFound \<Rightarrow> snd e
        | Unauthenticated \<Rightarrow> ''mastermind rejected admin token''
        | Unavailable \<Rightarrow> ''mastermind unreachable''
        | _ \<Rightarrow> ''internal error''))"

text \<open>A tool that returns one task.\<close>

definition detail_tool ::
  "string \<Rightarrow> (mcp_detail \<Rightarrow> string) \<Rightarrow> (rpc_error + task_detail) \<times> sys \<Rightarrow> mcp_result \<times> sys" where
  "detail_tool tool text res =
     (case res of
        (Inl e, s) \<Rightarrow> (mcp_tool_err e tool, s)
      | (Inr p, s) \<Rightarrow> (let d = from_proto_task p in (ToolDetail (text d) d, s)))"

definition id_and_status :: "mcp_detail \<Rightarrow> string" where
  "id_and_status d = md_id d @ em_dash @ md_status d"

record create_task_args =
  ca_name :: string
  ca_payload :: json
  ca_priority :: int
  ca_max_attempts :: int
  ca_scheduled_for :: "time option"
  ca_jira_url :: string
  ca_github_pr_url :: string

definition create_args_request :: "create_task_args \<Rightarrow> create_request" where
  "create_args_request a =
     \<lparr>cr_name = ca_name a,
      cr_payload = (if ca_payload a = JNull then RawEmpty else RawDoc (go_any (ca_payload a))),
      cr_priority = ca_priority a, cr_max_attempts = ca_max_attempts a,
      cr_scheduled_for = ca_scheduled_for a, cr_jira_url = ca_jira_url a,
      cr_github_pr_url = ca_github_pr_url a\<rparr>"

definition mcp_create_task :: "client \<Rightarrow> create_task_args \<Rightarrow> sys \<Rightarrow> mcp_result \<times> sys" where
  "mcp_create_task call a s =
     detail_tool ''create_task'' (\<lambda>d. ''Created task '' @ md_id d @ '' ('' @ md_name d @ '')'')
       (call_detail call (ReqCreateTask (create_args_request a)) s)"

definition mcp_get_task :: "client \<Rightarrow> string \<Rightarrow> sys \<Rightarrow> mcp_result \<times> sys" where
  "mcp_get_task call tid s =
     detail_tool ''get_task'' id_and_status (call_detail call (ReqGetTask tid) s)"

definition mcp_list_tasks :: "client \<Rightarrow> string \<Rightarrow> int \<Rightarrow> int \<Rightarrow> sys \<Rightarrow> mcp_result \<times> sys" where
  "mcp_list_tasks call st limit offset s =
     (case call_list call (ReqListTasks st limit offset) s of
        (Inl e, s') \<Rightarrow> (mcp_tool_err e ''list_tasks'', s')
      | (Inr (items, n), s') \<Rightarrow>
          (let ds = map from_proto_task items in
           (ToolPage (itoa (int (length ds)) @ '' of '' @ itoa n @ '' tasks'') ds n, s')))"

definition mcp_request_review :: "client \<Rightarrow> string \<Rightarrow> sys \<Rightarrow> mcp_result \<times> sys" where
  "mcp_request_review call tid s =
     detail_tool ''request_review'' id_and_status (call_detail call (ReqRequestReview tid) s)"

definition mcp_finalize_task :: "client \<Rightarrow> string \<Rightarrow> string \<Rightarrow> string \<Rightarrow> sys \<Rightarrow> mcp_result \<times> sys" where
  "mcp_finalize_task call tid out msg s =
     (if out \<noteq> ''success'' \<and> out \<noteq> ''failure''
      then (ToolError ''finalize_task: outcome must be \"success\" or \"failure\"'', s)
      else
        detail_tool ''finalize_task'' id_and_status
          (call_detail call
            (ReqFinalizeTask tid (if out = ''success'' then OutcomeSuccess else OutcomeFailure msg)) s))"

lemma detail_tool_db [simp]: "snd (detail_tool tool f res) = snd res"
  by (simp add: detail_tool_def Let_def split: prod.split sum.split)

text \<open>The tool hides why a task cannot be finalized: the precondition is shown as an internal error.\<close>

lemma precondition_hidden:
  "mcp_tool_err (FailedPrecondition, m) tool = ToolError (tool @ '': internal error'')"
  by (simp add: mcp_tool_err_def)

text \<open>The tool documents its payload as optional with the default \<open>{}\<close>; a task without instructions is
  never accepted.\<close>

lemma default_payload_rejected:
  assumes "ca_payload a \<in> {JNull, JObj []}"
  shows "\<exists>m. mcp_create_task (admin_conn cfg en (admin_token cfg)) a s = (ToolError m, s)"
  using assms
  by (auto simp: mcp_create_task_def create_args_request_def call_detail_def typed_def admin_conn_dispatch
      rpc_create_task_def create_input_def create_task_def validate_create_input_def decode_instructions_ptr_def
      reply_def as_def detail_tool_def mcp_tool_err_def)


end
