(* ===== verification/Cli_Flags.thy ===== *)
theory Cli_Flags
  imports Go_Duration
begin

section \<open>Command lines\<close>

text \<open>
  What cli/cli.go's parseFlags and mcpserver/config.go use of Go's standard library: \<open>flag.FlagSet.Parse\<close> with
  ContinueOnError, and the readers of its values, \<open>strconv.ParseBool\<close> and \<open>strconv.ParseInt\<close> with
  base 0 (prefixes and underscores allowed), and \<open>time.ParseDuration\<close>. A flag set is a list of names and kinds; the values
  of a command line are a list with the last assignment first.
\<close>

subsection \<open>Values\<close>

definition parse_bool :: "string \<Rightarrow> bool option" where
  "parse_bool s =
     (if s \<in> {''1'', ''t'', ''T'', ''true'', ''TRUE'', ''True''} then Some True
      else if s \<in> {''0'', ''f'', ''F'', ''false'', ''FALSE'', ''False''} then Some False
      else None)"

definition lower_char :: "char \<Rightarrow> char" where
  "lower_char c = (let n = (of_char c :: nat) in if 65 \<le> n \<and> n \<le> 90 then char_of (n + 32) else c)"

definition digit36 :: "char \<Rightarrow> nat option" where
  "digit36 c =
     (case digit_val c of
        Some d \<Rightarrow> Some d
      | None \<Rightarrow>
          (let n = of_char (lower_char c) in if 97 \<le> n \<and> n \<le> 122 then Some (n - 87) else None))"

definition int_base :: "string \<Rightarrow> nat \<times> string" where
  "int_base s =
     (case s of
        [] \<Rightarrow> (10, [])
      | z # r \<Rightarrow>
          if z \<noteq> CHR ''0'' then (10, s)
          else case r of
            c # d # ds \<Rightarrow>
              (if lower_char c = CHR ''b'' then (2, d # ds)
               else if lower_char c = CHR ''o'' then (8, d # ds)
               else if lower_char c = CHR ''x'' then (16, d # ds)
               else (8, r))
          | _ \<Rightarrow> (8, r))"

fun base_digits :: "nat \<Rightarrow> string \<Rightarrow> nat \<Rightarrow> nat option" where
  "base_digits b [] acc = Some acc"
| "base_digits b (c # cs) acc =
     (if c = CHR ''_'' then base_digits b cs acc
      else case digit36 c of
        None \<Rightarrow> None
      | Some d \<Rightarrow> if b \<le> d then None else base_digits b cs (acc * b + d))"

text \<open>\<open>underscoreOK\<close>: an underscore stands between digits, or a base prefix and a digit. The
  state is the kind of the character before.\<close>

datatype seen = Start | Digit | Under | Other

fun underscores :: "bool \<Rightarrow> seen \<Rightarrow> string \<Rightarrow> bool" where
  "underscores hex st [] = (st \<noteq> Under)"
| "underscores hex st (c # cs) =
     (if digit_val c \<noteq> None \<or> hex \<and> (\<exists>d \<in> set_option (digit36 c). d < 16) then underscores hex Digit cs
      else if c = CHR ''_'' then st = Digit \<and> underscores hex Under cs
      else st \<noteq> Under \<and> underscores hex Other cs)"

definition underscore_ok :: "string \<Rightarrow> bool" where
  "underscore_ok s =
     (case s of
        z # c # r \<Rightarrow>
          (if z = CHR ''0'' \<and> lower_char c \<in> {CHR ''b'', CHR ''o'', CHR ''x''}
           then underscores (lower_char c = CHR ''x'') Digit r
           else underscores False Start s)
      | _ \<Rightarrow> underscores False Start s)"

definition parse_int0 :: "string \<Rightarrow> int option" where
  "parse_int0 s =
     (case split_sign s of (neg, body) \<Rightarrow>
        if body = [] then None
        else case int_base body of (b, ds) \<Rightarrow>
          (case base_digits b ds 0 of
             None \<Rightarrow> None
           | Some n \<Rightarrow>
               if CHR ''_'' \<in> set ds \<and> \<not> underscore_ok body then None
               else let i = (if neg then - int n else int n) in if go_int i then Some i else None))"

lemma parse_int0_examples:
  "parse_int0 ''-17'' = Some (-17)" "parse_int0 ''0x1F'' = Some 31" "parse_int0 ''010'' = Some 8"
  "parse_int0 ''1_000'' = Some 1000" "parse_int0 ''0b'' = None" "parse_int0 ''1__0'' = None"
  "parse_int0 ''0'' = Some 0" "parse_int0 ''9223372036854775808'' = None" "parse_int0 ''0_7'' = Some 7"
  by (simp_all add: parse_int0_def split_sign_def int_base_def lower_char_def digit36_def digit_val_def
      underscore_ok_def go_int_def Let_def)

lemma base_digits_10: "list_all (\<lambda>c. digit_val c \<noteq> None) ds \<Longrightarrow> base_digits 10 ds acc = digits_val ds acc"
proof (induction ds arbitrary: acc)
  case (Cons c ds)
  then obtain d where d: "digit_val c = Some d" by auto
  then have "d < 10" and "c \<noteq> CHR ''_''" by (auto simp: digit_val_def Let_def split: if_splits)
  with Cons d show ?case by (simp add: digit36_def)
qed simp

lemma nat_digits_digits: "list_all (\<lambda>c. digit_val c \<noteq> None) (nat_digits n)"
proof (induction n rule: nat_digits.induct)
  case (1 n)
  then show ?case by (cases "n < 10") (simp_all add: nat_digits.simps [of n])
qed

lemma nat_digits_nonzero: "0 < n \<Longrightarrow> \<exists>d ds. nat_digits n = digit d # ds \<and> 0 < d \<and> d < 10"
proof (induction n rule: nat_digits.induct)
  case (1 n)
  show ?case
  proof (cases "n < 10")
    case False
    then have "0 < n div 10" by (simp add: div_greater_zero_iff)
    with 1 False obtain d ds where "nat_digits (n div 10) = digit d # ds" "0 < d" "d < 10" by blast
    with False show ?thesis by (auto simp: nat_digits.simps [of n])
  qed (use 1 in \<open>auto simp: nat_digits.simps [of n]\<close>)
qed

lemma nat_digits_0: "nat_digits 0 = ''0''"
  by code_simp

lemma digit_nonzero: "0 < d \<Longrightarrow> d < 10 \<Longrightarrow> digit d \<noteq> CHR ''0''"
  using digit_val_digit [of d] by (auto simp: digit_val_def Let_def)

lemma no_underscore: "list_all (\<lambda>c. digit_val c \<noteq> None) ds \<Longrightarrow> CHR ''_'' \<notin> set ds"
  by (auto simp: list_all_iff digit_val_def Let_def)

lemma parse_nat_digits:
  assumes "go_int (if neg then - int n else int n)"
    and "split_sign s = (neg, nat_digits n)"
  shows "parse_int0 s = Some (if neg then - int n else int n)"
proof (cases "n = 0")
  case True
  then show ?thesis
    using assms by (simp add: parse_int0_def nat_digits_0 int_base_def Let_def go_int_def)
next
  case False
  then obtain d ds where head: "nat_digits n = digit d # ds" "0 < d" "d < 10"
    using nat_digits_nonzero [of n] by blast
  then have base: "int_base (nat_digits n) = (10, nat_digits n)"
    by (simp add: int_base_def digit_nonzero)
  have "base_digits 10 (nat_digits n) 0 = Some n"
    using digits_val_nat_digits [of n] nat_digits_digits [of n] base_digits_10 by fastforce
  with base show ?thesis
    using assms head no_underscore [OF nat_digits_digits [of n]]
    by (simp add: parse_int0_def Let_def)
qed

lemma parse_int0_itoa: "go_int i \<Longrightarrow> parse_int0 (itoa i) = Some i"
proof (cases "i < 0")
  case True
  assume "go_int i"
  then show ?thesis
    using True parse_nat_digits [of True "nat (- i)" "itoa i"] by (simp add: itoa_def split_sign_def)
next
  case False
  assume i: "go_int i"
  obtain d ds where head: "nat_digits (nat i) = digit d # ds" "d < 10" using nat_digits_head by blast
  then have "split_sign (itoa i) = (False, nat_digits (nat i))"
    using False digit_not_sign by (simp add: itoa_def split_sign_def)
  then show ?thesis using False i parse_nat_digits [of False "nat i" "itoa i"] by simp
qed

subsection \<open>flag.FlagSet.Parse\<close>

datatype flag_kind = BoolFlag | IntFlag | StringFlag | DurationFlag

datatype flag_value = BoolValue bool | IntValue int | StringValue string | DurationValue int

datatype flag_error =
    BadSyntax string
  | NotDefined string
  | HelpRequested
  | NeedsArgument string
  | InvalidValue string string

type_synonym flag_set = "(string \<times> flag_kind) list"
type_synonym flag_values = "(string \<times> flag_value) list"

definition set_flag :: "flag_kind \<Rightarrow> string \<Rightarrow> flag_value option" where
  "set_flag k s =
     (case k of
        BoolFlag \<Rightarrow> map_option BoolValue (parse_bool s)
      | IntFlag \<Rightarrow> map_option IntValue (parse_int0 s)
      | StringFlag \<Rightarrow> Some (StringValue s)
      | DurationFlag \<Rightarrow> map_option DurationValue (parse_duration s))"

text \<open>\<open>name=value\<close> is cut at its first equals sign.\<close>

definition split_flag :: "string \<Rightarrow> string \<times> string option" where
  "split_flag s =
     (if CHR ''='' \<in> set s then (case cut_at CHR ''='' s of (n, v) \<Rightarrow> (n, Some v)) else (s, None))"

definition flag_body :: "string \<Rightarrow> string" where
  "flag_body s = (if s ! 1 = CHR ''-'' then drop 2 s else drop 1 s)"

fun parse_flags ::
  "flag_set \<Rightarrow> string list \<Rightarrow> flag_values \<Rightarrow> flag_error + flag_values \<times> string list" where
  "parse_flags fs [] vs = Inr (vs, [])"
| "parse_flags fs (s # args) vs =
     (if length s < 2 \<or> hd s \<noteq> CHR ''-'' then Inr (vs, s # args)
      else if s = ''--'' then Inr (vs, args)
      else if flag_body s = [] \<or> hd (flag_body s) = CHR ''-'' \<or> hd (flag_body s) = CHR ''=''
      then Inl (BadSyntax s)
      else case split_flag (flag_body s) of (name, given) \<Rightarrow>
        (case map_of fs name of
           None \<Rightarrow> Inl (if name = ''help'' \<or> name = ''h'' then HelpRequested else NotDefined name)
         | Some k \<Rightarrow>
             (case given of
                Some x \<Rightarrow>
                  (case set_flag k x of
                     None \<Rightarrow> Inl (InvalidValue name x)
                   | Some v \<Rightarrow> parse_flags fs args ((name, v) # vs))
              | None \<Rightarrow>
                  if k = BoolFlag then parse_flags fs args ((name, BoolValue True) # vs)
                  else (case args of
                     [] \<Rightarrow> Inl (NeedsArgument name)
                   | x # args' \<Rightarrow>
                       (case set_flag k x of
                          None \<Rightarrow> Inl (InvalidValue name x)
                        | Some v \<Rightarrow> parse_flags fs args' ((name, v) # vs))))))"

declare parse_flags.simps(2) [simp del]

definition string_flag :: "string \<Rightarrow> string \<Rightarrow> flag_values \<Rightarrow> string" where
  "string_flag n d vs = (case map_of vs n of Some (StringValue s) \<Rightarrow> s | _ \<Rightarrow> d)"

definition int_flag :: "string \<Rightarrow> int \<Rightarrow> flag_values \<Rightarrow> int" where
  "int_flag n d vs = (case map_of vs n of Some (IntValue i) \<Rightarrow> i | _ \<Rightarrow> d)"

definition bool_flag :: "string \<Rightarrow> flag_values \<Rightarrow> bool" where
  "bool_flag n vs \<longleftrightarrow> map_of vs n = Some (BoolValue True)"

text \<open>Flags bound to a variable that already has a value.\<close>

definition bool_flag_or :: "string \<Rightarrow> bool \<Rightarrow> flag_values \<Rightarrow> bool" where
  "bool_flag_or n d vs = (case map_of vs n of Some (BoolValue b) \<Rightarrow> b | _ \<Rightarrow> d)"

definition duration_flag :: "string \<Rightarrow> int \<Rightarrow> flag_values \<Rightarrow> int" where
  "duration_flag n d vs = (case map_of vs n of Some (DurationValue i) \<Rightarrow> i | _ \<Rightarrow> d)"

text \<open>An argument \<open>--name value\<close> of a defined flag is read, whatever the value is.\<close>

lemma parse_flag_value:
  assumes "n \<noteq> []" and "hd n \<noteq> CHR ''-''" and "CHR ''='' \<notin> set n"
    and "map_of fs n = Some k" and "k \<noteq> BoolFlag" and "set_flag k x = Some v"
  shows "parse_flags fs ((CHR ''-'' # CHR ''-'' # n) # x # args) vs = parse_flags fs args ((n, v) # vs)"
proof -
  have "hd n \<noteq> CHR ''=''" using assms(1,3) by (cases n) auto
  with assms show ?thesis
    by (simp add: parse_flags.simps(2) flag_body_def split_flag_def)
qed

end
