(* ===== verification/Mcp_Start.thy ===== *)
theory Mcp_Start
  imports Mcp_Admin Cli_Flags
begin

section \<open>The MCP server of the operators\<close>

text \<open>
  mcpserver/config.go, mcpserver/server.go and cmd/mastermind-mcp/main.go: the configuration from
  the environment (what envconfig makes of it is an argument) and the command line, the probe of
  mastermind before the MCP handshake, and the tools the server offers. A call of a tool arrives
  with its decoded input; the MCP SDK, which decodes it, and its transport over stdio are not part
  of the sources. \<open>dial\<close> is \<open>grpc.NewClient\<close>: the channel for an address and a token, if any.
\<close>

subsection \<open>Configuration\<close>

record mcp_config =
  mx_addr :: string
  mx_token :: string
  mx_tls :: bool
  mx_dial_timeout :: int
  mx_log_level :: string
  mx_log_format :: string

datatype mcp_config_error = EnvError string | FlagError flag_error | ConfigError string

definition mcp_flags :: flag_set where
  "mcp_flags =
     [(''addr'', StringFlag), (''token'', StringFlag), (''tls'', BoolFlag),
      (''dial-timeout'', DurationFlag), (''log-level'', StringFlag), (''log-format'', StringFlag)]"

definition override_config :: "flag_values \<Rightarrow> mcp_config \<Rightarrow> mcp_config" where
  "override_config vs c =
     \<lparr>mx_addr = string_flag ''addr'' (mx_addr c) vs, mx_token = string_flag ''token'' (mx_token c) vs,
      mx_tls = bool_flag_or ''tls'' (mx_tls c) vs,
      mx_dial_timeout = duration_flag ''dial-timeout'' (mx_dial_timeout c) vs,
      mx_log_level = string_flag ''log-level'' (mx_log_level c) vs,
      mx_log_format = string_flag ''log-format'' (mx_log_format c) vs\<rparr>"

definition check_config :: "mcp_config \<Rightarrow> mcp_config_error + mcp_config" where
  "check_config c =
     (if mx_addr c = [] then Inl (ConfigError ''MASTERMIND_ADDR (or --addr) is required'')
      else if mx_token c = [] then Inl (ConfigError ''ADMIN_TOKEN (or --token) is required'')
      else Inr c)"

text \<open>Without arguments (nil) only the environment counts.\<close>

definition load_mcp :: "string + mcp_config \<Rightarrow> string list option \<Rightarrow> mcp_config_error + mcp_config" where
  "load_mcp processed args =
     (case processed of
        Inl e \<Rightarrow> Inl (EnvError e)
      | Inr c \<Rightarrow>
          (case args of
             None \<Rightarrow> check_config c
           | Some argv \<Rightarrow>
               (case parse_flags mcp_flags argv [] of
                  Inl e \<Rightarrow> Inl (FlagError e)
                | Inr (vs, rest) \<Rightarrow> check_config (override_config vs c))))"

subsection \<open>The tools\<close>

record get_task_input =
  gi_id :: string

record list_tasks_input =
  li_status :: string
  li_limit :: int
  li_offset :: int

record request_review_input =
  ri_id :: string

record finalize_task_input =
  fi_id :: string
  fi_outcome :: string
  fi_message :: string

datatype mcp_call =
    CallCreateTask create_task_args
  | CallGetTask get_task_input
  | CallListTasks list_tasks_input
  | CallRequestReview request_review_input
  | CallFinalizeTask finalize_task_input

definition mcp_server :: "client \<Rightarrow> mcp_call \<Rightarrow> sys \<Rightarrow> mcp_result \<times> sys" where
  "mcp_server admin c s =
     (case c of
        CallCreateTask a \<Rightarrow> mcp_create_task admin a s
      | CallGetTask i \<Rightarrow> mcp_get_task admin (gi_id i) s
      | CallListTasks i \<Rightarrow> mcp_list_tasks admin (li_status i) (li_limit i) (li_offset i) s
      | CallRequestReview i \<Rightarrow> mcp_request_review admin (ri_id i) s
      | CallFinalizeTask i \<Rightarrow> mcp_finalize_task admin (fi_id i) (fi_outcome i) (fi_message i) s)"

subsection \<open>Start\<close>

text \<open>A start ends with an exit code, or with a server that answers calls over the channel.\<close>

datatype mcp_start = McpExit int string | McpServe client

definition run_mcp :: "string + mcp_config \<Rightarrow> (string \<Rightarrow> string \<Rightarrow> client option) \<Rightarrow> string list \<Rightarrow> sys
    \<Rightarrow> mcp_start \<times> sys" where
  "run_mcp processed dial args s =
     (case load_mcp processed (Some args) of
        Inl (FlagError HelpRequested) \<Rightarrow> (McpExit 0 [], s)
      | Inl _ \<Rightarrow> (McpExit 1 ''configuration'', s)
      | Inr c \<Rightarrow>
          (case dial (mx_addr c) (mx_token c) of
             None \<Rightarrow> (McpExit 1 (''dial '' @ mx_addr c), s)
           | Some admin \<Rightarrow>
               (case call_list admin (ReqListTasks [] 1 0) s of
                  (Inl e, s') \<Rightarrow> (McpExit 1 ''probe mastermind'', s')
                | (Inr _, s') \<Rightarrow> (McpServe admin, s'))))"

text \<open>The arguments that spell out a configuration.\<close>

definition mcp_args :: "mcp_config \<Rightarrow> string list" where
  "mcp_args c =
     [''--addr'', mx_addr c, ''--token'', mx_token c,
      ''--tls='' @ (if mx_tls c then ''true'' else ''false''),
      ''--dial-timeout'', itoa (mx_dial_timeout c) @ ''ns'',
      ''--log-level'', mx_log_level c, ''--log-format'', mx_log_format c]"

lemma mcp_flag_string:
  assumes "map_of mcp_flags n = Some StringFlag"
  shows "parse_flags mcp_flags ((CHR ''-'' # CHR ''-'' # n) # x # args) vs =
    parse_flags mcp_flags args ((n, StringValue x) # vs)"
  using assms
  by (intro parse_flag_value [where k = StringFlag])
    (auto simp: set_flag_def mcp_flags_def split: if_splits)

lemma mcp_flag_duration:
  assumes "0 \<le> d" and "d < 2 ^ 63"
  shows "parse_flags mcp_flags (''--dial-timeout'' # (itoa d @ ''ns'') # args) vs =
    parse_flags mcp_flags args ((''dial-timeout'', DurationValue d) # vs)"
proof -
  have "parse_duration (itoa d @ ''ns'') = Some d"
    using parse_duration_unit [of "''ns''" 1 "nat d"] assms by (simp add: unit_map_def)
  then show ?thesis
    using parse_flag_value [of "''dial-timeout''" mcp_flags DurationFlag "itoa d @ ''ns''" "DurationValue d"]
    by (simp add: set_flag_def mcp_flags_def)
qed

lemma mcp_flag_bool:
  "parse_flags mcp_flags ((''--tls='' @ (if b then ''true'' else ''false'')) # args) vs =
    parse_flags mcp_flags args ((''tls'', BoolValue b) # vs)"
  by (simp add: parse_flags.simps(2) flag_body_def split_flag_def cut_at_def mcp_flags_def set_flag_def
      parse_bool_def)

lemma mcp_kinds:
  "map_of mcp_flags ''addr'' = Some StringFlag" "map_of mcp_flags ''token'' = Some StringFlag"
  "map_of mcp_flags ''log-level'' = Some StringFlag" "map_of mcp_flags ''log-format'' = Some StringFlag"
  by (simp_all add: mcp_flags_def)

lemma load_mcp_args:
  assumes "mx_addr c \<noteq> []" and "mx_token c \<noteq> []" and "0 \<le> mx_dial_timeout c" and "mx_dial_timeout c < 2 ^ 63"
  shows "load_mcp (Inr e) (Some (mcp_args c)) = Inr c"
proof -
  have "parse_flags mcp_flags (mcp_args c) [] =
      Inr ([(''log-format'', StringValue (mx_log_format c)), (''log-level'', StringValue (mx_log_level c)),
        (''dial-timeout'', DurationValue (mx_dial_timeout c)), (''tls'', BoolValue (mx_tls c)),
        (''token'', StringValue (mx_token c)), (''addr'', StringValue (mx_addr c))], [])"
    unfolding mcp_args_def
    by (cases "mx_tls c")
      (simp_all add: mcp_flag_string [where n = "''addr''", simplified] mcp_flag_string [where n = "''token''", simplified]
        mcp_flag_string [where n = "''log-level''", simplified] mcp_flag_string [where n = "''log-format''", simplified]
        mcp_kinds mcp_flag_bool [where b = True, simplified] mcp_flag_bool [where b = False, simplified]
        mcp_flag_duration [OF assms(3,4), simplified])
  then show ?thesis
    using assms(1,2)
    by (simp add: load_mcp_def override_config_def check_config_def string_flag_def bool_flag_or_def
        duration_flag_def)
qed

lemma probe_answer:
  assumes "fault en 0 = None" and "fault en 1 = None"
  shows "token = admin_token cfg \<Longrightarrow>
      \<exists>r. call_list (admin_conn cfg en token) (ReqListTasks [] 1 0) s = (Inr r, s)"
    and "token \<noteq> admin_token cfg \<Longrightarrow>
      \<exists>m. call_list (admin_conn cfg en token) (ReqListTasks [] 1 0) s = (Inl (Unauthenticated, m), s)"
proof -
  have "\<exists>r. dispatch (parse_uuid cfg) (show_uuid cfg) en (ReqListTasks [] 1 0) s = (Inr r, s) \<and>
      (\<exists>ds n. r = RespDetails ds n)"
    using assms by (auto simp: as_def rpc_list_tasks_def list_tasks_def where_status_def Let_def)
  then show "token = admin_token cfg \<Longrightarrow>
      \<exists>r. call_list (admin_conn cfg en token) (ReqListTasks [] 1 0) s = (Inr r, s)"
    by (auto simp: call_list_def typed_def admin_conn_dispatch)
  show "token \<noteq> admin_token cfg \<Longrightarrow>
      \<exists>m. call_list (admin_conn cfg en token) (ReqListTasks [] 1 0) s = (Inl (Unauthenticated, m), s)"
    using serves_refused [of "bearer_metadata token" "ReqListTasks [] 1 0" cfg en s]
    by (auto simp: call_list_def typed_def admin_conn_def)
qed


definition sample_mcp :: mcp_config where
  "sample_mcp =
     \<lparr>mx_addr = '':50051'', mx_token = ''wrong'', mx_tls = False, mx_dial_timeout = 5000000000,
      mx_log_level = ''info'', mx_log_format = ''json''\<rparr>"


end
