(* ===== verification/Demo.thy ===== *)
theory Demo
  imports Runner Admin_Client
begin

section \<open>The demo client\<close>

text \<open>
  cmd/demo/main.go: a fake worker on top of taskclient and a seeder on top of the AdminService. The
  clock and the network are those of \<open>Runner\<close>; \<open>draws k\<close> is the k-th number that math/rand gives
  to the task at hand, so \<open>rand.IntN(n)\<close> is a draw modulo n. The lists of words are those of the
  code; logging is not modelled, the environment is read in \<open>Demo_Main\<close>. The fake worker's heartbeat
  runs beside it (\<open>Worker_State\<close>).
\<close>

subsection \<open>The fake worker\<close>

definition middle_dot :: string where
  "middle_dot = [CHR '' '', CHR 0xC2, CHR 0xB7, CHR '' '']"

definition phase_words :: "string list" where
  "phase_words = [''loading inputs'', ''tokenizing batch'', ''calling model'', ''scoring outputs'',
     ''writing artifacts'', ''verifying'', ''uploading results'', ''compacting'', ''reranking'',
     ''summarizing'', ''embedding'', ''indexing'', ''warming cache'']"

definition detail_words :: "string list" where
  "detail_words = [''412 rows'', ''8.4kb chunk'', ''p50=120ms'', ''cache hit'',
     ''context 14201/120k tokens'', ''batch 12/14'', ''rate limit ok'', ''connection reused'',
     ''schema validated'', ''checksum ok'', ''retry budget intact'', ''leasing extension confirmed'']"

definition failures :: "string list" where
  "failures = [''upstream timeout after 5s'', ''parse error on row 88'',
     ''rate-limited by provider, gave up'', ''unexpected schema in payload'',
     ''out of memory while embedding'']"

definition pick_word :: "string list \<Rightarrow> nat \<Rightarrow> string" where
  "pick_word ws n = ws ! (n mod length ws)"

definition jitter :: "int \<Rightarrow> int \<Rightarrow> nat \<Rightarrow> int" where
  "jitter lo hi n = (if hi \<le> lo then lo else lo + int n mod (hi - lo))"

definition demo_sleep :: "int option \<Rightarrow> int \<Rightarrow> int \<Rightarrow> int" where
  "demo_sleep stop d t = (if d \<le> 0 then t else snd (wait_for stop d t))"

text \<open>A call whose error is only logged: the time and the system after it.\<close>

definition logged ::
  "(int \<Rightarrow> nat) \<Rightarrow> (int \<Rightarrow> sys \<Rightarrow> (worker_error + 'a) \<times> sys) \<Rightarrow> int \<times> sys \<Rightarrow> int \<times> sys" where
  "logged lag call ts = (case ts of (t, s) \<Rightarrow> (t + int (lag t), snd (call t s)))"

text \<open>The progress beats; False when the context ended in between.\<close>

fun beats ::
  "int option \<Rightarrow> net \<Rightarrow> (int \<Rightarrow> nat) \<Rightarrow> string \<Rightarrow> handle \<Rightarrow> int \<Rightarrow> (nat \<Rightarrow> nat) \<Rightarrow> nat \<Rightarrow> nat list
     \<Rightarrow> int \<times> sys \<Rightarrow> bool \<times> (int \<times> sys)" where
  "beats stop net lag w h gap draws steps [] ts = (True, ts)"
| "beats stop net lag w h gap draws steps (i # is) ts =
     (if ctx_err stop (fst ts) then (False, ts)
      else
        let txt = ''step '' @ itoa (int i) @ ''/'' @ itoa (int steps) @ middle_dot @
              pick_word phase_words (draws (2 * i));
            ts = logged lag (\<lambda>t. task_call (net t) (progress_request w h txt)) ts;
            ts = logged lag (\<lambda>t. task_append_log (net t) w h
              (txt @ em_dash @ pick_word detail_words (draws (2 * i + 1)))) ts
        in beats stop net lag w h gap draws steps is (demo_sleep stop gap (fst ts), snd ts))"

definition run_one_task ::
  "int option \<Rightarrow> net \<Rightarrow> (int \<Rightarrow> nat) \<Rightarrow> string \<Rightarrow> handle \<Rightarrow> int \<Rightarrow> int \<Rightarrow> int \<Rightarrow> (nat \<Rightarrow> nat)
     \<Rightarrow> int \<times> sys \<Rightarrow> fin option \<times> (int \<times> sys)" where
  "run_one_task stop net lag w h min_work max_work fail_pct draws ts =
     (let total_work = jitter min_work max_work (draws 0);
          steps = 3 + draws 1 mod 4;
          gap = max (quot total_work (int steps)) 500000000
      in case beats stop net lag w h gap draws steps [1..<steps + 1] ts of
        (False, ts) \<Rightarrow> (None, ts)
      | (True, ts) \<Rightarrow>
          if int (draws 14 mod 100) < fail_pct then
            let msg = pick_word failures (draws 15);
                ts = logged lag (\<lambda>t. task_append_log (net t) w h (''failure: '' @ msg)) ts
            in (Some (FinFail msg), logged lag (\<lambda>t. task_call (net t) (fin_request w h (FinFail msg))) ts)
          else
            let ts = logged lag (\<lambda>t. task_append_log (net t) w h ''done'') ts
            in (Some FinComplete, logged lag (\<lambda>t. task_call (net t) (fin_request w h FinComplete)) ts))"

partial_function (option) demo_worker ::
  "int option \<Rightarrow> (nat \<Rightarrow> nat \<Rightarrow> nat) \<Rightarrow> net \<Rightarrow> (int \<Rightarrow> nat) \<Rightarrow> string \<Rightarrow> int \<Rightarrow> int \<Rightarrow> int \<Rightarrow> int
     \<Rightarrow> runner \<Rightarrow> runner option" where
  "demo_worker stop draws net lag w poll min_work max_work fail_pct x =
     (if ctx_err stop (rn_clock x) then Some x
      else case client_claim (net (rn_clock x)) w (rn_sys x) of
        (Inl e, s') \<Rightarrow>
          demo_worker stop draws net lag w poll min_work max_work fail_pct
            (x\<lparr>rn_clock := demo_sleep stop poll (rn_clock x + int (lag (rn_clock x))), rn_sys := s'\<rparr>)
      | (Inr h, s') \<Rightarrow>
          (case run_one_task stop net lag w h min_work max_work fail_pct
              (draws (length (rn_claimed x))) (rn_clock x + int (lag (rn_clock x)), s') of
             (res, (t, s)) \<Rightarrow>
               demo_worker stop draws net lag w poll min_work max_work fail_pct
                 (x\<lparr>rn_clock := t, rn_sys := s, rn_claimed := rn_claimed x @ [h_id h],
                    rn_reported := rn_reported x @
                      (case res of None \<Rightarrow> [] | Some f \<Rightarrow> [(h_id h, f)])\<rparr>)))"

text \<open>The fake worker reports no result exactly when its context ends during the beats.\<close>

lemma beats_complete: "beats None net lag w h gap draws steps is ts = (ok, ts') \<Longrightarrow> ok"
  by (induction "None :: int option" net lag w h gap draws steps "is" ts rule: beats.induct)
    (auto simp: ctx_err_def Let_def)

lemma run_one_task_reports:
  "fst (run_one_task None net lag w h min_work max_work fail_pct draws ts) \<noteq> None"
  by (auto simp: run_one_task_def Let_def split: prod.split bool.split dest: beats_complete)

subsection \<open>The seeder\<close>

definition task_names :: "string list" where
  "task_names = [''classify-support-tickets'', ''summarize-call-transcripts'',
     ''extract-invoice-line-items'', ''embed-product-catalog-delta'', ''translate-fr-en-doc-set'',
     ''image-moderation-sweep'', ''generate-weekly-report-draft'', ''sentiment-scoring-run'',
     ''ocr-receipts-batch'', ''rerank-search-results'', ''deduplicate-customer-records'',
     ''render-pdf-statements'']"

definition random_task :: "(nat \<Rightarrow> nat) \<Rightarrow> string \<times> int" where
  "random_task draws =
     (let name = pick_word task_names (draws 0); r = draws 1 mod 100 in
      if r < 50 then (name, int (draws 2 mod 3))
      else if r < 85 then (name, 3 + int (draws 2 mod 4))
      else (name, 7 + int (draws 2 mod 4)))"

text \<open>The members in the order of marshalling a map; \<open>seed\<close> is a number below 2^63.\<close>

definition seed_request :: "(nat \<Rightarrow> nat) \<Rightarrow> create_request" where
  "seed_request draws =
     (case random_task draws of (name, prio) \<Rightarrow>
        \<lparr>cr_name = name,
         cr_payload = RawDoc (JObj
           [(''kind'', JStr name), (''seed'', JNum (itoa (int (draws 4 mod 2 ^ 63)))),
            (''size'', JNum (itoa (int (draws 3 mod 500) + 1))), (''source'', JStr ''demo-seeder'')]),
         cr_priority = to_int32 prio, cr_max_attempts = 3, cr_scheduled_for = None,
         cr_jira_url = [], cr_github_pr_url = []\<rparr>)"

fun seed_batch ::
  "(nat \<Rightarrow> client) \<Rightarrow> (nat \<Rightarrow> nat \<Rightarrow> nat) \<Rightarrow> nat \<Rightarrow> nat \<Rightarrow> sys \<Rightarrow> rpc_error option \<times> sys" where
  "seed_batch call draws k 0 s = (None, s)"
| "seed_batch call draws k (Suc n) s =
     (case call_detail (call k) (ReqCreateTask (seed_request (draws k))) s of
        (Inl e, s') \<Rightarrow> (Some e, s')
      | (Inr _, s') \<Rightarrow> seed_batch call draws (Suc k) n s')"

definition demo_count_pending :: "client \<Rightarrow> sys \<Rightarrow> (rpc_error + int) \<times> sys" where
  "demo_count_pending call s =
     (case call_list call (ReqListTasks ''pending'' 200 0) s of
        (Inl e, s') \<Rightarrow> (Inl e, s')
      | (Inr (items, _), s') \<Rightarrow> (Inr (int (length items)), s'))"

text \<open>One tick of the seeder: \<open>count\<close> and \<open>call k\<close> are the channel at the moments of its RPCs.\<close>

definition seeder_tick ::
  "client \<Rightarrow> (nat \<Rightarrow> client) \<Rightarrow> (nat \<Rightarrow> nat \<Rightarrow> nat) \<Rightarrow> int \<Rightarrow> int \<Rightarrow> sys \<Rightarrow> sys" where
  "seeder_tick count_call call draws burst target s =
     (case demo_count_pending count_call s of
        (Inl e, s') \<Rightarrow> s'
      | (Inr pending, s') \<Rightarrow>
          snd (seed_batch call draws 0 (nat (min (max (to_int64 (target - pending)) burst) 6)) s'))"

text \<open>The seeder until its context ends: a first batch, then one tick after the other.\<close>

definition run_seeder ::
  "(nat \<Rightarrow> client) \<Rightarrow> (nat \<Rightarrow> nat \<Rightarrow> nat) \<Rightarrow> (client \<times> (nat \<Rightarrow> client) \<times> (nat \<Rightarrow> nat \<Rightarrow> nat)) list
     \<Rightarrow> int \<Rightarrow> int \<Rightarrow> sys \<Rightarrow> sys" where
  "run_seeder call draws ticks burst target s =
     foldl (\<lambda>s (count_call, call, draws). seeder_tick count_call call draws burst target s)
       (snd (seed_batch call draws 0 (nat (to_int64 (burst * 2))) s)) ticks"

text \<open>No task of the seeder is accepted: its payloads have no instructions, which mastermind requires.\<close>

lemma seed_request_invalid: "validate_create_input (cr_payload (seed_request draws)) = Some NoInstructions"
proof -
  have "\<not> instructions_key ''kind''" "\<not> instructions_key ''seed''" "\<not> instructions_key ''size''"
    "\<not> instructions_key ''source''"
    by code_simp+
  then show ?thesis
    by (simp add: seed_request_def random_task_def Let_def validate_create_input_def
        decode_instructions_ptr_def)
qed

lemma pick_word_in: "ws \<noteq> [] \<Longrightarrow> pick_word ws n \<in> set ws"
  by (simp add: pick_word_def)

lemma seed_name: "cr_name (seed_request draws) \<in> set task_names"
  using pick_word_in [of task_names "draws 0"]
  by (simp add: seed_request_def random_task_def Let_def task_names_def)

lemma seeder_creates_nothing:
  assumes "\<forall>k. \<exists>en. call k = admin_conn cfg en (admin_token cfg)" and "0 < n"
  shows "\<exists>m. seed_batch call draws k n s = (Some (InvalidArgument, m), s)"
proof -
  obtain en where en: "call k = admin_conn cfg en (admin_token cfg)" using assms(1) by blast
  have name: "cr_name (seed_request (draws k)) \<noteq> []" "length (cr_name (seed_request (draws k))) \<le> max_name_len"
    using seed_name [of "draws k"] by (auto simp: task_names_def max_name_len_def)
  have "cr_max_attempts (seed_request (draws k)) = 3"
    "\<exists>j. cr_payload (seed_request (draws k)) = RawDoc j"
    by (simp_all add: seed_request_def random_task_def Let_def)
  then have "rpc_create_task (show_uuid cfg) en (seed_request (draws k)) s =
      (Inl (InvalidArgument, invalid_input_text NoInstructions), s)"
    using name seed_request_invalid [of "draws k"]
    by (auto simp: rpc_create_task_def create_task_def create_input_def reply_def)
  then show ?thesis
    using assms(2) en
    by (cases n) (simp_all add: call_detail_def typed_def admin_conn_dispatch as_def)
qed

end
