(* ===== verification/Demo_Main.thy ===== *)
theory Demo_Main
  imports Demo Go_Duration
begin

section \<open>Starting the demo client\<close>

text \<open>
  main, the readers of the environment and the first halves of runWorker and runSeeder in
  cmd/demo/main.go. \<open>getenv\<close> is the environment (empty for an unset variable), \<open>dial\<close> says whether
  \<open>grpc.NewClient\<close> accepts an address and a token, \<open>draw\<close> is the random number behind a made-up
  worker id. The worker's heartbeat interval is only kept: the heartbeats run beside the loop. (If it
  is not positive, their goroutine panics in \<open>time.NewTicker\<close> at some moment after the first claim, and
  ends the process; the loop is that of a positive interval.)
\<close>

type_synonym environment = "string \<Rightarrow> string"

definition env_required :: "environment \<Rightarrow> string \<Rightarrow> string + string" where
  "env_required getenv key =
     (let v = getenv key in
      if v = [] then Inl (''required env var '' @ key @ '' is empty'') else Inr v)"

definition env_duration :: "environment \<Rightarrow> string \<Rightarrow> int \<Rightarrow> int" where
  "env_duration getenv key dflt =
     (let v = getenv key in
      if v = [] then dflt else case parse_duration v of None \<Rightarrow> dflt | Some d \<Rightarrow> d)"

definition env_int :: "environment \<Rightarrow> string \<Rightarrow> int \<Rightarrow> int" where
  "env_int getenv key dflt =
     (let v = getenv key in
      if v = [] then dflt else case atoi v of None \<Rightarrow> dflt | Some n \<Rightarrow> n)"

text \<open>The verb \<open>%04d\<close> for a number below 10000.\<close>

definition four_digits :: "nat \<Rightarrow> string" where
  "four_digits n = (let s = nat_digits n in replicate (4 - length s) CHR ''0'' @ s)"

record demo_worker_config =
  dmw_addr :: string
  dmw_token :: string
  dmw_id :: string
  dmw_poll :: int
  dmw_heartbeat :: int
  dmw_min_work :: int
  dmw_max_work :: int
  dmw_fail_pct :: int

record demo_seeder_config =
  dms_addr :: string
  dms_token :: string
  dms_interval :: int
  dms_burst :: int
  dms_target :: int

definition worker_settings :: "environment \<Rightarrow> nat \<Rightarrow> string + demo_worker_config" where
  "worker_settings getenv draw =
     (case env_required getenv ''MASTERMIND_ADDR'' of Inl e \<Rightarrow> Inl e | Inr addr \<Rightarrow>
     (case env_required getenv ''WORKER_TOKEN'' of Inl e \<Rightarrow> Inl e | Inr token \<Rightarrow>
      Inr \<lparr>dmw_addr = addr, dmw_token = token,
        dmw_id = (if getenv ''WORKER_ID'' = [] then ''demo-'' @ four_digits (draw mod 10000)
                  else getenv ''WORKER_ID''),
        dmw_poll = env_duration getenv ''POLL_INTERVAL'' 1500000000,
        dmw_heartbeat = env_duration getenv ''HEARTBEAT_INTERVAL'' 5000000000,
        dmw_min_work = env_duration getenv ''DEMO_MIN_WORK'' 6000000000,
        dmw_max_work = env_duration getenv ''DEMO_MAX_WORK'' 18000000000,
        dmw_fail_pct = env_int getenv ''DEMO_FAIL_PCT'' 5\<rparr>))"

definition seeder_settings :: "environment \<Rightarrow> string + demo_seeder_config" where
  "seeder_settings getenv =
     (case env_required getenv ''MASTERMIND_ADDR'' of Inl e \<Rightarrow> Inl e | Inr addr \<Rightarrow>
     (case env_required getenv ''ADMIN_TOKEN'' of Inl e \<Rightarrow> Inl e | Inr token \<Rightarrow>
      Inr \<lparr>dms_addr = addr, dms_token = token,
        dms_interval = env_duration getenv ''SEEDER_INTERVAL'' 8000000000,
        dms_burst = env_int getenv ''SEEDER_BURST'' 2,
        dms_target = env_int getenv ''SEEDER_TARGET_BACKLOG'' 12\<rparr>))"

text \<open>A process ends at once with an exit code, or runs a loop; a loop that its context ends returns
  \<open>context.Canceled\<close>, which counts as success.\<close>

datatype demo_start = DemoExit int | DemoWorker demo_worker_config | DemoSeeder demo_seeder_config

definition demo_main :: "environment \<Rightarrow> nat \<Rightarrow> (string \<Rightarrow> string \<Rightarrow> bool) \<Rightarrow> string list \<Rightarrow> demo_start" where
  "demo_main getenv draw dial args =
     (case args of
        [] \<Rightarrow> DemoExit 2
      | cmd # rest \<Rightarrow>
          if cmd = ''worker'' then
            (case worker_settings getenv draw of
               Inl e \<Rightarrow> DemoExit 1
             | Inr c \<Rightarrow> if dial (dmw_addr c) (dmw_token c) then DemoWorker c else DemoExit 1)
          else if cmd = ''seeder'' then
            (case seeder_settings getenv of
               Inl e \<Rightarrow> DemoExit 1
             | Inr c \<Rightarrow> if dial (dms_addr c) (dms_token c) then DemoSeeder c else DemoExit 1)
          else if cmd \<in> {''-h'', ''--help'', ''help''} then DemoExit 0
          else DemoExit 2)"

text \<open>The loops with their settings. A seeder whose interval is not positive panics in
  \<open>time.NewTicker\<close> after its first batch.\<close>

definition run_demo_worker ::
  "int option \<Rightarrow> (nat \<Rightarrow> nat \<Rightarrow> nat) \<Rightarrow> net \<Rightarrow> (int \<Rightarrow> nat) \<Rightarrow> demo_worker_config \<Rightarrow> runner \<Rightarrow> runner option" where
  "run_demo_worker stop draws net lag c =
     demo_worker stop draws net lag (dmw_id c) (dmw_poll c) (dmw_min_work c) (dmw_max_work c) (dmw_fail_pct c)"

datatype 'a or_panic = Panicked 'a | Returned 'a

definition run_demo_seeder ::
  "(nat \<Rightarrow> client) \<Rightarrow> (nat \<Rightarrow> nat \<Rightarrow> nat) \<Rightarrow> (client \<times> (nat \<Rightarrow> client) \<times> (nat \<Rightarrow> nat \<Rightarrow> nat)) list
     \<Rightarrow> demo_seeder_config \<Rightarrow> sys \<Rightarrow> sys or_panic" where
  "run_demo_seeder call draws ticks c s =
     (if dms_interval c \<le> 0 then Panicked (run_seeder call draws [] (dms_burst c) (dms_target c) s)
      else Returned (run_seeder call draws ticks (dms_burst c) (dms_target c) s))"

text \<open>Malformed values fall back to the defaults without a word; a duration of zero does not, and
  stops the seeder.\<close>

lemma malformed_is_default:
  "parse_duration (getenv key) = None \<Longrightarrow> env_duration getenv key dflt = dflt"
  "atoi (getenv key') = None \<Longrightarrow> env_int getenv key' n = n"
  by (simp_all add: env_duration_def env_int_def Let_def)

lemma zero_interval_panics:
  assumes "getenv ''MASTERMIND_ADDR'' \<noteq> []" and "getenv ''ADMIN_TOKEN'' \<noteq> []"
    and "getenv ''SEEDER_INTERVAL'' = ''0s''" and "\<And>a t. dial a t"
  shows "\<exists>c. demo_main getenv draw dial [''seeder''] = DemoSeeder c \<and>
    run_demo_seeder call draws ticks c s = Panicked (run_seeder call draws [] (dms_burst c) (dms_target c) s)"
proof -
  have "itoa 0 = ''0''" by code_simp
  then have "parse_duration ''0s'' = Some 0"
    using parse_duration_unit [of "''s''" 1000000000 0] by (simp add: unit_map_def)
  then have "env_duration getenv ''SEEDER_INTERVAL'' 8000000000 = 0"
    by (simp add: env_duration_def assms(3))
  then show ?thesis
    using assms by (simp add: demo_main_def seeder_settings_def env_required_def run_demo_seeder_def)
qed

end
