(* ===== verification/System.thy ===== *)
theory System
  imports Admin_Client Http_Server
begin

section \<open>Mastermind as a whole\<close>

text \<open>
  cmd/mastermind runs the gRPC server, the admin pages, the reaper and the sampler of the pending
  gauge over one database; \<open>sys_reachable\<close> are the states that their steps produce in any order.
  A step of the pages is one request, with its clock readings and database answers.
\<close>

inductive sys_reachable :: "config \<Rightarrow> web \<Rightarrow> sys \<Rightarrow> bool" for cfg env where
  boot: "sys_reachable cfg env \<lparr>sys_db = empty_db, sys_metrics = zero_metrics\<rparr>"
| rpc: "sys_reachable cfg env s \<Longrightarrow> sys_reachable cfg env (snd (serves cfg en md req s))"
| web: "sys_reachable cfg env s \<Longrightarrow>
    sys_reachable cfg env (s\<lparr>sys_db := snd (http_serve env files prom clock ens rq (sys_db s))\<rparr>)"
| reap: "sys_reachable cfg env s \<Longrightarrow> sys_reachable cfg env (reaper_tick en (visibility cfg) s)"
| sample: "sys_reachable cfg env s \<Longrightarrow> sys_reachable cfg env (sample_pending en s)"

lemma at_most_one_cmd_reachable: "at_most_one_cmd en d d' \<Longrightarrow> reachable d \<Longrightarrow> reachable d'"
  by (auto simp: at_most_one_cmd_def intro: reachable.step)



subsection \<open>What a caller gets\<close>

text \<open>A TaskDetail that shows a stored row, none of its numbers truncated to 32 bits and its status a
  word the service itself understands.\<close>

definition shows_row :: "(uuid \<Rightarrow> string) \<Rightarrow> db \<Rightarrow> task_detail \<Rightarrow> bool" where
  "shows_row shw d td \<longleftrightarrow>
     (\<exists>t \<in> set (tasks d). td = to_task_detail shw t \<and> td_priority td = t_priority t \<and>
        td_attempt_count td = t_attempt_count t \<and> td_max_attempts td = t_max_attempts t \<and>
        parse_status (td_status td) = Some (t_status t))"

lemma shows_rowI: "db_wf d \<Longrightarrow> t \<in> set (tasks d) \<Longrightarrow> shows_row shw d (to_task_detail shw t)"
  unfolding shows_row_def db_wf_def task_wf_def
  by (intro bexI [of _ t]) (auto simp: to_task_detail_def to_int32_id)

text \<open>The message each method answers with.\<close>

definition answers :: "(uuid \<Rightarrow> string) \<Rightarrow> db \<Rightarrow> request \<Rightarrow> response \<Rightarrow> bool" where
  "answers shw d req r \<longleftrightarrow>
     (case r of
        RespTask wt \<Rightarrow>
          (\<exists>w. req = ReqClaimTask w \<and>
             (\<exists>t \<in> set (tasks d). t_claimed_by t = Some w \<and> t_status t = Claimed \<and>
                wt = \<lparr>w_id = shw (t_id t), w_name = t_name t, w_payload = t_payload t\<rparr>))
      | RespDetail td \<Rightarrow>
          (case req of
             ReqCreateTask _ \<Rightarrow> True | ReqGetTask _ \<Rightarrow> True | ReqRetryTask _ \<Rightarrow> True
           | ReqRequestReview _ \<Rightarrow> True | ReqFinalizeTask _ _ \<Rightarrow> True | _ \<Rightarrow> False) \<and>
          shows_row shw d td
      | RespDetails tds n \<Rightarrow>
          (\<exists>st limit offset. req = ReqListTasks st limit offset) \<and> length tds \<le> 500 \<and>
          list_all (shows_row shw d) tds
      | RespLogs ls \<Rightarrow>
          (\<exists>i limit. req = ReqListTaskLogs i limit) \<and>
          list_all (\<lambda>l. \<exists>e \<in> set (task_logs d). l = \<lparr>wl_id = l_id e, wl_task_id = shw (l_task_id e),
             wl_message = l_message e, wl_created_at = l_created_at e\<rparr>) ls
      | RespWorkers ws \<Rightarrow> req = ReqListWorkers
      | RespLogId n \<Rightarrow>
          (\<exists>w i msg. req = ReqAppendLog w i msg) \<and> n \<in> l_id ` set (task_logs d)
      | RespEmpty \<Rightarrow>
          (case req of
             ReqHeartbeat _ _ \<Rightarrow> True | ReqReportResult _ _ _ \<Rightarrow> True | ReqUpdateProgress _ _ _ \<Rightarrow> True
           | ReqSetJiraURL _ _ _ \<Rightarrow> True | ReqOpenPR _ _ _ \<Rightarrow> True | ReqCancelTask _ \<Rightarrow> True
           | _ \<Rightarrow> False))"

lemma update_or_row:
  "fst (update_or (exec_update en k r p f d) miss) = Inr t \<Longrightarrow>
     t \<in> set (tasks (snd (update_or (exec_update en k r p f d) miss)))"
  by (auto simp: update_or_def exec_update_def sql_returning_def set_sql_update filter_eq_Cons_iff
      split: option.splits if_splits list.splits)

lemma create_task_row:
  "fst (create_task en inp d) = Inr t \<Longrightarrow> t \<in> set (tasks (snd (create_task en inp d)))"
  by (auto simp: create_task_def Let_def split: option.splits if_splits)

lemma set_page: "set (page n k rows) \<subseteq> set rows"
  unfolding page_def by (meson order_trans set_drop_subset set_take_subset)

lemma length_page: "length (page n k rows) \<le> nat n"
  by (simp add: page_def)

lemma fetch_take: "\<exists>n. fst (fetch en k rows) = take n rows"
  by (cases "row_fault en k") (auto simp: fetch_def intro: exI [of _ "length rows"])

lemma list_tasks_rows:
  assumes "list_tasks en f d = Inr (items, n)"
  shows "set items \<subseteq> set (tasks d) \<and> length items \<le> 500"
proof -
  obtain rows where rows: "where_status (f_status f) (tasks d) = Some rows"
    using assms by (auto simp: list_tasks_def Let_def split: option.splits)
  then have sub: "set rows \<subseteq> set (tasks d)"
    by (auto simp: where_status_def split: option.splits)
  let ?page = "page (clamp_limit (f_limit f)) (f_offset f) (newest_first rows)"
  obtain m where "items = [] \<or> items = take m ?page"
    using assms rows fetch_take [of en 0 ?page]
    by (auto simp: list_tasks_def Let_def split: option.splits if_splits)
  moreover have "set (take m ?page) \<subseteq> set (tasks d)"
    using set_take_subset [of m ?page] set_page [of "clamp_limit (f_limit f)" "f_offset f" "newest_first rows"] sub
    by (auto simp: newest_first_def)
  moreover have "length (take m ?page) \<le> 500"
    using length_page [of "clamp_limit (f_limit f)" "f_offset f" "newest_first rows"]
    by (auto simp: clamp_limit_def split: if_splits)
  ultimately show ?thesis by auto
qed

lemma list_task_logs_rows: "list_task_logs en k i limit d = Inr ls \<Longrightarrow> set ls \<subseteq> set (task_logs d)"
  by (auto simp: list_task_logs_def fetch_def Let_def split: option.splits if_splits dest: in_set_takeD)

lemma append_task_log_row:
  "fst (append_task_log en w i msg d) = Inr l \<Longrightarrow> l \<in> set (task_logs (snd (append_task_log en w i msg d)))"
  by (auto simp: append_task_log_def append_commit_def Let_def split: sum.splits option.splits if_splits)

lemma get_task_row: "get_task en k i d = Inr t \<Longrightarrow> t \<in> set (tasks d)"
  by (auto simp: get_task_def split: option.splits dest: find_key_SomeD)

lemma detail_after_row:
  assumes "detail_after shw what en i res = (Inr td, s')"
  shows "\<exists>t \<in> set (tasks (sys_db s')). td = to_task_detail shw t"
  using assms by (auto simp: detail_after_def split: prod.splits sum.splits dest: get_task_row)

lemma reply_Inr: "reply c s res = (Inr x, s') \<longleftrightarrow> fst res = Inr x \<and> s' = s\<lparr>sys_db := snd res\<rparr>"
  by (cases "fst res") (auto simp: reply_def)

lemma detail_rpcs_row:
  "rpc_create_task shw en cr s = (Inr td, s') \<Longrightarrow> \<exists>t \<in> set (tasks (sys_db s')). td = to_task_detail shw t"
  "rpc_get_task parse shw en i s = (Inr td, s') \<Longrightarrow> \<exists>t \<in> set (tasks (sys_db s')). td = to_task_detail shw t"
  "rpc_retry_task parse shw en i s = (Inr td, s') \<Longrightarrow> \<exists>t \<in> set (tasks (sys_db s')). td = to_task_detail shw t"
  "rpc_request_review parse shw en i s = (Inr td, s') \<Longrightarrow>
     \<exists>t \<in> set (tasks (sys_db s')). td = to_task_detail shw t"
  "rpc_finalize_task parse shw en i out s = (Inr td, s') \<Longrightarrow>
     \<exists>t \<in> set (tasks (sys_db s')). td = to_task_detail shw t"
proof -
  show "rpc_create_task shw en cr s = (Inr td, s') \<Longrightarrow> \<exists>t \<in> set (tasks (sys_db s')). td = to_task_detail shw t"
    by (auto simp: rpc_create_task_def reply_Inr split: if_splits raw_json.splits prod.splits sum.splits
        dest!: create_task_row)
  show "rpc_get_task parse shw en i s = (Inr td, s') \<Longrightarrow> \<exists>t \<in> set (tasks (sys_db s')). td = to_task_detail shw t"
    by (auto simp: rpc_get_task_def split: option.splits sum.splits dest: get_task_row)
  show "rpc_retry_task parse shw en i s = (Inr td, s') \<Longrightarrow> \<exists>t \<in> set (tasks (sys_db s')). td = to_task_detail shw t"
    by (auto simp: rpc_retry_task_def reply_Inr requeue_task_def split: option.splits prod.splits sum.splits
        dest!: update_or_row)
  show "rpc_request_review parse shw en i s = (Inr td, s') \<Longrightarrow>
     \<exists>t \<in> set (tasks (sys_db s')). td = to_task_detail shw t"
    by (auto simp: rpc_request_review_def split: option.splits dest: detail_after_row)
  show "rpc_finalize_task parse shw en i out s = (Inr td, s') \<Longrightarrow>
     \<exists>t \<in> set (tasks (sys_db s')). td = to_task_detail shw t"
    by (cases out) (auto simp: rpc_finalize_task_def Let_def split: option.splits dest: detail_after_row)
qed

lemma claim_rpc_row:
  assumes "distinct (ids (sys_db s))" and "rpc_claim shw en w s = (Inr wt, s')"
  shows "\<exists>t \<in> set (tasks (sys_db s')). t_claimed_by t = Some w \<and> t_status t = Claimed \<and>
    wt = \<lparr>w_id = shw (t_id t), w_name = t_name t, w_payload = t_payload t\<rparr>"
proof -
  obtain t where claim: "claim_task en w (sys_db s) = (Inr (Some t), sys_db s')"
    and wt: "wt = \<lparr>w_id = shw (t_id t), w_name = t_name t, w_payload = t_payload t\<rparr>"
    using assms(2)
    by (auto simp: rpc_claim_def Let_def split: if_splits prod.splits sum.splits option.splits)
  from claim_task_SomeD [OF assms(1) claim] obtain c where "c \<in> set (tasks (sys_db s))"
    "t = claim_row w (now_at en) c"
    "sys_db s' = (sys_db s)\<lparr>tasks := sql_update (\<lambda>t. t_id t = t_id c) (claim_row w (now_at en)) (tasks (sys_db s))\<rparr>"
    by metis
  then have "t \<in> set (tasks (sys_db s'))" and "t_claimed_by t = Some w" and "t_status t = Claimed"
    by (auto simp: set_sql_update claim_row_def)
  with wt show ?thesis by blast
qed

lemma dispatch_answers:
  assumes "db_wf (sys_db s)" and "dispatch parse shw en req s = (Inr r, s')"
  shows "answers shw (sys_db s') req r"
proof -
  have wf: "db_wf (sys_db s')"
    using assms dispatch_exec [of en s parse shw req] by (auto simp: at_most_one_cmd_def exec_db_wf)
  have as_Inr: "as f res = (Inr x, s') \<Longrightarrow> \<exists>y. res = (Inr y, s') \<and> x = f y"
    for f :: "'x \<Rightarrow> response" and res x by (cases "fst res"; cases res) (auto simp: as_def)
  show ?thesis
  proof (cases req)
    case (ReqClaimTask w)
    with assms show ?thesis
      by (auto simp: answers_def dest!: as_Inr dest: claim_rpc_row [OF db_wf_distinct])
  next
    case (ReqCreateTask cr)
    with assms show ?thesis
      by (auto simp: answers_def dest!: as_Inr detail_rpcs_row(1) intro: shows_rowI [OF wf])
  next
    case (ReqGetTask i)
    with assms show ?thesis
      by (auto simp: answers_def dest!: as_Inr detail_rpcs_row(2) intro: shows_rowI [OF wf])
  next
    case (ReqRetryTask i)
    with assms show ?thesis
      by (auto simp: answers_def dest!: as_Inr detail_rpcs_row(3) intro: shows_rowI [OF wf])
  next
    case (ReqRequestReview i)
    with assms show ?thesis
      by (auto simp: answers_def dest!: as_Inr detail_rpcs_row(4) intro: shows_rowI [OF wf])
  next
    case (ReqFinalizeTask i out)
    with assms show ?thesis
      by (auto simp: answers_def dest!: as_Inr detail_rpcs_row(5) intro: shows_rowI [OF wf])
  next
    case (ReqListTasks st limit offset)
    with assms show ?thesis
      by (auto simp: answers_def rpc_list_tasks_def list_all_iff split: if_splits sum.splits
          dest!: as_Inr list_tasks_rows intro!: shows_rowI [OF wf])
  next
    case (ReqListTaskLogs i limit)
    with assms show ?thesis
      by (auto simp: answers_def rpc_list_task_logs_def list_all_iff split: option.splits if_splits sum.splits
          dest!: as_Inr list_task_logs_rows) blast
  next
    case (ReqAppendLog w i msg)
    with assms show ?thesis
      by (auto simp: answers_def rpc_append_log_def reply_Inr split: option.splits if_splits prod.splits sum.splits
          dest!: as_Inr append_task_log_row)
  qed (use assms(2) in \<open>auto simp: answers_def dest!: as_Inr\<close>)
qed

text \<open>C37: Answers are well-typed: every successful RPC on a well-formed database answers with the
  message of its method (so the generated stubs never see another), every task in an answer is a
  stored row as it is after the call, its numbers are shown untruncated although the code
  converts them to int32, its status is a word the service's own filter accepts, and a page has
  at most 500 tasks; a claim's answer is a task claimed by the caller.\<close>

theorem responses_typed:
  assumes "db_wf (sys_db s)" and "serves cfg en md req s = (Inr r, s')"
  shows "answers (show_uuid cfg) (sys_db s') req r"
proof -
  have "dispatch (parse_uuid cfg) (show_uuid cfg) en req s = (Inr r, s')"
    using serve_cases [of cfg en md req s] assms(2) by auto
  with assms(1) show ?thesis by (rule dispatch_answers)
qed

lemma responses_typed_witness:
  "answers (show_uuid number_config)
     (sys_db (snd (serves number_config (calm 5 0) (bearer_metadata ''at'') (ReqGetTask ''11'')
        \<lparr>sys_db = sample_db, sys_metrics = zero_metrics\<rparr>)))
     (ReqGetTask ''11'') (RespDetail (to_task_detail (show_uuid number_config) (sample_task 2 Claimed)))"
proof -
  let ?s = "\<lparr>sys_db = sample_db, sys_metrics = zero_metrics\<rparr>"
  have "admin_token number_config = ''at''" "parse_uuid number_config ''11'' = Some 2"
    by (simp_all add: number_config_def sample_config_def)
  then have run: "serves number_config (calm 5 0) (bearer_metadata ''at'') (ReqGetTask ''11'') ?s =
      (Inr (RespDetail (to_task_detail (show_uuid number_config) (sample_task 2 Claimed))), ?s)"
    using admin_conn_dispatch [of "ReqGetTask ''11''" number_config "calm 5 0" ?s]
    by (simp add: admin_conn_def rpc_get_task_def as_def sample_find)
  from responses_typed [OF _ run] show ?thesis by (simp add: run sample_db_wf)
qed

end
