(* ===== verification/Boot.thy ===== *)
theory Boot
  imports System
begin

section \<open>Configuration and start\<close>

text \<open>
  config/config.go and the start of cmd/mastermind and cmd/worker. What envconfig reads from the
  environment (or its error) is an argument; \<open>load_mastermind\<close> and \<open>load_worker\<close> are the checks after
  it. \<open>boot\<close> runs the steps of mastermind's \<open>run\<close> up to its servers, given the outcome of the
  migrations, of opening the database and of listening; \<open>boot_config\<close> and \<open>boot_web\<close> are what the
  servers are started with.
\<close>

record mastermind_config =
  mc_database_url :: string
  mc_grpc_addr :: string
  mc_http_addr :: string
  mc_worker_token :: string
  mc_admin_user :: string
  mc_admin_password :: string
  mc_admin_token :: string
  mc_visibility :: int
  mc_reaper_interval :: int
  mc_log_level :: string
  mc_log_format :: string

record worker_config =
  wc_mastermind_addr :: string
  wc_worker_token :: string
  wc_poll :: int
  wc_heartbeat :: int
  wc_mcp_addr :: string
  wc_log_level :: string
  wc_log_format :: string

definition missing_key :: "string \<Rightarrow> string" where
  "missing_key k = ''required key '' @ k @ '' missing value''"

definition load_mastermind :: "string + mastermind_config \<Rightarrow> string + mastermind_config" where
  "load_mastermind processed =
     (case processed of
        Inl e \<Rightarrow> Inl e
      | Inr c \<Rightarrow>
          if mc_database_url c = [] then Inl (missing_key ''DATABASE_URL'')
          else if mc_worker_token c = [] then Inl (missing_key ''WORKER_TOKEN'')
          else if mc_admin_user c = [] then Inl (missing_key ''ADMIN_USER'')
          else if mc_admin_password c = [] then Inl (missing_key ''ADMIN_PASSWORD'')
          else if mc_admin_token c = [] then Inl (missing_key ''ADMIN_TOKEN'')
          else Inr c)"

definition load_worker :: "string + worker_config \<Rightarrow> string + worker_config" where
  "load_worker processed =
     (case processed of
        Inl e \<Rightarrow> Inl e
      | Inr c \<Rightarrow>
          if wc_mastermind_addr c = [] then Inl (missing_key ''MASTERMIND_ADDR'')
          else if wc_worker_token c = [] then Inl (missing_key ''WORKER_TOKEN'')
          else Inr c)"

definition boot ::
  "string + mastermind_config \<Rightarrow> string option \<Rightarrow> string option \<Rightarrow> string option
     \<Rightarrow> string + mastermind_config" where
  "boot processed migrated opened listening =
     (case load_mastermind processed of
        Inl e \<Rightarrow> Inl e
      | Inr c \<Rightarrow>
          (case migrated of Some e \<Rightarrow> Inl e | None \<Rightarrow>
          (case opened of Some e \<Rightarrow> Inl e | None \<Rightarrow>
          (case listening of Some e \<Rightarrow> Inl e | None \<Rightarrow> Inr c))))"

definition boot_config ::
  "(string \<Rightarrow> uuid option) \<Rightarrow> (uuid \<Rightarrow> string) \<Rightarrow> mastermind_config \<Rightarrow> config" where
  "boot_config parse shw c =
     \<lparr>worker_token = mc_worker_token c, admin_token = mc_admin_token c, visibility = mc_visibility c,
      parse_uuid = parse, show_uuid = shw\<rparr>"

definition boot_web :: "web \<Rightarrow> mastermind_config \<Rightarrow> web" where
  "boot_web env c = env\<lparr>web_user := mc_admin_user c, web_password := mc_admin_password c\<rparr>"

lemma boot_secrets:
  assumes "boot processed migrated opened listening = Inr c"
  shows "mc_worker_token c \<noteq> []" "mc_admin_token c \<noteq> []" "mc_admin_user c \<noteq> []" "mc_admin_password c \<noteq> []"
  using assms
  by (auto simp: boot_def load_mastermind_def split: sum.splits option.splits if_splits)

text \<open>A caller without a token.\<close>

definition anonymous :: "metadata \<Rightarrow> bool" where
  "anonymous md \<longleftrightarrow>
     (case md of
        None \<Rightarrow> True
      | Some m \<Rightarrow> (case m authorization of [] \<Rightarrow> True | v # _ \<Rightarrow> v \<in> {[], bearer_prefix}))"

lemma anonymous_presents: "anonymous md \<Longrightarrow> presents md t \<Longrightarrow> t = []"
  using trim_prefix_append [of bearer_prefix "[]"]
  by (auto simp: anonymous_def presents_def trim_prefix_def [of "[]"] split: list.splits)


definition sample_mastermind :: mastermind_config where
  "sample_mastermind =
     \<lparr>mc_database_url = ''db'', mc_grpc_addr = '':50051'', mc_http_addr = '':8080'',
      mc_worker_token = ''wt'', mc_admin_user = ''u'', mc_admin_password = ''p'',
      mc_admin_token = ''at'', mc_visibility = 30000000000, mc_reaper_interval = 10000000000,
      mc_log_level = ''info'', mc_log_format = ''json''\<rparr>"


end
