(* ===== verification/Cli.thy ===== *)
theory Cli
  imports Admin_Client Cli_Flags
begin

section \<open>elpulpo, the operators' command line\<close>

text \<open>
  cli/cli.go, tasks.go, workers.go and format.go. A subcommand reads its arguments (a pure function
  into a request, in the order of the code's checks), dials mastermind, sends one RPC and prints
  the answer. \<open>cli\<close> holds the environment: the two variables that are checked, what envconfig says
  of the others, the standard input and the files a payload can come from, encoding/json's decoder
  and compaction, RFC 3339 times, and the channel that dialing gives. Printed is the JSON value
  or the rows of the table; tabwriter's column widths and JSON's indentation are not modelled, nor
  the texts of wrapped library errors and quoted arguments in messages.
\<close>

record cli =
  cl_env_error :: "string option"
  cl_addr :: string
  cl_token :: string
  cl_stdin :: "string option"
  cl_file :: "string \<Rightarrow> string option"
  cl_json :: "string \<Rightarrow> raw_json"
  cl_compact :: "json \<Rightarrow> string"
  cl_read_time :: "string \<Rightarrow> time option"
  cl_show_time :: "time \<Rightarrow> string"
  cl_dial :: "string \<Rightarrow> string \<Rightarrow> client option"

datatype cli_error = CliError string | CliFlags flag_error

datatype cli_output =
    OutHelp
  | OutText string
  | OutJson json
  | OutRows "string list" "(string \<times> string) list"
  | OutTable "string list list" string

definition new_admin_client :: "cli \<Rightarrow> cli_error + client" where
  "new_admin_client c =
     (if cl_addr c = [] then Inl (CliError ''MASTERMIND_ADDR is required'')
      else if cl_token c = [] then Inl (CliError ''ADMIN_TOKEN is required'')
      else case cl_dial c (cl_addr c) (cl_token c) of
        None \<Rightarrow> Inl (CliError (''dial '' @ cl_addr c @ '': ''))
      | Some call \<Rightarrow> Inr call)"

subsection \<open>Output\<close>

definition opt_row :: "string \<Rightarrow> string \<Rightarrow> (string \<times> string) list" where
  "opt_row k v = (if v = [] then [] else [(k, v)])"

definition opt_time_row :: "cli \<Rightarrow> string \<Rightarrow> time option \<Rightarrow> (string \<times> string) list" where
  "opt_time_row c k t = (case t of None \<Rightarrow> [] | Some x \<Rightarrow> [(k, cl_show_time c x)])"

definition task_rows :: "cli \<Rightarrow> task_detail \<Rightarrow> (string \<times> string) list" where
  "task_rows c t =
     [(''ID'', td_id t), (''Name'', td_name t), (''Status'', td_status t),
      (''Priority'', itoa (td_priority t)),
      (''Attempts'', itoa (td_attempt_count t) @ '' / '' @ itoa (td_max_attempts t))] @
     opt_row ''Claimed by'' (td_claimed_by t) @
     opt_time_row c ''Scheduled for'' (td_scheduled_for t) @
     opt_time_row c ''Last heartbeat'' (td_last_heartbeat_at t) @
     opt_time_row c ''Completed'' (td_completed_at t) @
     opt_row ''Last error'' (td_last_error t) @
     opt_row ''JIRA'' (td_jira_url t) @
     opt_row ''GitHub PR'' (td_github_pr_url t) @
     [(''Created'', cl_show_time c (td_created_at t)),
      (''Updated'', cl_show_time c (td_updated_at t))] @
     opt_row ''Payload'' (cl_compact c (td_payload t))"

definition opt_member :: "string \<Rightarrow> string \<Rightarrow> (string \<times> json) list" where
  "opt_member k v = (if v = [] then [] else [(k, JStr v)])"

definition opt_time_member :: "cli \<Rightarrow> string \<Rightarrow> time option \<Rightarrow> (string \<times> json) list" where
  "opt_time_member c k t = (case t of None \<Rightarrow> [] | Some x \<Rightarrow> [(k, JStr (cl_show_time c x))])"

text \<open>A map is marshalled in the order of its keys.\<close>

definition proto_task_to_json :: "cli \<Rightarrow> task_detail \<Rightarrow> json" where
  "proto_task_to_json c t =
     JObj (sort_key fst
       ([(''id'', JStr (td_id t)), (''name'', JStr (td_name t)),
         (''priority'', JNum (itoa (td_priority t))), (''status'', JStr (td_status t)),
         (''attempt_count'', JNum (itoa (td_attempt_count t))),
         (''max_attempts'', JNum (itoa (td_max_attempts t))),
         (''created_at'', JStr (cl_show_time c (td_created_at t))),
         (''updated_at'', JStr (cl_show_time c (td_updated_at t))),
         (''payload'', go_any (td_payload t))] @
        opt_member ''claimed_by'' (td_claimed_by t) @
        opt_member ''last_error'' (td_last_error t) @
        opt_member ''jira_url'' (td_jira_url t) @
        opt_member ''github_pr_url'' (td_github_pr_url t) @
        opt_time_member c ''scheduled_for'' (td_scheduled_for t) @
        opt_time_member c ''claimed_at'' (td_claimed_at t) @
        opt_time_member c ''last_heartbeat_at'' (td_last_heartbeat_at t) @
        opt_time_member c ''completed_at'' (td_completed_at t)))"

definition emit_task :: "cli \<Rightarrow> task_detail \<Rightarrow> bool \<Rightarrow> string \<Rightarrow> cli_output" where
  "emit_task c t json_out lead =
     (if json_out then OutJson (proto_task_to_json c t)
      else OutRows (if lead = [] then [] else [lead]) (task_rows c t))"

definition dash_if_empty :: "string \<Rightarrow> string" where
  "dash_if_empty s = (if s = [] then ''-'' else s)"

definition render_tasks_table :: "cli \<Rightarrow> task_detail list \<Rightarrow> int \<Rightarrow> cli_output" where
  "render_tasks_table c items n =
     (if items = [] then OutText (''(no tasks; total='' @ itoa n @ '')'')
      else OutTable
        ([''ID'', ''STATUS'', ''NAME'', ''PRIORITY'', ''ATTEMPTS'', ''CLAIMED_BY'', ''UPDATED''] #
         map (\<lambda>t. [td_id t, td_status t, td_name t, itoa (td_priority t),
                   itoa (td_attempt_count t) @ ''/'' @ itoa (td_max_attempts t),
                   dash_if_empty (td_claimed_by t), cl_show_time c (td_updated_at t)]) items)
        (''(showing '' @ itoa (int (length items)) @ '' of '' @ itoa n @ '')''))"

definition format_timestamp :: "cli \<Rightarrow> time option \<Rightarrow> string" where
  "format_timestamp c t = (case t of None \<Rightarrow> ''-'' | Some x \<Rightarrow> cl_show_time c x)"

definition render_workers_table :: "cli \<Rightarrow> wire_worker list \<Rightarrow> cli_output" where
  "render_workers_table c items =
     (if items = [] then OutText ''(no workers have ever claimed a task)''
      else OutTable
        ([''WORKER_ID'', ''ACTIVE'', ''COMPLETED'', ''FAILED'', ''LAST_SEEN''] #
         map (\<lambda>w. [ww_id w, itoa (ww_active w), itoa (ww_completed w), itoa (ww_failed w),
                   format_timestamp c (ww_last_seen w)]) items) [])"

definition proto_worker_to_json :: "cli \<Rightarrow> wire_worker \<Rightarrow> json" where
  "proto_worker_to_json c w =
     JObj (sort_key fst
       ([(''id'', JStr (ww_id w)), (''active_tasks'', JNum (itoa (ww_active w))),
         (''completed_tasks'', JNum (itoa (ww_completed w))),
         (''failed_tasks'', JNum (itoa (ww_failed w)))] @
        opt_time_member c ''last_seen_at'' (ww_last_seen w)))"

definition code_text :: "code \<Rightarrow> string" where
  "code_text co =
     (case co of
        InvalidArgument \<Rightarrow> ''invalidargument'' | NotFound \<Rightarrow> ''notfound''
      | FailedPrecondition \<Rightarrow> ''failedprecondition'' | Internal \<Rightarrow> ''internal''
      | Unimplemented \<Rightarrow> ''unimplemented'' | Unauthenticated \<Rightarrow> ''unauthenticated''
      | Unavailable \<Rightarrow> ''unavailable'')"

definition format_err :: "rpc_error \<Rightarrow> cli_error" where
  "format_err e =
     CliError (case fst e of
       Unauthenticated \<Rightarrow> ''mastermind rejected admin token (check ADMIN_TOKEN)''
     | Unavailable \<Rightarrow> ''mastermind unreachable ('' @ snd e @ '')''
     | co \<Rightarrow> code_text co @ '': '' @ snd e)"

subsection \<open>Reading the arguments\<close>

text \<open>The value of --payload or --instructions, and what is left of the standard input.\<close>

definition read_payload :: "cli \<Rightarrow> string option \<Rightarrow> string \<Rightarrow> (cli_error + string) \<times> string option" where
  "read_payload c inp v =
     (if v = ''-'' then
        (case inp of
           None \<Rightarrow> (Inl (CliError ''read payload from stdin: ''), inp)
         | Some b \<Rightarrow> (Inr b, Some []))
      else if has_prefix v ''@'' then
        (case cl_file c (drop 1 v) of
           None \<Rightarrow> (Inl (CliError ''read payload file: ''), inp)
         | Some b \<Rightarrow> (Inr b, inp))
      else (Inr v, inp))"

definition create_payload :: "cli \<Rightarrow> string \<Rightarrow> string \<Rightarrow> cli_error + raw_json" where
  "create_payload c payload instructions =
     (case (if payload = [] then (Inr RawEmpty, cl_stdin c)
            else case read_payload c (cl_stdin c) payload of
              (Inl e, inp) \<Rightarrow> (Inl e, inp)
            | (Inr raw, inp) \<Rightarrow>
                ((case cl_json c raw of
                    RawDoc j \<Rightarrow> Inr (RawDoc j)
                  | _ \<Rightarrow> Inl (CliError ''--payload is not valid JSON: '')), inp)) of
        (Inl e, _) \<Rightarrow> Inl e
      | (Inr doc, inp) \<Rightarrow>
          if instructions = [] then Inr doc
          else case fst (read_payload c inp instructions) of
            Inl e \<Rightarrow> Inl e
          | Inr raw \<Rightarrow>
              (case doc of
                 RawDoc j \<Rightarrow>
                   (case go_any j of
                      JObj ms \<Rightarrow> Inr (RawDoc (JObj (set_member ''instructions'' (JStr raw) ms)))
                    | _ \<Rightarrow> Inl (CliError
                        ''--payload must be a JSON object when --instructions is also set''))
               | _ \<Rightarrow> Inr (RawDoc (JObj [(''instructions'', JStr raw)]))))"

definition create_flags :: flag_set where
  "create_flags =
     [(''name'', StringFlag), (''payload'', StringFlag), (''instructions'', StringFlag),
      (''priority'', IntFlag), (''max-attempts'', IntFlag), (''scheduled-for'', StringFlag),
      (''jira-url'', StringFlag), (''github-pr-url'', StringFlag), (''json'', BoolFlag)]"

definition read_schedule :: "cli \<Rightarrow> string \<Rightarrow> cli_error + time option" where
  "read_schedule c s =
     (if s = [] then Inr None
      else case cl_read_time c s of
        None \<Rightarrow> Inl (CliError ''--scheduled-for must be RFC3339: '')
      | Some t \<Rightarrow> Inr (Some t))"

definition create_plan :: "cli \<Rightarrow> string list \<Rightarrow> cli_error + create_request \<times> bool" where
  "create_plan c args =
     (case parse_flags create_flags args [] of
        Inl e \<Rightarrow> Inl (CliFlags e)
      | Inr (vs, _) \<Rightarrow>
          if string_flag ''name'' [] vs = [] then Inl (CliError ''--name is required'')
          else case create_payload c (string_flag ''payload'' [] vs) (string_flag ''instructions'' [] vs) of
            Inl e \<Rightarrow> Inl e
          | Inr doc \<Rightarrow>
              (case read_schedule c (string_flag ''scheduled-for'' [] vs) of
                 Inl e \<Rightarrow> Inl e
               | Inr sched \<Rightarrow>
                   Inr (\<lparr>cr_name = string_flag ''name'' [] vs, cr_payload = doc,
                         cr_priority = to_int32 (int_flag ''priority'' 0 vs),
                         cr_max_attempts = to_int32 (int_flag ''max-attempts'' 0 vs),
                         cr_scheduled_for = sched,
                         cr_jira_url = string_flag ''jira-url'' [] vs,
                         cr_github_pr_url = string_flag ''github-pr-url'' [] vs\<rparr>,
                        bool_flag ''json'' vs)))"

text \<open>A subcommand with one positional argument.\<close>

definition one_id :: "flag_set \<Rightarrow> string \<Rightarrow> string list \<Rightarrow> cli_error + string \<times> bool" where
  "one_id fs usage args =
     (case parse_flags fs args [] of
        Inl e \<Rightarrow> Inl (CliFlags e)
      | Inr (vs, [i]) \<Rightarrow> Inr (i, bool_flag ''json'' vs)
      | Inr _ \<Rightarrow> Inl (CliError usage))"

definition list_plan :: "string list \<Rightarrow> cli_error + request \<times> bool" where
  "list_plan args =
     (case parse_flags [(''status'', StringFlag), (''limit'', IntFlag), (''offset'', IntFlag),
         (''json'', BoolFlag)] args [] of
        Inl e \<Rightarrow> Inl (CliFlags e)
      | Inr (vs, _) \<Rightarrow>
          Inr (ReqListTasks (string_flag ''status'' [] vs) (to_int32 (int_flag ''limit'' 50 vs))
                 (to_int32 (int_flag ''offset'' 0 vs)),
               bool_flag ''json'' vs))"

text \<open>The loop of finalize before its flags are parsed: the first argument without a dash is the id.\<close>

definition dashed :: "string \<Rightarrow> bool" where
  "dashed a \<longleftrightarrow> has_prefix a ''-''"

fun extract_id :: "string list \<Rightarrow> string \<Rightarrow> string list \<Rightarrow> string \<times> string list" where
  "extract_id [] i rest = (i, rest)"
| "extract_id (a # args) i rest =
     (if \<not> dashed a \<and> i = [] then extract_id args a rest else extract_id args i (rest @ [a]))"

definition finalize_plan :: "string list \<Rightarrow> cli_error + request \<times> bool" where
  "finalize_plan args =
     (case extract_id args [] [] of (i, flag_args) \<Rightarrow>
        if i = []
        then Inl (CliError ''usage: elpulpo tasks finalize <id> --success | --fail \"reason\"'')
        else case parse_flags [(''success'', BoolFlag), (''fail'', StringFlag), (''json'', BoolFlag)]
               flag_args [] of
          Inl e \<Rightarrow> Inl (CliFlags e)
        | Inr (vs, _) \<Rightarrow>
            let success = bool_flag ''success'' vs; msg = string_flag ''fail'' [] vs in
            if success = (msg \<noteq> [])
            then Inl (CliError ''specify exactly one of --success or --fail \"reason\"'')
            else Inr (ReqFinalizeTask i (if success then OutcomeSuccess else OutcomeFailure msg),
                      bool_flag ''json'' vs))"

subsection \<open>Subcommands\<close>

type_synonym command = "sys \<Rightarrow> (cli_error + cli_output) \<times> sys"

text \<open>Dial, send the RPC, print its answer.\<close>

definition send ::
  "cli \<Rightarrow> (client \<Rightarrow> sys \<Rightarrow> (rpc_error + 'a) \<times> sys) \<Rightarrow> ('a \<Rightarrow> cli_output) \<Rightarrow> command" where
  "send c rpc out s =
     (case new_admin_client c of
        Inl e \<Rightarrow> (Inl e, s)
      | Inr call \<Rightarrow>
          (case rpc call s of
             (Inl e, s') \<Rightarrow> (Inl (format_err e), s')
           | (Inr x, s') \<Rightarrow> (Inr (out x), s')))"

definition tasks_create_cmd :: "cli \<Rightarrow> string list \<Rightarrow> command" where
  "tasks_create_cmd c args s =
     (case create_plan c args of
        Inl e \<Rightarrow> (Inl e, s)
      | Inr (req, json_out) \<Rightarrow>
          send c (\<lambda>call. call_detail call (ReqCreateTask req))
            (\<lambda>t. emit_task c t json_out (''created task '' @ td_id t @ '' ('' @ td_name t @ '')'')) s)"

definition tasks_get_cmd :: "cli \<Rightarrow> string list \<Rightarrow> command" where
  "tasks_get_cmd c args s =
     (case one_id [(''json'', BoolFlag)] ''usage: elpulpo tasks get <id>'' args of
        Inl e \<Rightarrow> (Inl e, s)
      | Inr (i, json_out) \<Rightarrow>
          send c (\<lambda>call. call_detail call (ReqGetTask i)) (\<lambda>t. emit_task c t json_out []) s)"

definition tasks_list_cmd :: "cli \<Rightarrow> string list \<Rightarrow> command" where
  "tasks_list_cmd c args s =
     (case list_plan args of
        Inl e \<Rightarrow> (Inl e, s)
      | Inr (req, json_out) \<Rightarrow>
          send c (\<lambda>call. call_list call req)
            (\<lambda>(items, n).
               if json_out
               then OutJson (JObj [(''items'', JArr (map (proto_task_to_json c) items)),
                                   (''total'', JNum (itoa n))])
               else render_tasks_table c items n) s)"

definition tasks_cancel_cmd :: "cli \<Rightarrow> string list \<Rightarrow> command" where
  "tasks_cancel_cmd c args s =
     (case one_id [] ''usage: elpulpo tasks cancel <id>'' args of
        Inl e \<Rightarrow> (Inl e, s)
      | Inr (i, _) \<Rightarrow>
          send c (\<lambda>call. call_empty call (ReqCancelTask i)) (\<lambda>_. OutText (''cancelled task '' @ i)) s)"

definition tasks_retry_cmd :: "cli \<Rightarrow> string list \<Rightarrow> command" where
  "tasks_retry_cmd c args s =
     (case one_id [(''json'', BoolFlag)] ''usage: elpulpo tasks retry <id>'' args of
        Inl e \<Rightarrow> (Inl e, s)
      | Inr (i, json_out) \<Rightarrow>
          send c (\<lambda>call. call_detail call (ReqRetryTask i))
            (\<lambda>t. emit_task c t json_out (''requeued task '' @ i)) s)"

definition tasks_request_review_cmd :: "cli \<Rightarrow> string list \<Rightarrow> command" where
  "tasks_request_review_cmd c args s =
     (case one_id [(''json'', BoolFlag)] ''usage: elpulpo tasks request-review <id>'' args of
        Inl e \<Rightarrow> (Inl e, s)
      | Inr (i, json_out) \<Rightarrow>
          send c (\<lambda>call. call_detail call (ReqRequestReview i))
            (\<lambda>t. emit_task c t json_out
                   (''requested review for '' @ td_id t @ '' ('' @ td_status t @ '')'')) s)"

definition tasks_finalize_cmd :: "cli \<Rightarrow> string list \<Rightarrow> command" where
  "tasks_finalize_cmd c args s =
     (case finalize_plan args of
        Inl e \<Rightarrow> (Inl e, s)
      | Inr (req, json_out) \<Rightarrow>
          send c (\<lambda>call. call_detail call req)
            (\<lambda>t. emit_task c t json_out (''finalized '' @ td_id t @ '' ('' @ td_status t @ '')'')) s)"

definition run_tasks :: "cli \<Rightarrow> string list \<Rightarrow> command" where
  "run_tasks c args s =
     (case args of
        [] \<Rightarrow> (Inl (CliError ''usage: elpulpo tasks {create|get|list|cancel|retry|request-review|finalize} ...''), s)
      | sub # rest \<Rightarrow>
          if sub = ''create'' then tasks_create_cmd c rest s
          else if sub = ''get'' then tasks_get_cmd c rest s
          else if sub = ''list'' then tasks_list_cmd c rest s
          else if sub = ''cancel'' then tasks_cancel_cmd c rest s
          else if sub = ''retry'' then tasks_retry_cmd c rest s
          else if sub = ''request-review'' then tasks_request_review_cmd c rest s
          else if sub = ''finalize'' then tasks_finalize_cmd c rest s
          else (Inl (CliError ''unknown tasks subcommand''), s))"

definition workers_list_cmd :: "cli \<Rightarrow> string list \<Rightarrow> command" where
  "workers_list_cmd c args s =
     (case parse_flags [(''json'', BoolFlag)] args [] of
        Inl e \<Rightarrow> (Inl (CliFlags e), s)
      | Inr (vs, _) \<Rightarrow>
          send c (\<lambda>call. call_workers call ReqListWorkers)
            (\<lambda>items. if bool_flag ''json'' vs
                     then OutJson (JObj [(''items'', JArr (map (proto_worker_to_json c) items))])
                     else render_workers_table c items) s)"

definition run_workers :: "cli \<Rightarrow> string list \<Rightarrow> command" where
  "run_workers c args s =
     (case args of
        [] \<Rightarrow> (Inl (CliError ''usage: elpulpo workers list''), s)
      | sub # rest \<Rightarrow>
          if sub = ''list'' then workers_list_cmd c rest s
          else (Inl (CliError ''unknown workers subcommand''), s))"

definition run_cli :: "cli \<Rightarrow> string list \<Rightarrow> command" where
  "run_cli c args s =
     (case args of
        [] \<Rightarrow> (Inl (CliError ''missing command''), s)
      | grp # rest \<Rightarrow>
          if grp \<in> {''-h'', ''--help'', ''help''} then (Inr OutHelp, s)
          else case cl_env_error c of
            Some e \<Rightarrow> (Inl (CliError (''load config: '' @ e)), s)
          | None \<Rightarrow>
              if grp = ''tasks'' then run_tasks c rest s
              else if grp = ''workers'' then run_workers c rest s
              else (Inl (CliError ''unknown command''), s))"

subsection \<open>What the arguments mean\<close>

lemma flag_string: "map_of fs n = Some StringFlag \<Longrightarrow> n \<noteq> [] \<Longrightarrow> hd n \<noteq> CHR ''-'' \<Longrightarrow> CHR ''='' \<notin> set n \<Longrightarrow>
    parse_flags fs ((CHR ''-'' # CHR ''-'' # n) # x # args) vs = parse_flags fs args ((n, StringValue x) # vs)"
  by (rule parse_flag_value [where k = StringFlag]) (simp_all add: set_flag_def)

lemma flag_int: "map_of fs n = Some IntFlag \<Longrightarrow> n \<noteq> [] \<Longrightarrow> hd n \<noteq> CHR ''-'' \<Longrightarrow> CHR ''='' \<notin> set n \<Longrightarrow>
    go_int i \<Longrightarrow>
    parse_flags fs ((CHR ''-'' # CHR ''-'' # n) # itoa i # args) vs = parse_flags fs args ((n, IntValue i) # vs)"
  by (rule parse_flag_value [where k = IntFlag]) (simp_all add: set_flag_def parse_int0_itoa)

lemmas read_flags = flag_string flag_int parse_flags.simps(1)

lemma finalize_plan_success:
  "i \<noteq> [] \<Longrightarrow> \<not> dashed i \<Longrightarrow>
     finalize_plan [i, ''--success''] = Inr (ReqFinalizeTask i OutcomeSuccess, False)"
  by (simp add: finalize_plan_def dashed_def parse_flags.simps flag_body_def split_flag_def
      bool_flag_def string_flag_def)

lemma finalize_plan_fail:
  "i \<noteq> [] \<Longrightarrow> \<not> dashed i \<Longrightarrow> msg \<noteq> [] \<Longrightarrow>
     finalize_plan [i, ''--fail'', msg] = Inr (ReqFinalizeTask i (OutcomeFailure msg), False)"
  by (simp add: finalize_plan_def dashed_def read_flags bool_flag_def string_flag_def)

text \<open>With the flag before the id, which the comment in runTasksFinalize supports, the reason is
  taken for the id and the id for the reason.\<close>

lemma finalize_plan_swapped:
  "reason \<noteq> [] \<Longrightarrow> \<not> dashed reason \<Longrightarrow> i \<noteq> [] \<Longrightarrow>
     finalize_plan [''--fail'', reason, i] = Inr (ReqFinalizeTask reason (OutcomeFailure i), False)"
  by (simp add: finalize_plan_def dashed_def read_flags bool_flag_def string_flag_def)

text \<open>A value beyond 32 bits is silently truncated: 2^32 + 1 attempts are 1.\<close>

lemma attempts_truncated:
  "cr_max_attempts (fst (projr (create_plan c [''--name'', ''n'', ''--max-attempts'', itoa 4294967297]))) = 1"
  by (simp add: create_plan_def create_flags_def read_flags go_int_def string_flag_def int_flag_def
      create_payload_def read_schedule_def to_int32_def)

text \<open>The command line that asks for a task: \<open>doc\<close> is the text of the payload, \<open>sched\<close> of the schedule.\<close>

definition create_args :: "string \<Rightarrow> string \<Rightarrow> create_request \<Rightarrow> string list" where
  "create_args doc sched req =
     [''--name'', cr_name req, ''--payload'', doc, ''--priority'', itoa (cr_priority req),
      ''--max-attempts'', itoa (cr_max_attempts req), ''--scheduled-for'', sched,
      ''--jira-url'', cr_jira_url req, ''--github-pr-url'', cr_github_pr_url req]"

definition inline_text :: "string \<Rightarrow> bool" where
  "inline_text v \<longleftrightarrow> v \<noteq> [] \<and> v \<noteq> ''-'' \<and> \<not> has_prefix v ''@''"

lemma read_payload_inline: "inline_text v \<Longrightarrow> read_payload c inp v = (Inr v, inp)"
  by (simp add: read_payload_def inline_text_def)

lemma int4_go_int: "int4 i \<Longrightarrow> go_int i"
  by (simp add: int4_def go_int_def)

lemma create_payload_inline:
  "inline_text doc \<Longrightarrow> cl_json c doc = RawDoc j \<Longrightarrow> create_payload c doc [] = Inr (RawDoc j)"
  by (simp add: create_payload_def read_payload_inline inline_text_def)

text \<open>C38: The command line says what it asks for: reading the flags that spell a task gives exactly
  that request, whatever its name, texts and numbers are (also values that look like flags), for
  every priority and attempt count of 32 bits; the command then sends this one request.\<close>

theorem create_flags_round_trip:
  assumes "cr_name req \<noteq> []" and "int4 (cr_priority req)" and "int4 (cr_max_attempts req)"
    and "cr_payload req = RawDoc j" and "inline_text doc" and "cl_json c doc = RawDoc j"
    and "cr_scheduled_for req = (if sched = [] then None else cl_read_time c sched)"
    and "sched \<noteq> [] \<longrightarrow> cl_read_time c sched \<noteq> None"
  shows "create_plan c (create_args doc sched req) = Inr (req, False) \<and>
    (new_admin_client c = Inr call \<longrightarrow>
       snd (run_cli c (''tasks'' # ''create'' # create_args doc sched req) s) =
         (if cl_env_error c = None then snd (call (ReqCreateTask req) s) else s))"
proof -
  have doc: "create_payload c doc [] = Inr (RawDoc j)"
    using assms(5,6) by (rule create_payload_inline)
  have sched: "read_schedule c sched = Inr (cr_scheduled_for req)"
    using assms(7,8) by (auto simp: read_schedule_def)
  have plan: "create_plan c (create_args doc sched req) = Inr (req, False)"
    using assms(1-4) doc sched
    by (simp add: create_plan_def create_args_def create_flags_def read_flags int4_go_int
        string_flag_def int_flag_def bool_flag_def to_int32_id)
  then show ?thesis
    by (simp add: run_cli_def run_tasks_def tasks_create_cmd_def send_def prod.case_eq_if sum.case_eq_if
        flip: call_db(1)) (auto split: prod.split sum.split option.split)
qed

definition sample_cli :: cli where
  "sample_cli = \<lparr>cl_env_error = None, cl_addr = ''m'', cl_token = ''at'', cl_stdin = None,
     cl_file = (\<lambda>_. None), cl_json = (\<lambda>_. RawDoc (JObj [(''instructions'', JStr ''go'')])),
     cl_compact = (\<lambda>_. ''p''), cl_read_time = (\<lambda>_. Some 7), cl_show_time = (\<lambda>_. ''t''),
     cl_dial = (\<lambda>_ token. Some (admin_conn number_config (calm 5 9) token))\<rparr>"

lemma sample_cli_client: "new_admin_client sample_cli = Inr (admin_conn number_config (calm 5 9) ''at'')"
  by (simp add: new_admin_client_def sample_cli_def)

definition sample_create :: create_request where
  "sample_create = \<lparr>cr_name = ''--json'', cr_payload = RawDoc (JObj [(''instructions'', JStr ''go'')]),
     cr_priority = - 2, cr_max_attempts = 5, cr_scheduled_for = Some 7, cr_jira_url = [],
     cr_github_pr_url = []\<rparr>"

lemma create_flags_round_trip_witness:
  "create_plan sample_cli (create_args ''p'' ''s'' sample_create) = Inr (sample_create, False) \<and>
   snd (run_cli sample_cli (''tasks'' # ''create'' # create_args ''p'' ''s'' sample_create)
         \<lparr>sys_db = sample_db, sys_metrics = zero_metrics\<rparr>) =
     snd (admin_conn number_config (calm 5 9) ''at'' (ReqCreateTask sample_create)
         \<lparr>sys_db = sample_db, sys_metrics = zero_metrics\<rparr>)"
proof -
  have "cr_name sample_create \<noteq> []" "int4 (cr_priority sample_create)" "int4 (cr_max_attempts sample_create)"
    "cr_payload sample_create = RawDoc (JObj [(''instructions'', JStr ''go'')])" "inline_text ''p''"
    "cl_json sample_cli ''p'' = RawDoc (JObj [(''instructions'', JStr ''go'')])"
    "cr_scheduled_for sample_create = (if ''s'' = [] then None else cl_read_time sample_cli ''s'')"
    "''s'' \<noteq> [] \<longrightarrow> cl_read_time sample_cli ''s'' \<noteq> None" "cl_env_error sample_cli = None"
    by (simp_all add: sample_create_def sample_cli_def int4_def inline_text_def)
  with create_flags_round_trip [of sample_create, where c = sample_cli and doc = "''p''" and sched = "''s''"]
    sample_cli_client
  show ?thesis by simp
qed

end
