(* ===== verification/Servers.thy ===== *)
theory Servers
  imports Boot Cli Worker_State
begin

section \<open>Serving and shutting down\<close>

text \<open>
  The last part of run in cmd/mastermind/main.go, ListenAndServe of httpserver/server.go, Serve of
  worker/mcpserver/http.go, run of cmd/worker/main.go and main of cmd/elpulpo: what a process waits
  for, when it returns and with which exit code. Times are nanoseconds. What happens to a server is
  an argument: when its accept loop fails by itself, and when it finds, once it was told to stop,
  that the last request in flight has ended (\<open>None\<close>: never). \<open>stop\<close> is the time of the first SIGTERM or SIGINT.

  \<open>select\<close> takes a case that is ready when the statement is reached, any of them if there are
  several, and otherwise waits for the first to become ready; \<open>go_select\<close> lists the possible
  outcomes with their times, none if it waits for ever.
\<close>

subsection \<open>select\<close>

definition go_select :: "int \<Rightarrow> (int option \<times> 'a) list \<Rightarrow> (int \<times> 'a) list" where
  "go_select t0 cases =
     (let ready = concat (map (\<lambda>(t, a). case t of None \<Rightarrow> [] | Some t \<Rightarrow> [(max t0 t, a)]) cases)
      in filter (\<lambda>r. list_all (\<lambda>r'. fst r \<le> fst r') ready) ready)"

lemma go_select_simps:
  "go_select t0 [] = []"
  "go_select t0 ((None, a) # cs) = go_select t0 cs"
  by (simp_all add: go_select_def)

lemma go_select_two:
  "go_select t0 [(Some s, a), (Some t, b)] =
     (if max t0 s \<le> max t0 t then [(max t0 s, a)] else []) @
     (if max t0 t \<le> max t0 s then [(max t0 t, b)] else [])"
  by (simp add: go_select_def del: max.bounded_iff)

lemma go_select_in:
  "(t, a) \<in> set (go_select t0 cases) \<Longrightarrow> \<exists>s. (Some s, a) \<in> set cases \<and> t = max t0 s"
  by (auto simp: go_select_def Let_def split: option.splits)

lemma go_select_least:
  "(t, a) \<in> set (go_select t0 cases) \<Longrightarrow> (Some s, b) \<in> set cases \<Longrightarrow> t \<le> max t0 s"
  by (force simp: go_select_def Let_def list_all_iff)

lemma go_select_ready: "(Some s, a) \<in> set cases \<Longrightarrow> go_select t0 cases \<noteq> []"
proof -
  assume c: "(Some s, a) \<in> set cases"
  define ready where
    "ready = concat (map (\<lambda>(t, a). case t of None \<Rightarrow> [] | Some t \<Rightarrow> [(max t0 t, a)]) cases)"
  have "(max t0 s, a) \<in> set ready" using c by (force simp: ready_def)
  then have ne: "fst ` set ready \<noteq> {}" by auto
  then have "Min (fst ` set ready) \<in> fst ` set ready" by (intro Min_in) simp_all
  then obtain r where r: "r \<in> set ready" "fst r = Min (fst ` set ready)" by (metis imageE)
  then have "r \<in> set (go_select t0 cases)"
    by (simp add: go_select_def ready_def [symmetric] Let_def list_all_iff)
  then show ?thesis by auto
qed

subsection \<open>One HTTP server\<close>

record server_env =
  sv_fails :: "(int \<times> string) option"
  sv_drained :: "int option"

datatype http_event = CtxDone | ServeEnded string

text \<open>\<open>http.Server.Shutdown\<close> with a deadline: it returns when the last request has ended, a moment
  after it was called at the earliest, or when the deadline has passed.\<close>

definition shutdown_done :: "int \<Rightarrow> int option \<Rightarrow> int \<Rightarrow> int" where
  "shutdown_done grace drained t =
     (case drained of None \<Rightarrow> t + grace | Some d \<Rightarrow> min (t + grace) (max (t + 1) d))"

definition serve_cases :: "int option \<Rightarrow> server_env \<Rightarrow> (int option \<times> http_event) list" where
  "serve_cases stop sv =
     [(stop, CtxDone),
      (map_option fst (sv_fails sv), ServeEnded (case sv_fails sv of None \<Rightarrow> [] | Some (_, e) \<Rightarrow> e))]"

definition shutdown_grace :: int where
  "shutdown_grace = 15000000000"

text \<open>After \<open>Shutdown\<close> the accept loop ends with \<open>ErrServerClosed\<close>, which is no error, unless it had
  ended by itself.\<close>

definition listen_and_serve :: "int \<Rightarrow> int option \<Rightarrow> server_env \<Rightarrow> (int \<times> string option) list" where
  "listen_and_serve t0 stop sv =
     map (\<lambda>(t, ev).
       case ev of
         CtxDone \<Rightarrow>
           (shutdown_done shutdown_grace (sv_drained sv) t,
            case sv_fails sv of Some (f, e) \<Rightarrow> if f \<le> t then Some e else None | None \<Rightarrow> None)
       | ServeEnded e \<Rightarrow> (t, Some e))
     (go_select t0 (serve_cases stop sv))"

subsection \<open>Mastermind\<close>

datatype main_event = GrpcEnded string | HttpEnded "string option" | Signalled

datatype grace_event = GrpcStopped | GraceOver

record run_outcome =
  ro_time :: int
  ro_error :: "string option"
  ro_cut :: bool

text \<open>\<open>GracefulStop\<close> against a timer, then the HTTP server. \<open>ro_cut\<close>: RPCs in flight are cut off by
  \<open>Stop\<close> or by the end of the process.\<close>

definition stop_servers :: "int \<Rightarrow> server_env \<Rightarrow> int \<Rightarrow> run_outcome list" where
  "stop_servers t grpc http_at =
     map (\<lambda>(t1, ev). \<lparr>ro_time = max t1 http_at, ro_error = None, ro_cut = (ev = GraceOver)\<rparr>)
       (go_select t [(sv_drained grpc, GrpcStopped), (Some (t + shutdown_grace), GraceOver)])"

definition in_flight :: "server_env \<Rightarrow> int \<Rightarrow> bool" where
  "in_flight sv t \<longleftrightarrow> (case sv_drained sv of None \<Rightarrow> True | Some d \<Rightarrow> t < d)"

definition select_servers :: "int \<Rightarrow> int option \<Rightarrow> server_env \<Rightarrow> (int \<times> string option) option \<Rightarrow> run_outcome list" where
  "select_servers t0 stop grpc http =
     concat (map (\<lambda>(t, ev).
       case ev of
         GrpcEnded e \<Rightarrow> [\<lparr>ro_time = t, ro_error = Some e, ro_cut = in_flight grpc t\<rparr>]
       | HttpEnded e \<Rightarrow> [\<lparr>ro_time = t, ro_error = e, ro_cut = in_flight grpc t\<rparr>]
       | Signalled \<Rightarrow> stop_servers t grpc (case http of None \<Rightarrow> t | Some (h, _) \<Rightarrow> h))
     (go_select t0
       [(map_option fst (sv_fails grpc), GrpcEnded (case sv_fails grpc of None \<Rightarrow> [] | Some (_, e) \<Rightarrow> e)),
        (map_option fst http, HttpEnded (case http of None \<Rightarrow> None | Some (_, e) \<Rightarrow> e)),
        (stop, Signalled)]))"

text \<open>With a signal ListenAndServe always returns, so the wait for it after the signal ends.\<close>

definition run_servers :: "int \<Rightarrow> int option \<Rightarrow> server_env \<Rightarrow> server_env \<Rightarrow> run_outcome list" where
  "run_servers t0 stop grpc http =
     (case listen_and_serve t0 stop http of
        [] \<Rightarrow> select_servers t0 stop grpc None
      | hs \<Rightarrow> concat (map (\<lambda>h. select_servers t0 stop grpc (Some h)) hs))"

text \<open>The deferred \<open>Close\<close> of the pool waits for the connections in use; \<open>idle\<close> is the time they are
  back. An end of the process is its time and its exit code. The reaper and the sampler start with
  a ticker, which panics for an interval that is not positive: the process ends with 2.\<close>

definition process_end :: "int option \<Rightarrow> run_outcome \<Rightarrow> int option \<times> int" where
  "process_end idle r = (map_option (max (ro_time r)) idle, if ro_error r = None then 0 else 1)"

definition mastermind_main ::
  "string + mastermind_config \<Rightarrow> string option \<Rightarrow> string option \<Rightarrow> string option
     \<Rightarrow> int \<Rightarrow> int option \<Rightarrow> server_env \<Rightarrow> server_env \<Rightarrow> int option \<Rightarrow> (int option \<times> int) list" where
  "mastermind_main processed migrated opened listening t0 stop grpc http idle =
     (case boot processed migrated opened listening of
        Inl e \<Rightarrow> [(Some t0, 1)]
      | Inr c \<Rightarrow>
          if new_pages = None then [(Some t0, 1)]
          else if mc_reaper_interval c \<le> 0 then [(Some t0, 2)]
          else map (process_end idle) (run_servers t0 stop grpc http))"

subsection \<open>The worker\<close>

record http_config =
  hc_addr :: string
  hc_shutdown_timeout :: int

definition with_defaults :: "http_config \<Rightarrow> http_config" where
  "with_defaults c =
     \<lparr>hc_addr = (if hc_addr c = [] then ''127.0.0.1:7777'' else hc_addr c),
      hc_shutdown_timeout = (if hc_shutdown_timeout c \<le> 0 then 5000000000 else hc_shutdown_timeout c)\<rparr>"

datatype worker_route = McpEndpoint | WorkerHealthz

definition worker_routes :: "(pattern \<times> worker_route) list" where
  "worker_routes =
     [(([''mcp''], False), McpEndpoint), (([''mcp''], True), McpEndpoint), (([''healthz''], False), WorkerHealthz)]"

text \<open>What the worker's endpoint answers; \<open>sdk\<close> is the handler of the MCP SDK.\<close>

datatype 'a worker_reply = WorkerMoved | WorkerNotFound | WorkerOk string | FromSdk 'a

definition worker_http :: "('q \<Rightarrow> 'a) \<Rightarrow> string \<Rightarrow> string \<Rightarrow> string \<Rightarrow> 'q \<Rightarrow> 'a worker_reply" where
  "worker_http sdk meth path raw rq =
     (case serve_mux worker_routes meth (escaped_path path raw) of
        MuxMoved \<Rightarrow> WorkerMoved
      | MuxNone \<Rightarrow> WorkerNotFound
      | MuxTo McpEndpoint \<Rightarrow> FromSdk (sdk rq)
      | MuxTo WorkerHealthz \<Rightarrow> WorkerOk ''ok'')"

definition worker_serve ::
  "int \<Rightarrow> int option \<Rightarrow> (string \<Rightarrow> string option) \<Rightarrow> http_config \<Rightarrow> server_env \<Rightarrow> (int \<times> string option) list" where
  "worker_serve t0 stop listen cfg sv =
     (let cfg = with_defaults cfg in
      case listen (hc_addr cfg) of
        Some e \<Rightarrow> [(t0, Some e)]
      | None \<Rightarrow>
          map (\<lambda>(t, ev).
            case ev of
              ServeEnded e \<Rightarrow> (t, Some e)
            | CtxDone \<Rightarrow> (shutdown_done (hc_shutdown_timeout cfg) (sv_drained sv) t, None))
          (go_select t0 (serve_cases stop sv)))"

text \<open>The ends of a worker process: time and exit code, and its state after the deferred \<open>Release\<close>;
  \<open>x t\<close> is the state its tool calls and heartbeats have brought it to by then.\<close>

definition worker_main ::
  "string + worker_config \<Rightarrow> string option \<Rightarrow> (string \<Rightarrow> string option) \<Rightarrow> int \<Rightarrow> int option \<Rightarrow> server_env
     \<Rightarrow> (int \<Rightarrow> wstate) \<Rightarrow> (int \<times> int \<times> wstate option) list" where
  "worker_main processed dialed listen t0 stop sv x =
     (case load_worker processed of
        Inl e \<Rightarrow> [(t0, 1, None)]
      | Inr c \<Rightarrow>
          if dialed \<noteq> None then [(t0, 1, None)]
          else
            map (\<lambda>(t, e). (t, if e = None then 0 else 1, Some (release (x t))))
              (worker_serve t0 stop listen \<lparr>hc_addr = wc_mcp_addr c, hc_shutdown_timeout = 0\<rparr> sv))"

subsection \<open>elpulpo\<close>

definition elpulpo_main :: "cli \<Rightarrow> string list \<Rightarrow> sys \<Rightarrow> int \<times> sys" where
  "elpulpo_main c args s =
     (case run_cli c args s of (Inl e, s') \<Rightarrow> (1, s') | (Inr out, s') \<Rightarrow> (0, s'))"

subsection \<open>Shutdown is bounded\<close>

text \<open>No server has failed by itself up to a time.\<close>

definition healthy :: "server_env \<Rightarrow> int \<Rightarrow> bool" where
  "healthy sv t \<longleftrightarrow> (case sv_fails sv of None \<Rightarrow> True | Some (f, e) \<Rightarrow> t < f)"

lemma shutdown_done_bounds: "0 < grace \<Longrightarrow> t < shutdown_done grace d t \<and> shutdown_done grace d t \<le> t + grace"
  by (auto simp: shutdown_done_def split: option.split)

lemma serve_signalled:
  assumes "t0 \<le> t" and "healthy sv t"
  shows "go_select t0 (serve_cases (Some t) sv) = [(t, CtxDone)]"
  using assms
  by (auto simp: serve_cases_def healthy_def go_select_two go_select_def split: option.splits)

lemma listen_and_serve_signalled:
  assumes "t0 \<le> t" and "healthy sv t"
  shows "listen_and_serve t0 (Some t) sv = [(shutdown_done shutdown_grace (sv_drained sv) t, None)]"
  using assms(2)
  by (auto simp: listen_and_serve_def serve_signalled [OF assms] healthy_def split: option.splits)

lemma stop_servers_spec:
  assumes "h \<le> t + shutdown_grace" and "t \<le> h"
  shows "stop_servers t grpc h \<noteq> [] \<and>
    (\<forall>r \<in> set (stop_servers t grpc h). ro_error r = None \<and> t \<le> ro_time r \<and> ro_time r \<le> t + shutdown_grace \<and>
      (\<forall>d. sv_drained grpc = Some d \<longrightarrow> d < t + shutdown_grace \<longrightarrow> \<not> ro_cut r))"
  using assms
  by (cases "sv_drained grpc")
    (auto simp: stop_servers_def go_select_two go_select_def shutdown_grace_def)

lemma run_servers_signalled:
  assumes "t0 < t" and "healthy grpc t" and "healthy http t"
  shows "run_servers t0 (Some t) grpc http =
    stop_servers t grpc (shutdown_done shutdown_grace (sv_drained http) t)"
proof -
  have h: "t < shutdown_done shutdown_grace (sv_drained http) t"
    using shutdown_done_bounds [of shutdown_grace t "sv_drained http"] by (simp add: shutdown_grace_def)
  have "listen_and_serve t0 (Some t) http = [(shutdown_done shutdown_grace (sv_drained http) t, None)]"
    using assms(1,3) by (simp add: listen_and_serve_signalled)
  then show ?thesis
    using assms h
    by (auto simp: run_servers_def select_servers_def go_select_def healthy_def split: option.splits)
qed


definition busy_server :: server_env where
  "busy_server = \<lparr>sv_fails = None, sv_drained = Some 20\<rparr>"

definition sample_worker :: worker_config where
  "sample_worker =
     \<lparr>wc_mastermind_addr = '':50051'', wc_worker_token = ''wt'', wc_poll = 2000000000,
      wc_heartbeat = 8000000000, wc_mcp_addr = [], wc_log_level = ''info'', wc_log_format = ''json''\<rparr>"


text \<open>A server that fails ends mastermind with 1; its other server is not drained.\<close>

lemma failure_ends_mastermind:
  assumes "sv_fails grpc = Some (f, e)" and "t0 \<le> f" and "healthy http f"
    and "boot processed migrated opened listening = Inr c" and "0 < mc_reaper_interval c"
  shows "mastermind_main processed migrated opened listening t0 None grpc http (Some idle) = [(Some (max f idle), 1)]"
proof -
  have pos: "\<not> mc_reaper_interval c \<le> 0" using assms(5) by simp
  have "mastermind_main processed migrated opened listening t0 None grpc http (Some idle) =
      map (process_end (Some idle)) [\<lparr>ro_time = f, ro_error = Some e, ro_cut = in_flight grpc f\<rparr>]"
    using assms(1-3)
    by (auto simp: mastermind_main_def new_pages_parse assms(4) pos run_servers_def select_servers_def listen_and_serve_def
        serve_cases_def go_select_def healthy_def split: option.splits)
  then show ?thesis by (simp add: process_end_def)
qed

text \<open>REAPER_INTERVAL=0 passes all checks and crashes mastermind after its start. (The worker replaces
  such a HEARTBEAT_INTERVAL, \<open>heartbeat_interval_pos\<close>.)\<close>

lemma zero_interval_crashes:
  assumes "boot processed migrated opened listening = Inr c" and "mc_reaper_interval c \<le> 0"
  shows "mastermind_main processed migrated opened listening t0 stop grpc http idle = [(Some t0, 2)]"
  by (simp add: mastermind_main_def new_pages_parse assms)

end
