(* ===== verification/Frontends.thy ===== *)
theory Frontends
  imports Cli Mcp_Admin Http_Server
begin

section \<open>The operators' front ends agree\<close>

text \<open>
  An operator reaches mastermind through the AdminService, the MCP tools, the command line or the
  admin pages, which call the store themselves. The commands they perform are compared.
\<close>

subsection \<open>The RPC, the MCP tools and the command line\<close>

lemma finalize_success_message: "exec en (FinalizeTask i True m) d = exec en (FinalizeTask i True []) d"
  by (simp add: finalize_task_def)

lemma finalize_message:
  "exec en (FinalizeTask i ok (if ok then [] else msg)) d = exec en (FinalizeTask i ok msg) d"
  using finalize_success_message [of en i msg d] by (cases ok) (simp_all del: exec.simps)

definition outcome_of :: "bool \<Rightarrow> string \<Rightarrow> outcome" where
  "outcome_of ok msg = (if ok then OutcomeSuccess else OutcomeFailure msg)"

definition outcome_word :: "bool \<Rightarrow> string" where
  "outcome_word ok = (if ok then ''success'' else ''failure'')"

lemma rpc_exec:
  assumes "parse_uuid cfg tid = Some i"
  shows "sys_db (snd (admin_conn cfg en (admin_token cfg) (ReqCancelTask tid) s)) = exec en (DeleteTask i) (sys_db s)"
    "sys_db (snd (admin_conn cfg en (admin_token cfg) (ReqRetryTask tid) s)) = exec en (RequeueTask i) (sys_db s)"
    "sys_db (snd (admin_conn cfg en (admin_token cfg) (ReqRequestReview tid) s)) = exec en (RequestReview i) (sys_db s)"
    "sys_db (snd (admin_conn cfg en (admin_token cfg) (ReqFinalizeTask tid (outcome_of ok msg)) s)) =
       exec en (FinalizeTask i ok msg) (sys_db s)"
  unfolding finalize_message [of en i ok msg, symmetric] outcome_of_def
  using finalize_task_exec [OF assms, of en ok msg s]
  by (simp_all add: assms admin_conn_dispatch rpc_cancel_task_def rpc_retry_task_def reply_case_db
      rpc_request_review_def)

lemma mcp_exec:
  "sys_db (snd (mcp_request_review call tid s)) = sys_db (snd (call (ReqRequestReview tid) s))"
  "sys_db (snd (mcp_finalize_task call tid (outcome_word ok) msg s)) =
     sys_db (snd (call (ReqFinalizeTask tid (outcome_of ok msg)) s))"
  by (cases ok; simp add: mcp_request_review_def mcp_finalize_task_def outcome_word_def outcome_of_def)+

lemma send_db:
  assumes "new_admin_client c = Inr call"
  shows "sys_db (snd (send c rpc out s)) = sys_db (snd (rpc call s))"
  by (simp add: send_def assms split: prod.split sum.split)

lemma one_id_plain: "tid \<noteq> [] \<Longrightarrow> \<not> dashed tid \<Longrightarrow> one_id fs usage [tid] = Inr (tid, False)"
  by (cases tid) (simp_all add: one_id_def parse_flags.simps dashed_def bool_flag_def)

definition finalize_args :: "string \<Rightarrow> bool \<Rightarrow> string \<Rightarrow> string list" where
  "finalize_args tid ok msg = tid # (if ok then [''--success''] else [''--fail'', msg])"

lemma cli_exec:
  assumes "tid \<noteq> []" and "\<not> dashed tid" and "msg \<noteq> []"
    and "new_admin_client c = Inr call" and "cl_env_error c = None"
  shows "sys_db (snd (run_cli c [''tasks'', ''cancel'', tid] s)) = sys_db (snd (call (ReqCancelTask tid) s))"
    "sys_db (snd (run_cli c [''tasks'', ''retry'', tid] s)) = sys_db (snd (call (ReqRetryTask tid) s))"
    "sys_db (snd (run_cli c [''tasks'', ''request-review'', tid] s)) = sys_db (snd (call (ReqRequestReview tid) s))"
    "sys_db (snd (run_cli c (''tasks'' # ''finalize'' # finalize_args tid ok msg) s)) =
       sys_db (snd (call (ReqFinalizeTask tid (outcome_of ok msg)) s))"
proof -
  have plan: "finalize_plan (finalize_args tid ok msg) = Inr (ReqFinalizeTask tid (outcome_of ok msg), False)"
    using assms(1-3) finalize_plan_success finalize_plan_fail by (simp add: outcome_of_def finalize_args_def)
  show "sys_db (snd (run_cli c [''tasks'', ''cancel'', tid] s)) = sys_db (snd (call (ReqCancelTask tid) s))"
    "sys_db (snd (run_cli c [''tasks'', ''retry'', tid] s)) = sys_db (snd (call (ReqRetryTask tid) s))"
    "sys_db (snd (run_cli c [''tasks'', ''request-review'', tid] s)) = sys_db (snd (call (ReqRequestReview tid) s))"
    "sys_db (snd (run_cli c (''tasks'' # ''finalize'' # finalize_args tid ok msg) s)) =
       sys_db (snd (call (ReqFinalizeTask tid (outcome_of ok msg)) s))"
    using assms(5)
    by (simp_all add: run_cli_def run_tasks_def tasks_cancel_cmd_def tasks_retry_cmd_def
        tasks_request_review_cmd_def tasks_finalize_cmd_def one_id_plain [OF assms(1,2)] plan
        send_db [OF assms(4)])
qed

subsection \<open>The pages\<close>

lemma append_sep_neq: "c \<notin> set w \<Longrightarrow> a @ c # b \<noteq> w"
  by auto

text \<open>A path \<open>/tasks/{id}/{verb}\<close> is routed to tasksMember.\<close>

definition plain_segment :: "string \<Rightarrow> bool" where
  "plain_segment w \<longleftrightarrow> list_all unreserved w \<and> w \<notin> {[], ''.'', ''..''}"

definition member_path :: "string \<Rightarrow> string \<Rightarrow> string" where
  "member_path tid verb = ''/tasks/'' @ tid @ CHR ''/'' # verb"

lemma plain_no_slash: "plain_segment w \<Longrightarrow> CHR ''/'' \<notin> set w"
  by (auto simp: plain_segment_def list_all_iff unreserved_def Let_def)

lemma plain_escape: "plain_segment w \<Longrightarrow> url_escape escape_in_path w = w"
  by (rule url_escape_id) (simp add: plain_segment_def list_all_iff escape_in_path_def)

lemma plain_mux: "plain_segment w \<Longrightarrow> mux_segment w = w"
proof -
  assume "plain_segment w"
  then have "CHR ''%'' \<notin> set w" by (auto simp: plain_segment_def list_all_iff unreserved_def Let_def)
  then show ?thesis by (simp add: mux_segment_def path_unescape_plain)
qed

lemma member_escaped:
  assumes "plain_segment tid" and "plain_segment verb"
  shows "escaped_path (member_path tid verb) [] = member_path tid verb"
proof -
  have "url_escape escape_in_path (''/tasks/'' @ tid @ ''/'' @ verb) = ''/tasks/'' @ tid @ ''/'' @ verb"
    unfolding url_escape_append plain_escape [OF assms(1)] plain_escape [OF assms(2)]
    by (simp add: escape_in_path_def unreserved_def Let_def)
  then show ?thesis by (simp add: escaped_path_def member_path_def)
qed

lemma member_route:
  assumes "plain_segment tid" and "plain_segment verb" and "rq_path rq = member_path tid verb"
    and "rq_raw_path rq = []" and "rq_credentials rq = Some (web_user env, web_password env)"
  shows "http_serve env files prom clock ens rq d = tasks_member env ens rq d"
proof -
  have "split_on CHR ''/'' (''tasks'' @ CHR ''/'' # (tid @ CHR ''/'' # verb)) = [''tasks'', tid, verb]"
    using plain_no_slash [OF assms(1)] plain_no_slash [OF assms(2)]
    by (subst split_on_append, simp, subst split_on_append) (simp_all add: split_on_last)
  then have segs: "split_on CHR ''/'' (tl (member_path tid verb)) = [''tasks'', tid, verb]"
    by (simp add: member_path_def)
  have "mux_segment ''tasks'' = ''tasks''" by (simp add: mux_segment_def)
  then have msegs: "map mux_segment (split_on CHR ''/'' (tl (member_path tid verb))) = [''tasks'', tid, verb]"
    by (simp add: segs plain_mux assms(1,2))
  have "clean_path (member_path tid verb)"
    using segs assms(1,2) by (simp add: clean_path_def member_path_def plain_segment_def)
  then have "serve_mux web_routes m (member_path tid verb) = MuxTo TasksMember" for m
    using msegs assms(2)
    by (auto simp: serve_mux_def Let_def web_routes_def tasks_routes_def dashboard_routes_def
        pattern_matches_def exact_match_def plain_segment_def member_path_def)
  then show ?thesis
    by (simp add: http_serve_def route_handler_def protected_eq assms(3-5) member_escaped [OF assms(1,2)])
qed

lemma member_cut: "plain_segment tid \<Longrightarrow>
    cut_at CHR ''/'' (drop (length ''/tasks/'') (member_path tid verb)) = (tid, verb)"
  using plain_no_slash [of tid] by (simp add: member_path_def cut_at_append)

lemma web_member_exec:
  assumes "web_parse env tid = Some i" and "plain_segment tid" and "rq_method rq = ''POST''"
    and "rq_credentials rq = Some (web_user env, web_password env)" and "rq_raw_path rq = []"
  shows "rq_path rq = member_path tid ''delete'' \<Longrightarrow>
      snd (http_serve env files prom clock ens rq d) = exec (ens 0) (DeleteTask i) d"
    and "rq_path rq = member_path tid ''requeue'' \<Longrightarrow>
      snd (http_serve env files prom clock ens rq d) = exec (ens 0) (RequeueTask i) d"
    and "rq_path rq = member_path tid ''request-review'' \<Longrightarrow>
      snd (http_serve env files prom clock ens rq d) = exec (ens 0) (RequestReview i) d"
    and "rq_path rq = member_path tid ''finalize'' \<Longrightarrow> rq_form_error rq = None \<Longrightarrow>
      post_form_value ''outcome'' rq = (if ok then ''success'' else ''failure'') \<Longrightarrow>
      snd (http_serve env files prom clock ens rq d) =
        exec (ens 0) (FinalizeTask i ok (post_form_value ''message'' rq)) d"
proof -
  have verbs: "plain_segment ''delete''" "plain_segment ''requeue''" "plain_segment ''request-review''"
    "plain_segment ''finalize''"
    by (simp_all add: plain_segment_def unreserved_def)
  note member = assms(1,3) tasks_member_def member_cut [OF assms(2), unfolded list.size, simplified]
  show "rq_path rq = member_path tid ''delete'' \<Longrightarrow>
      snd (http_serve env files prom clock ens rq d) = exec (ens 0) (DeleteTask i) d"
    by (subst member_route [OF assms(2) verbs(1) _ assms(5,4)]) (simp_all add: member member_handlers_exec)
  show "rq_path rq = member_path tid ''requeue'' \<Longrightarrow>
      snd (http_serve env files prom clock ens rq d) = exec (ens 0) (RequeueTask i) d"
    by (subst member_route [OF assms(2) verbs(2) _ assms(5,4)]) (simp_all add: member member_handlers_exec)
  show "rq_path rq = member_path tid ''request-review'' \<Longrightarrow>
      snd (http_serve env files prom clock ens rq d) = exec (ens 0) (RequestReview i) d"
    by (subst member_route [OF assms(2) verbs(3) _ assms(5,4)]) (simp_all add: member member_handlers_exec)
  show "rq_path rq = member_path tid ''finalize'' \<Longrightarrow> rq_form_error rq = None \<Longrightarrow>
      post_form_value ''outcome'' rq = (if ok then ''success'' else ''failure'') \<Longrightarrow>
      snd (http_serve env files prom clock ens rq d) =
        exec (ens 0) (FinalizeTask i ok (post_form_value ''message'' rq)) d"
    by (subst member_route [OF assms(2) verbs(4) _ assms(5,4)]) (simp_all add: member finalize_exec)
qed

subsection \<open>Agreement\<close>

text \<open>An answer together with the system in which one store command was performed.\<close>

definition performs :: "env \<Rightarrow> sys \<Rightarrow> cmd \<Rightarrow> 'r \<times> sys \<Rightarrow> bool" where
  "performs en s cmd res \<longleftrightarrow> sys_db (snd res) = exec en cmd (sys_db s)"

text \<open>C36: The front ends agree: for the same task (and outcome and reason) the RPC of the
  AdminService, the MCP tool where there is one, the command line and the form of the task's page
  leave the database in the same state, the one the store's method produces, for cancelling,
  retrying, requesting a review and finalizing, also when the store refuses or the database fails.\<close>

theorem operator_frontends_agree:
  assumes "parse_uuid cfg tid = Some i" and "web_parse env tid = Some i"
    and "plain_segment tid" and "\<not> dashed tid" and "msg \<noteq> []"
    and "new_admin_client c = Inr (admin_conn cfg en (admin_token cfg))" and "cl_env_error c = None"
    and "rq_method rq = ''POST''" and "rq_credentials rq = Some (web_user env, web_password env)"
    and "rq_form_error rq = None" and "post_form_value ''outcome'' rq = outcome_word ok"
    and "post_form_value ''message'' rq = msg" and "rq_raw_path rq = []"
  shows "let call = admin_conn cfg en (admin_token cfg);
      post = (\<lambda>verb. snd (http_serve env files prom clock (\<lambda>_. en) (rq\<lparr>rq_path := member_path tid verb\<rparr>) (sys_db s)))
    in performs en s (DeleteTask i) (call (ReqCancelTask tid) s) \<and>
       performs en s (DeleteTask i) (run_cli c [''tasks'', ''cancel'', tid] s) \<and>
       post ''delete'' = exec en (DeleteTask i) (sys_db s) \<and>
       performs en s (RequeueTask i) (call (ReqRetryTask tid) s) \<and>
       performs en s (RequeueTask i) (run_cli c [''tasks'', ''retry'', tid] s) \<and>
       post ''requeue'' = exec en (RequeueTask i) (sys_db s) \<and>
       performs en s (RequestReview i) (call (ReqRequestReview tid) s) \<and>
       performs en s (RequestReview i) (mcp_request_review call tid s) \<and>
       performs en s (RequestReview i) (run_cli c [''tasks'', ''request-review'', tid] s) \<and>
       post ''request-review'' = exec en (RequestReview i) (sys_db s) \<and>
       performs en s (FinalizeTask i ok msg) (call (ReqFinalizeTask tid (outcome_of ok msg)) s) \<and>
       performs en s (FinalizeTask i ok msg) (mcp_finalize_task call tid (outcome_word ok) msg s) \<and>
       performs en s (FinalizeTask i ok msg) (run_cli c (''tasks'' # ''finalize'' # finalize_args tid ok msg) s) \<and>
       post ''finalize'' = exec en (FinalizeTask i ok msg) (sys_db s)"
proof -
  have tid: "tid \<noteq> []" using assms(3) by (simp add: plain_segment_def)
  note cli = cli_exec [OF tid assms(4,5,6,7)]
  have page: "rq_method (rq\<lparr>rq_path := p\<rparr>) = ''POST''"
    "rq_credentials (rq\<lparr>rq_path := p\<rparr>) = Some (web_user env, web_password env)"
    "rq_raw_path (rq\<lparr>rq_path := p\<rparr>) = []"
    "rq_path (rq\<lparr>rq_path := p\<rparr>) = p" "rq_form_error (rq\<lparr>rq_path := p\<rparr>) = None"
    "post_form_value k (rq\<lparr>rq_path := p\<rparr>) = post_form_value k rq" for p k
    using assms(8-10,13) by (simp_all add: post_form_value_def post_form_def)
  note post = web_member_exec [OF assms(2,3) page(1-3)]
  have out: "post_form_value ''outcome'' rq = (if ok then ''success'' else ''failure'')"
    using assms(11) by (simp add: outcome_word_def)
  show ?thesis
    unfolding Let_def performs_def
    by (intro conjI)
      (simp_all only: rpc_exec [OF assms(1)] mcp_exec cli post page out assms(12) simp_thms)
qed

lemma operator_frontends_agree_witness:
  "snd (http_serve sample_web (\<lambda>_. not_found) [] (\<lambda>_. 0) (\<lambda>_. calm 5 9)
     (post_request (member_path ''11'' ''finalize'') [(''outcome'', ''failure''), (''message'', ''no'')]) sample_db) =
   sys_db (snd (run_cli sample_cli [''tasks'', ''finalize'', ''11'', ''--fail'', ''no'']
     \<lparr>sys_db = sample_db, sys_metrics = zero_metrics\<rparr>))"
proof -
  let ?rq = "post_request [] [(''outcome'', ''failure''), (''message'', ''no'')]"
  have token: "admin_token number_config = ''at''" by (simp add: number_config_def sample_config_def)
  have "parse_uuid number_config ''11'' = Some 2" "web_parse sample_web ''11'' = Some 2" "\<not> dashed ''11''"
    "new_admin_client sample_cli = Inr (admin_conn number_config (calm 5 9) (admin_token number_config))"
    "cl_env_error sample_cli = None" "plain_segment ''11''"
    unfolding token sample_cli_client
    by (simp_all add: number_config_def sample_web_def dashed_def sample_cli_def plain_segment_def
        unreserved_def)
  moreover have "rq_raw_path ?rq = []" "rq_method ?rq = ''POST''" "rq_form_error ?rq = None"
    "rq_credentials ?rq = Some (web_user sample_web, web_password sample_web)"
    "post_form_value ''outcome'' ?rq = outcome_word False" "post_form_value ''message'' ?rq = ''no''"
    "\<And>p. ?rq\<lparr>rq_path := p\<rparr> = post_request p [(''outcome'', ''failure''), (''message'', ''no'')]"
    by (simp_all add: post_request_def sample_web_def post_form_value_def post_form_def first_value_def
        or_empty_def outcome_word_def)
  ultimately show ?thesis
    using operator_frontends_agree [of number_config "''11''" 2 sample_web "''no''" sample_cli "calm 5 9" ?rq False
        "\<lambda>_. not_found" "[]" "\<lambda>_. 0" "\<lparr>sys_db = sample_db, sys_metrics = zero_metrics\<rparr>"]
    by (simp add: Let_def performs_def finalize_args_def del: exec.simps)
qed

end
