(* ===== verification/Divergences.thy ===== *)
theory Divergences
  imports System Cli Demo
begin

section \<open>Where the code and its documentation differ\<close>

text \<open>
  Facts about the model that contradict a comment, a help text or the evident intent of the code,
  each on a concrete state or for all states. Those of the worker (\<open>failed_report_wedges\<close>,
  \<open>early_open_pr_wedges\<close>), of the log (\<open>append_race\<close>) and of the command line
  (\<open>finalize_plan_swapped\<close>, \<open>attempts_truncated\<close>) are in their theories.
\<close>

text \<open>transitions.go calls its map canonical: complete only from in_progress. ReportResult does not
  consult it and completes a claimed task.\<close>

lemma complete_from_claimed:
  "Claimed \<notin> set (the (allowed_from RoleWorker ''complete''))"
  "map_option t_status (find_task 2 (snd (report_result (calm 5 0) ''w'' 2 True [] sample_db))) = Some Completed"
  by (simp_all add: allowed_from_def report_result_def owner_update_def exec_update_def sample_db_def
      sample_task_def holds_claim_def complete_row_def sql_returning_def sql_update_def active_status_def
      find_key_sql_update)

text \<open>SetJiraURL claims the effect of a heartbeat, which starts a claimed task; it leaves it claimed.\<close>

lemma jira_does_not_start:
  "map_option t_status (find_task 2 (snd (heartbeat (calm 5 0) ''w'' 2 sample_db))) = Some InProgress"
  "map_option t_status (find_task 2 (snd (set_jira_url (calm 5 0) ''w'' 2 ''u'' sample_db))) = Some Claimed"
  by (simp_all add: heartbeat_def set_jira_url_def owner_update_def exec_update_def sample_db_def sample_task_def
      holds_claim_def heartbeat_row_def jira_row_def sql_returning_def sql_update_def active_status_def
      allowed_from_strings_def allowed_from_def status_any_def Let_def)

text \<open>The instructions that CreateTask requires can be dropped by an edit.\<close>

definition bare_edit :: update_task_input where
  "bare_edit = \<lparr>ut_name = ''task'', ut_priority = 0, ut_max_attempts = 3, ut_scheduled_for = None,
     ut_payload = RawDoc (JObj []), ut_jira_url = None, ut_github_pr_url = None\<rparr>"

lemma edit_drops_instructions:
  "map_option t_payload (find_task 1 (snd (update_task (calm 5 0) 1 bare_edit sample_db))) = Some (JObj [])"
  "validate_create_input (ut_payload bare_edit) = Some NoInstructions"
  by (simp_all add: update_task_def bare_edit_def update_row_def update_or_def exec_update_def sample_db_def
      sample_task_def sql_returning_def sql_update_def int4_def validate_create_input_def
      decode_instructions_ptr_def)

text \<open>A task finalized as a success keeps the error of an earlier attempt.\<close>

lemma success_keeps_error:
  "t_status (finalize_row Completed None n t) = Completed"
  "t_last_error (finalize_row Completed None n t) = t_last_error t"
  by (simp_all add: finalize_row_def)

text \<open>The counters of completed and failed tasks do not see FinalizeTask.\<close>

lemma finalize_not_counted: "sys_metrics (snd (rpc_finalize_task parse shw en i out s)) = sys_metrics s"
proof -
  have "sys_metrics (snd (detail_after shw msg en j (reply c s res))) = sys_metrics s" for msg j c res
    by (cases "fst res") (simp_all add: detail_after_def reply_def split: sum.split)
  then show ?thesis
    by (cases out) (simp_all add: rpc_finalize_task_def Let_def split: option.split)
qed

text \<open>ListTasks does not look at \<open>rows.Err()\<close>: a connection lost while the page is read is a short page.\<close>

lemma list_tasks_hides_error:
  assumes "fault en 0 = None" and "fault en 1 = None" and "row_fault en 0 = Some (0, e)"
  shows "list_tasks en \<lparr>f_status = None, f_limit = 50, f_offset = 0\<rparr> d = Inr ([], int (length (tasks d)))"
  using assms by (simp add: list_tasks_def where_status_def fetch_def)

text \<open>The bearer interceptors accept the token without the word Bearer.\<close>

lemma bare_token_accepted: "\<not> has_prefix token bearer_prefix \<Longrightarrow> presents (Some (\<lambda>_. [token])) token"
  by (simp add: presents_def trim_prefix_def)

text \<open>A payload of null with instructions makes the form handlers panic.\<close>

lemma null_payload_panics: "merge_instructions JNull s = MergePanic"
  by (simp add: merge_instructions_def)

text \<open>The web form creates a task without a name and with 51 attempts, which the RPC refuses.\<close>

lemma web_create_unchecked:
  "rpc_create_task shw en (sample_create\<lparr>cr_name := [], cr_max_attempts := 51\<rparr>) s =
     (Inl (InvalidArgument, ''name is required''), s)"
  "\<exists>d'. tasks_create sample_web (\<lambda>_. calm 5 9)
     (post_request ''/tasks'' [(''payload'', ''p''), (''max_attempts'', ''51'')]) sample_db =
       (see_other ''/tasks'', d')"
proof -
  have f: "parse_task_form sample_web (post_request ''/tasks'' [(''payload'', ''p''), (''max_attempts'', ''51'')]) =
      FormOk (empty_form\<lparr>tf_max_attempts := 51, tf_payload := ''p''\<rparr>)
        \<lparr>nt_name = [], nt_payload = RawDoc (JObj [(''instructions'', JStr ''go'')]), nt_priority = 0,
         nt_max_attempts = 51, nt_scheduled_for = None, nt_jira_url = None, nt_github_pr_url = None\<rparr>"
    by (simp add: parse_task_form_def post_request_def sample_web_def form_value_def post_form_value_def
        post_form_def first_value_def or_empty_def parse_int_field_def atoi_def split_sign_def digit_val_def
        go_int_def finish_form_def empty_form_def Let_def)
  have "trim_space ''go'' = ''go''" by (simp add: trim_space_def space_seqs_def trim_seqs.simps)
  then show "\<exists>d'. tasks_create sample_web (\<lambda>_. calm 5 9)
     (post_request ''/tasks'' [(''payload'', ''p''), (''max_attempts'', ''51'')]) sample_db =
       (see_other ''/tasks'', d')"
    by (simp add: tasks_create_def f create_task_def validate_create_input_def decode_instructions_ptr_def
        int4_def sample_db_def sample_task_def Let_def)
qed (simp add: rpc_create_task_def)

text \<open>
  The forms that templates/tasks_detail.html shows for a task of a status, beside the links. They are
  those the store accepts, except that Delete is also offered for a parked task, which is refused.
\<close>

definition offered_actions :: "task_status \<Rightarrow> string list" where
  "offered_actions st =
     (if st = Pending then [''edit''] else []) @
     (if st = Completed \<or> st = Failed then [''requeue''] else []) @
     (if st \<noteq> Claimed \<and> st \<noteq> InProgress then [''delete''] else []) @
     (if st = PROpened then [''request-review''] else []) @
     (if st = PROpened \<or> st = ReviewRequested then [''finalize''] else [])"

lemma offered_actions_accepted:
  "''requeue'' \<in> set (offered_actions st) \<Longrightarrow> idle_status st"
  "''request-review'' \<in> set (offered_actions st) \<longleftrightarrow>
     status_string st \<in> set (allowed_from_strings RoleAdmin ''request_review'')"
  "''finalize'' \<in> set (offered_actions st) \<longleftrightarrow>
     status_string st \<in> set (allowed_from_strings RoleAdmin ''finalize'')"
  "''delete'' \<in> set (offered_actions st) \<longleftrightarrow> idle_status st \<or> parked_status st"
  by (cases st; simp add: offered_actions_def idle_status_def parked_status_def allowed_from_strings_def
      allowed_from_def)+

lemma offered_delete_refused:
  assumes "find_task i d = Some t" and "parked_status (t_status t)" and "distinct (ids d)"
    and "fault (ens 0) 0 = None" and "fault (ens 0) 1 = None"
  shows "''delete'' \<in> set (offered_actions (t_status t))"
    and "tasks_delete ens i d = (Reply 409 (Plain ''cannot delete active task''), d)"
proof -
  show "''delete'' \<in> set (offered_actions (t_status t))"
    using assms(2) by (simp add: offered_actions_accepted)
  have "rows_affected (\<lambda>t. t_id t = i \<and> idle_status (t_status t)) (tasks d) = 0"
    using assms(1,2,3) find_key_distinct [of t_id "tasks d"]
    by (fastforce simp: rows_affected_def filter_empty_conv parked_status_def idle_status_def)
  then show "tasks_delete ens i d = (Reply 409 (Plain ''cannot delete active task''), d)"
    using assms by (simp add: tasks_delete_def delete_task_def missing_or_def get_task_def Let_def)
qed

end
